(* ===== verification/Prelude.thy ===== *)
theory Prelude
  imports Main "HOL-Library.Word"
begin

unbundle bit_operations_syntax

text \<open>
  Shared vocabulary of the development: machine integer types, the outcome type of kernel
  code (a panic, or a value with the new state), the combinators that thread state through a
  handler, their weakest-precondition rules, little-endian byte encodings, and the generic
  list lemmas the components use.

  The kernel, \<^verbatim>\<open>easy-fs\<close> and the image builder are all compiled with \<^verbatim>\<open>--release\<close>
  (\<^verbatim>\<open>os/Makefile\<close>: \<^verbatim>\<open>MODE := release\<close>), so integer overflow wraps around; a failed
  \<^verbatim>\<open>assert!\<close>, an \<^verbatim>\<open>unwrap\<close> of \<^verbatim>\<open>None\<close>, an index out of range and an explicit \<^verbatim>\<open>panic!\<close>
  still stop the kernel and are values of type \<open>panic\<close>. \<open>NeverReturns\<close> is the outcome of a loop of the code
  that does not end.
\<close>

section \<open>Machine types\<close>

type_synonym byte = "8 word"
type_synonym u8 = "8 word"
type_synonym u32 = "32 word"
type_synonym u64 = "64 word"
type_synonym usize = "64 word"

section \<open>Outcomes and state passing\<close>

datatype panic =
    UnwrapNone
  | AssertFailed
  | IndexOutOfRange
  | ExplicitPanic
  | Deadlock
  | AlreadyBorrowed
  | DeviceError
  | InvalidValue
  | NeverReturns

type_synonym 'a res = "panic + 'a"
type_synonym ('s, 'a) prog = "'s \<Rightarrow> panic + 'a \<times> 's"

definition ret :: "'a \<Rightarrow> ('s, 'a) prog" where
  "ret x = (\<lambda>s. Inr (x, s))"

definition throw :: "panic \<Rightarrow> ('s, 'a) prog" where
  "throw e = (\<lambda>s. Inl e)"

definition andthen :: "('s, 'a) prog \<Rightarrow> ('a \<Rightarrow> ('s, 'b) prog) \<Rightarrow> ('s, 'b) prog" where
  "andthen m f = (\<lambda>s. case m s of Inl e \<Rightarrow> Inl e | Inr (x, s') \<Rightarrow> f x s')"

definition gets :: "('s \<Rightarrow> 'a) \<Rightarrow> ('s, 'a) prog" where
  "gets f = (\<lambda>s. Inr (f s, s))"

definition modifies :: "('s \<Rightarrow> 's) \<Rightarrow> ('s, unit) prog" where
  "modifies f = (\<lambda>s. Inr ((), f s))"

definition assert_that :: "bool \<Rightarrow> ('s, unit) prog" where
  "assert_that b = (if b then ret () else throw AssertFailed)"

definition unwrap :: "'a option \<Rightarrow> ('s, 'a) prog" where
  "unwrap r = (case r of None \<Rightarrow> throw UnwrapNone | Some x \<Rightarrow> ret x)"

definition lift_res :: "'a res \<Rightarrow> ('s, 'a) prog" where
  "lift_res r = (case r of Inl e \<Rightarrow> throw e | Inr x \<Rightarrow> ret x)"

definition lift_loop :: "'a res option \<Rightarrow> ('s, 'a) prog" where
  "lift_loop r = (case r of None \<Rightarrow> throw NeverReturns | Some r' \<Rightarrow> lift_res r')"

fun for_each :: "'a list \<Rightarrow> ('a \<Rightarrow> ('s, unit) prog) \<Rightarrow> ('s, unit) prog" where
  "for_each [] f = ret ()"
| "for_each (x # xs) f = andthen (f x) (\<lambda>_. for_each xs f)"

text \<open>
  \<open>wp m Q s\<close>: started in \<open>s\<close>, the program \<open>m\<close> does not panic and its value and final state
  satisfy \<open>Q\<close>. Every program of the model is a total function, so this is total correctness.
\<close>

definition wp :: "('s, 'a) prog \<Rightarrow> ('a \<Rightarrow> 's \<Rightarrow> bool) \<Rightarrow> 's \<Rightarrow> bool" where
  "wp m Q s = (case m s of Inl e \<Rightarrow> False | Inr (x, s') \<Rightarrow> Q x s')"

named_theorems prog_defs

lemmas [prog_defs] = ret_def throw_def andthen_def gets_def modifies_def assert_that_def
  unwrap_def lift_res_def

lemma wp_ret [simp]: "wp (ret x) Q s = Q x s"
  by (simp add: wp_def ret_def)

lemma wp_throw [simp]: "wp (throw e) Q s = False"
  by (simp add: wp_def throw_def)

lemma wp_andthen [simp]: "wp (andthen m f) Q s = wp m (\<lambda>x. wp (f x) Q) s"
  by (simp add: wp_def andthen_def split: sum.splits prod.splits)

lemma wp_gets [simp]: "wp (gets f) Q s = Q (f s) s"
  by (simp add: wp_def gets_def)

lemma wp_modifies [simp]: "wp (modifies f) Q s = Q () (f s)"
  by (simp add: wp_def modifies_def)

lemma wp_assert_that [simp]: "wp (assert_that b) Q s = (b \<and> Q () s)"
  by (simp add: assert_that_def)

lemma wp_unwrap [simp]: "wp (unwrap r) Q s = (\<exists>x. r = Some x \<and> Q x s)"
  by (simp add: unwrap_def split: option.splits)

lemma wp_lift_res [simp]: "wp (lift_res r) Q s = (\<exists>x. r = Inr x \<and> Q x s)"
  by (simp add: lift_res_def split: sum.splits)

lemma wp_if [simp]: "wp (if b then m else n) Q s = (if b then wp m Q s else wp n Q s)"
  by simp

lemma wp_mono: "wp m P s \<Longrightarrow> (\<And>x s'. P x s' \<Longrightarrow> Q x s') \<Longrightarrow> wp m Q s"
  by (auto simp: wp_def split: sum.splits prod.splits)

lemma wp_runs: "wp m Q s \<longleftrightarrow> (\<exists>x s'. m s = Inr (x, s') \<and> Q x s')"
  by (auto simp: wp_def split: sum.splits prod.splits)

lemma wp_conj: "wp m P s \<Longrightarrow> wp m Q s \<Longrightarrow> wp m (\<lambda>x s'. P x s' \<and> Q x s') s"
  by (auto simp: wp_def split: sum.splits prod.splits)

lemma wp_for_each:
  assumes "I xs s"
    and "\<And>x rest s. I (x # rest) s \<Longrightarrow> x \<in> set xs \<Longrightarrow> wp (f x) (\<lambda>_ s'. I rest s') s"
  shows "wp (for_each xs f) (\<lambda>_ s'. I [] s') s"
  using assms
proof (induction xs arbitrary: s)
  case Nil
  then show ?case by simp
next
  case (Cons x xs)
  have "wp (f x) (\<lambda>_ s'. I xs s') s"
    using Cons.prems by simp
  moreover have "wp (for_each xs f) (\<lambda>_ s''. I [] s'') s'" if "I xs s'" for s'
    using that Cons.prems(2) by (intro Cons.IH) simp_all
  ultimately show ?case
    by (auto elim!: wp_mono)
qed

lemma for_each_append:
  "for_each (xs @ ys) f = andthen (for_each xs f) (\<lambda>_. for_each ys f)"
  by (induction xs) (simp_all add: andthen_def ret_def fun_eq_iff split: sum.splits)

section \<open>Lists\<close>

text \<open>\<open>position p xs\<close> is \<^verbatim>\<open>iter().enumerate().find(..)\<close>: the first index that satisfies \<open>p\<close>.\<close>

fun position :: "('a \<Rightarrow> bool) \<Rightarrow> 'a list \<Rightarrow> nat option" where
  "position p [] = None"
| "position p (x # xs) = (if p x then Some 0 else map_option Suc (position p xs))"

lemma position_None [simp]: "position p xs = None \<longleftrightarrow> (\<forall>x\<in>set xs. \<not> p x)"
  by (induction xs) auto

lemma position_Some:
  "position p xs = Some i \<longleftrightarrow> i < length xs \<and> p (xs ! i) \<and> (\<forall>j<i. \<not> p (xs ! j))"
proof (induction xs arbitrary: i)
  case Nil
  then show ?case by simp
next
  case (Cons x xs)
  show ?case
  proof (cases i)
    case 0
    then show ?thesis by auto
  next
    case (Suc k)
    then show ?thesis
      using Cons.IH[of k] by (auto simp: less_Suc_eq_0_disj)
  qed
qed

text \<open>\<open>overwrite off xs ys\<close> overwrites \<open>ys\<close> with \<open>xs\<close> from offset \<open>off\<close> on.\<close>

definition overwrite :: "nat \<Rightarrow> 'a list \<Rightarrow> 'a list \<Rightarrow> 'a list" where
  "overwrite off xs ys = take off ys @ xs @ drop (off + length xs) ys"

definition slice :: "nat \<Rightarrow> nat \<Rightarrow> 'a list \<Rightarrow> 'a list" where
  "slice off n ys = take n (drop off ys)"

lemma length_overwrite [simp]:
  "off + length xs \<le> length ys \<Longrightarrow> length (overwrite off xs ys) = length ys"
  by (simp add: overwrite_def)

lemma length_slice [simp]: "off + n \<le> length ys \<Longrightarrow> length (slice off n ys) = n"
  by (simp add: slice_def)

lemma nth_overwrite:
  "off + length xs \<le> length ys \<Longrightarrow> i < length ys \<Longrightarrow>
   overwrite off xs ys ! i = (if off \<le> i \<and> i < off + length xs then xs ! (i - off) else ys ! i)"
  by (auto simp: overwrite_def nth_append)

lemma nth_slice: "off + n \<le> length ys \<Longrightarrow> i < n \<Longrightarrow> slice off n ys ! i = ys ! (off + i)"
  by (simp add: slice_def)

lemma slice_overwrite_same [simp]:
  "off + length xs \<le> length ys \<Longrightarrow> n = length xs \<Longrightarrow> slice off n (overwrite off xs ys) = xs"
  by (simp add: slice_def overwrite_def)

lemma slice_overwrite_other:
  assumes "off + length xs \<le> length ys" and "off' + n \<le> length ys"
    and "off' + n \<le> off \<or> off + length xs \<le> off'"
  shows "slice off' n (overwrite off xs ys) = slice off' n ys"
  using assms by (intro nth_equalityI) (auto simp: nth_slice nth_overwrite)

lemma overwrite_self [simp]:
  "off + n \<le> length ys \<Longrightarrow> overwrite off (slice off n ys) ys = ys"
  by (intro nth_equalityI) (auto simp: nth_slice nth_overwrite)

section \<open>Little-endian bytes\<close>

definition word_le_bytes :: "nat \<Rightarrow> 'a::len word \<Rightarrow> byte list" where
  "word_le_bytes n w = map (\<lambda>i. ucast (drop_bit (8 * i) w)) [0..<n]"

fun bytes_le_word :: "byte list \<Rightarrow> 'a::len word" where
  "bytes_le_word [] = 0"
| "bytes_le_word (b # bs) = ucast b OR push_bit 8 (bytes_le_word bs)"

lemma length_word_le_bytes [simp]: "length (word_le_bytes n w) = n"
  by (simp add: word_le_bytes_def)

lemma nth_word_le_bytes [simp]:
  "i < n \<Longrightarrow> word_le_bytes n w ! i = ucast (drop_bit (8 * i) w)"
  by (simp add: word_le_bytes_def)

lemma bit_bytes_le_word:
  "bit (bytes_le_word bs :: 'a::len word) k \<longleftrightarrow>
   k < LENGTH('a) \<and> k div 8 < length bs \<and> bit (bs ! (k div 8)) (k mod 8)"
proof (induction bs arbitrary: k)
  case Nil
  then show ?case by simp
next
  case (Cons b bs)
  show ?case
  proof (cases "k < 8")
    case True
    then show ?thesis
      by (auto simp: bit_simps)
  next
    case False
    then have k: "k div 8 = Suc ((k - 8) div 8)" "k mod 8 = (k - 8) mod 8"
      by (simp_all add: le_div_geq mod_if)
    have "\<not> bit b k"
      using False bit_imp_le_length[of b k] by auto
    then show ?thesis
      using False Cons.IH[of "k - 8"] by (auto simp: bit_simps k)
  qed
qed

lemma bytes_le_word_le_bytes [simp]:
  assumes "LENGTH('a) = 8 * n"
  shows "bytes_le_word (word_le_bytes n (w :: 'a::len word)) = w"
proof (rule bit_word_eqI)
  fix k
  assume "k < LENGTH('a)"
  then have "k div 8 < n" and "8 * (k div 8) + k mod 8 = k"
    using assms by auto
  then show "bit (bytes_le_word (word_le_bytes n w) :: 'a word) k = bit w k"
    using \<open>k < LENGTH('a)\<close> by (simp add: bit_bytes_le_word bit_simps)
qed

lemma word_le_bytes_of_bytes [simp]:
  assumes "LENGTH('a) = 8 * n" and "length bs = n"
  shows "word_le_bytes n (bytes_le_word bs :: 'a::len word) = bs"
proof (rule nth_equalityI)
  show "length (word_le_bytes n (bytes_le_word bs :: 'a word)) = length bs"
    using assms by simp
  fix i
  assume "i < length (word_le_bytes n (bytes_le_word bs :: 'a word))"
  then have i: "i < n" by simp
  show "word_le_bytes n (bytes_le_word bs :: 'a word) ! i = bs ! i"
  proof (rule bit_word_eqI)
    fix k
    assume "k < LENGTH(8)"
    then have k: "k < 8" by simp
    then have "(8 * i + k) div 8 = i" "(8 * i + k) mod 8 = k" "8 * i + k < LENGTH('a)"
      using i assms(1) by auto
    then show "bit (word_le_bytes n (bytes_le_word bs :: 'a word) ! i) k = bit (bs ! i) k"
      using i k assms by (simp add: bit_simps bit_bytes_le_word)
  qed
qed

end
