(* ===== verification/Id_Alloc.thy ===== *)
theory Id_Alloc
  imports Prelude
begin

text \<open>
  The identifier allocators. \<open>id_allocator\<close> is the contract that both recycling allocators of
  the kernel keep: \<^verbatim>\<open>RecycleAllocator\<close> (\<^verbatim>\<open>os/src/task/id.rs\<close>: pids, kernel stacks, thread
  ids), modelled here, and \<^verbatim>\<open>StackFrameAllocator\<close> (\<^verbatim>\<open>os/src/mm/frame_allocator.rs\<close>), modelled
  in \<open>Frame_Allocator\<close>. Ids are \<^verbatim>\<open>usize\<close> and \<^verbatim>\<open>current\<close> wraps around; \<open>exhausted\<close> marks the states in which the
  next allocation would run out of ids.
\<close>

section \<open>The contract of an allocator\<close>

locale id_allocator =
  fixes alloc :: "'st \<Rightarrow> 'i option \<times> 'st"
    and dealloc :: "'i \<Rightarrow> 'st \<Rightarrow> panic + 'st"
    and invar :: "'st \<Rightarrow> bool"
    and used :: "'st \<Rightarrow> 'i set"
    and exhausted :: "'st \<Rightarrow> bool"
  assumes alloc_Some: "invar st \<Longrightarrow> \<not> exhausted st \<Longrightarrow> alloc st = (Some x, st') \<Longrightarrow>
      x \<notin> used st \<and> used st' = insert x (used st) \<and> invar st'"
    and alloc_None: "invar st \<Longrightarrow> alloc st = (None, st') \<Longrightarrow> st' = st"
    and dealloc_used: "invar st \<Longrightarrow> x \<in> used st \<Longrightarrow>
      \<exists>st'. dealloc x st = Inr st' \<and> used st' = used st - {x} \<and> invar st'"
    and dealloc_unused: "invar st \<Longrightarrow> x \<notin> used st \<Longrightarrow> \<exists>e. dealloc x st = Inl e"
begin

lemma alloc_fresh: "invar st \<Longrightarrow> \<not> exhausted st \<Longrightarrow> alloc st = (Some x, st') \<Longrightarrow> x \<notin> used st"
  using alloc_Some by blast

lemma alloc_invar: "invar st \<Longrightarrow> \<not> exhausted st \<Longrightarrow> alloc st = (r, st') \<Longrightarrow> invar st'"
  using alloc_Some alloc_None by (cases r) blast+

lemma alloc_twice_distinct:
  assumes "invar st" and "\<not> exhausted st" and "\<not> exhausted st1" and "alloc st = (Some x, st1)" and "alloc st1 = (Some y, st2)"
  shows "x \<noteq> y"
  using alloc_Some[OF assms(1,2,4)] alloc_Some[OF _ assms(3,5)] by auto

lemma dealloc_cases:
  assumes "invar st" and "dealloc x st = Inr st'"
  shows "x \<in> used st \<and> used st' = used st - {x} \<and> invar st'"
  using dealloc_used[OF assms(1), of x] dealloc_unused[OF assms(1), of x] assms(2) by force

lemma double_dealloc_panics:
  assumes "invar st" and "dealloc x st = Inr st'"
  shows "\<exists>e. dealloc x st' = Inl e"
  using dealloc_cases[OF assms] dealloc_unused by blast

lemma alloc_dealloc_restores:
  assumes "invar st" and "\<not> exhausted st" and "alloc st = (Some x, st1)"
  shows "\<exists>st2. dealloc x st1 = Inr st2 \<and> used st2 = used st \<and> invar st2"
  using alloc_Some[OF assms] dealloc_used[of st1 x] by auto

end

section \<open>RecycleAllocator\<close>

record RecycleAllocator =
  ra_current :: usize
  ra_recycled :: "usize list"

text \<open>\<^verbatim>\<open>recycled\<close> is a \<^verbatim>\<open>Vec\<close> used as a stack: its last element is the list's last element.\<close>

definition RecycleAllocator_new :: RecycleAllocator where
  "RecycleAllocator_new = \<lparr>ra_current = 0, ra_recycled = []\<rparr>"

definition RecycleAllocator_alloc :: "RecycleAllocator \<Rightarrow> usize \<times> RecycleAllocator" where
  "RecycleAllocator_alloc a =
     (if ra_recycled a \<noteq> []
      then (last (ra_recycled a), a\<lparr>ra_recycled := butlast (ra_recycled a)\<rparr>)
      else (ra_current a + 1 - 1, a\<lparr>ra_current := ra_current a + 1\<rparr>))"

definition RecycleAllocator_dealloc :: "usize \<Rightarrow> RecycleAllocator \<Rightarrow> panic + RecycleAllocator" where
  "RecycleAllocator_dealloc i a =
     (if \<not> i < ra_current a then Inl AssertFailed
      else if i \<in> set (ra_recycled a) then Inl AssertFailed
      else Inr (a\<lparr>ra_recycled := ra_recycled a @ [i]\<rparr>))"

definition ra_inv :: "RecycleAllocator \<Rightarrow> bool" where
  "ra_inv a \<longleftrightarrow> distinct (ra_recycled a) \<and> (\<forall>i\<in>set (ra_recycled a). i < ra_current a)"

definition ra_used :: "RecycleAllocator \<Rightarrow> usize set" where
  "ra_used a = {i. i < ra_current a} - set (ra_recycled a)"

text \<open>The next allocation makes \<^verbatim>\<open>current\<close> wrap around to 0.\<close>

definition ra_exhausted :: "RecycleAllocator \<Rightarrow> bool" where
  "ra_exhausted a \<longleftrightarrow> ra_recycled a = [] \<and> ra_current a = - 1"

lemmas ra_defs = RecycleAllocator_new_def RecycleAllocator_alloc_def
  RecycleAllocator_dealloc_def ra_inv_def ra_used_def ra_exhausted_def

lemma ra_inv_new: "ra_inv RecycleAllocator_new" and ra_used_new: "ra_used RecycleAllocator_new = {}"
  by (simp_all add: ra_defs)

lemma unat_succ: "(c :: usize) \<noteq> - 1 \<Longrightarrow> unat (c + 1) = Suc (unat c)"
  using unatSuc[of c] by (simp add: add.commute add_eq_0_iff)

lemma word_less_Suc: "(c :: usize) \<noteq> - 1 \<Longrightarrow> i < c + 1 \<longleftrightarrow> i < c \<or> i = c"
  by (auto simp: word_less_nat_alt unat_succ less_Suc_eq dest: word_unat_eq_iff[THEN iffD2])

text \<open>Taking the last element off a duplicate-free list.\<close>

lemma set_butlast_distinct:
  "xs \<noteq> [] \<Longrightarrow> distinct xs \<Longrightarrow> set (butlast xs) = set xs - {last xs}"
  by (cases xs rule: rev_cases) auto

lemma RecycleAllocator_alloc_used:
  assumes inv: "ra_inv a" and room: "\<not> ra_exhausted a" and alloc: "RecycleAllocator_alloc a = (i, a')"
  shows "i \<notin> ra_used a \<and> ra_used a' = insert i (ra_used a) \<and> ra_inv a'"
proof (cases "ra_recycled a = []")
  case True
  then have ne: "ra_current a \<noteq> - 1" using room by (simp add: ra_exhausted_def)
  have "i = ra_current a" "a' = a\<lparr>ra_current := ra_current a + 1\<rparr>"
    using alloc True by (auto simp: RecycleAllocator_alloc_def)
  then show ?thesis
    using True word_less_Suc[OF ne] by (simp add: ra_used_def ra_inv_def set_eq_iff disj_commute)
next
  case False
  let ?i = "last (ra_recycled a)"
  have "i = ?i" "a' = a\<lparr>ra_recycled := butlast (ra_recycled a)\<rparr>"
    using alloc False by (auto simp: RecycleAllocator_alloc_def)
  moreover have "?i \<in> set (ra_recycled a)" "?i < ra_current a" using False inv by (simp_all add: ra_inv_def)
  moreover have "set (butlast (ra_recycled a)) = set (ra_recycled a) - {?i}"
    using False inv by (simp add: set_butlast_distinct ra_inv_def)
  ultimately show ?thesis using inv by (auto simp: ra_used_def ra_inv_def distinct_butlast)
qed

interpretation recycle: id_allocator
  "\<lambda>a. map_prod Some id (RecycleAllocator_alloc a)" RecycleAllocator_dealloc ra_inv ra_used ra_exhausted
proof unfold_locales
  show "x \<notin> ra_used st \<and> ra_used st' = insert x (ra_used st) \<and> ra_inv st'"
    if "ra_inv st" and "\<not> ra_exhausted st" and "map_prod Some id (RecycleAllocator_alloc st) = (Some x, st')"
    for st :: RecycleAllocator and x st'
    using that RecycleAllocator_alloc_used[of st x st'] by (cases "RecycleAllocator_alloc st") auto
  show "\<exists>e. RecycleAllocator_dealloc x st = Inl e" if "x \<notin> ra_used st" for st x
    using that by (auto simp: ra_defs)
qed (auto simp: ra_defs map_prod_def split: if_splits)

section \<open>Reachable allocators\<close>

text \<open>\<open>ra_reachable n a\<close>: the allocator reaches \<open>a\<close> with \<open>n\<close> calls of \<^verbatim>\<open>alloc\<close> and any number of calls of \<^verbatim>\<open>dealloc\<close>.\<close>

inductive ra_reachable :: "nat \<Rightarrow> RecycleAllocator \<Rightarrow> bool" where
  ra_start: "ra_reachable 0 RecycleAllocator_new"
| ra_alloc: "ra_reachable n a \<Longrightarrow> RecycleAllocator_alloc a = (i, a') \<Longrightarrow> ra_reachable (Suc n) a'"
| ra_dealloc: "ra_reachable n a \<Longrightarrow> RecycleAllocator_dealloc i a = Inr a' \<Longrightarrow> ra_reachable n a'"

lemma ra_alloc_current:
  assumes "RecycleAllocator_alloc a = (i, a')"
  shows "unat (ra_current a') \<le> Suc (unat (ra_current a))"
proof (cases "ra_current a = - 1")
  case False
  then show ?thesis using assms unat_succ[OF False] by (auto simp: RecycleAllocator_alloc_def split: if_splits)
qed (use assms in \<open>auto simp: RecycleAllocator_alloc_def split: if_splits\<close>)

lemma ra_not_exhausted: "unat (ra_current a) + 1 < 2 ^ 64 \<Longrightarrow> \<not> ra_exhausted a"
  by (auto simp: ra_exhausted_def unsigned_minus_1_eq_mask mask_eq_exp_minus_1)

lemma ra_reachable_inv: "ra_reachable n a \<Longrightarrow> n < 2 ^ 64 \<Longrightarrow> ra_inv a \<and> unat (ra_current a) \<le> n"
proof (induction rule: ra_reachable.induct)
  case ra_start
  show ?case by (simp add: ra_inv_new) (simp add: RecycleAllocator_new_def)
next
  case (ra_alloc n a i a')
  then have a: "ra_inv a" "unat (ra_current a) \<le> n" by auto
  then have "\<not> ra_exhausted a" using ra_alloc.prems by (intro ra_not_exhausted) linarith
  then show ?case using RecycleAllocator_alloc_used[OF a(1)] a(2) ra_alloc_current[OF ra_alloc.hyps(2)] ra_alloc.hyps(2) by force
next
  case (ra_dealloc n a i a')
  then have a: "ra_inv a" "unat (ra_current a) \<le> n" by auto
  have "ra_current a' = ra_current a"
    using ra_dealloc.hyps(2) by (auto simp: RecycleAllocator_dealloc_def split: if_splits)
  then show ?case using a(2) recycle.dealloc_cases[OF a(1) ra_dealloc.hyps(2)] by simp
qed

text \<open>
  C4: in every state that the pid, kernel-stack and thread-id allocators reach with fewer than \<open>2 ^ 64 - 1\<close> allocations,
  \<^verbatim>\<open>alloc\<close> hands out an id that is not in use, giving it back restores the set of ids in use, and giving back an id
  that is not in use (twice, or never handed out) panics. Only after that many allocations \<^verbatim>\<open>current\<close> can wrap around.
\<close>

theorem RecycleAllocator_ids_exclusive:
  assumes "ra_reachable n a" and "n + 1 < 2 ^ 64" and "RecycleAllocator_alloc a = (i, a')"
  shows "i \<notin> ra_used a \<and> ra_used a' = insert i (ra_used a) \<and>
    (\<exists>a''. RecycleAllocator_dealloc i a' = Inr a'' \<and> ra_used a'' = ra_used a) \<and>
    (\<forall>j. j \<notin> ra_used a \<longrightarrow> (\<exists>e. RecycleAllocator_dealloc j a = Inl e))"
proof -
  have alloc: "map_prod Some id (RecycleAllocator_alloc a) = (Some i, a')"
    using assms(3) by simp
  have inv: "ra_inv a" and "unat (ra_current a) \<le> n"
    using ra_reachable_inv[OF assms(1)] assms(2) by simp_all
  then have room: "\<not> ra_exhausted a" using assms(2) by (intro ra_not_exhausted) linarith
  show ?thesis
    using recycle.alloc_Some[OF inv room alloc] recycle.alloc_dealloc_restores[OF inv room alloc]
      recycle.dealloc_unused[OF inv] by auto
qed

theorem RecycleAllocator_ids_exclusive_witness:
  "ra_reachable 0 RecycleAllocator_new \<and>
   RecycleAllocator_alloc RecycleAllocator_new = (0, \<lparr>ra_current = 1, ra_recycled = []\<rparr>) \<and>
   0 \<notin> ra_used RecycleAllocator_new"
  using RecycleAllocator_ids_exclusive[of 0 RecycleAllocator_new 0 "\<lparr>ra_current = 1, ra_recycled = []\<rparr>"]
    ra_start by (simp add: RecycleAllocator_new_def RecycleAllocator_alloc_def)

end
