(* ===== verification/Address.thy ===== *)
theory Address
  imports Prelude
begin

unbundle bit_operations_syntax

text \<open>
  Addresses and page numbers of the Sv39 translation scheme (\<^verbatim>\<open>os/src/mm/address.rs\<close> and the
  constants of \<^verbatim>\<open>os/src/config.rs\<close>). All four newtypes wrap a \<^verbatim>\<open>usize\<close>, a 64-bit word whose
  arithmetic wraps around.
\<close>

section \<open>Constants\<close>

definition PAGE_SIZE :: usize where "PAGE_SIZE = 0x1000"
definition PAGE_SIZE_BITS :: nat where "PAGE_SIZE_BITS = 0xc"
definition USER_STACK_SIZE :: usize where "USER_STACK_SIZE = 4096 * 2"
definition KERNEL_STACK_SIZE :: usize where "KERNEL_STACK_SIZE = 4096 * 2"
definition MEMORY_END :: usize where "MEMORY_END = 0x80800000"
definition TRAMPOLINE :: usize where "TRAMPOLINE = - 1 - PAGE_SIZE + 1"
definition TRAP_CONTEXT_BASE :: usize where "TRAP_CONTEXT_BASE = TRAMPOLINE - PAGE_SIZE"

definition PA_WIDTH_SV39 :: nat where "PA_WIDTH_SV39 = 56"
definition VA_WIDTH_SV39 :: nat where "VA_WIDTH_SV39 = 39"
definition PPN_WIDTH_SV39 :: nat where "PPN_WIDTH_SV39 = PA_WIDTH_SV39 - PAGE_SIZE_BITS"
definition VPN_WIDTH_SV39 :: nat where "VPN_WIDTH_SV39 = VA_WIDTH_SV39 - PAGE_SIZE_BITS"

lemmas width_defs = PA_WIDTH_SV39_def VA_WIDTH_SV39_def PPN_WIDTH_SV39_def VPN_WIDTH_SV39_def
  PAGE_SIZE_BITS_def

section \<open>The newtypes and their conversions\<close>

datatype PhysAddr = PhysAddr (pa_0: usize)
datatype VirtAddr = VirtAddr (va_0: usize)
datatype PhysPageNum = PhysPageNum (ppn_0: usize)
datatype VirtPageNum = VirtPageNum (vpn_0: usize)

lemma ppn_eq_iff: "p = PhysPageNum v \<longleftrightarrow> ppn_0 p = v"
  by (cases p) simp

lemma vpn_eq_iff: "p = VirtPageNum v \<longleftrightarrow> vpn_0 p = v"
  by (cases p) simp

lemma ppn_0_inj [simp]: "ppn_0 p = ppn_0 q \<longleftrightarrow> p = q"
  by (cases p; cases q) simp

lemma vpn_0_inj [simp]: "vpn_0 p = vpn_0 q \<longleftrightarrow> p = q"
  by (cases p; cases q) simp

definition PhysAddr_from :: "usize \<Rightarrow> PhysAddr" where
  "PhysAddr_from v = PhysAddr (v AND (push_bit PA_WIDTH_SV39 1 - 1))"

definition PhysPageNum_from :: "usize \<Rightarrow> PhysPageNum" where
  "PhysPageNum_from v = PhysPageNum (v AND (push_bit PPN_WIDTH_SV39 1 - 1))"

definition VirtAddr_from :: "usize \<Rightarrow> VirtAddr" where
  "VirtAddr_from v = VirtAddr (v AND (push_bit VA_WIDTH_SV39 1 - 1))"

definition VirtPageNum_from :: "usize \<Rightarrow> VirtPageNum" where
  "VirtPageNum_from v = VirtPageNum (v AND (push_bit VPN_WIDTH_SV39 1 - 1))"

definition va_floor :: "VirtAddr \<Rightarrow> VirtPageNum" where
  "va_floor va = VirtPageNum (va_0 va div PAGE_SIZE)"

definition va_ceil :: "VirtAddr \<Rightarrow> VirtPageNum" where
  "va_ceil va = VirtPageNum ((va_0 va - 1 + PAGE_SIZE) div PAGE_SIZE)"

definition va_page_offset :: "VirtAddr \<Rightarrow> usize" where
  "va_page_offset va = va_0 va AND (PAGE_SIZE - 1)"

definition va_aligned :: "VirtAddr \<Rightarrow> bool" where
  "va_aligned va \<longleftrightarrow> va_page_offset va = 0"

definition pa_floor :: "PhysAddr \<Rightarrow> PhysPageNum" where
  "pa_floor pa = PhysPageNum (pa_0 pa div PAGE_SIZE)"

definition pa_ceil :: "PhysAddr \<Rightarrow> PhysPageNum" where
  "pa_ceil pa = PhysPageNum ((pa_0 pa - 1 + PAGE_SIZE) div PAGE_SIZE)"

definition pa_page_offset :: "PhysAddr \<Rightarrow> usize" where
  "pa_page_offset pa = pa_0 pa AND (PAGE_SIZE - 1)"

definition pa_aligned :: "PhysAddr \<Rightarrow> bool" where
  "pa_aligned pa \<longleftrightarrow> pa_page_offset pa = 0"

definition VirtPageNum_from_va :: "VirtAddr \<Rightarrow> VirtPageNum res" where
  "VirtPageNum_from_va va = (if va_page_offset va = 0 then Inr (va_floor va) else Inl AssertFailed)"

definition VirtAddr_from_vpn :: "VirtPageNum \<Rightarrow> VirtAddr" where
  "VirtAddr_from_vpn vpn = VirtAddr (push_bit PAGE_SIZE_BITS (vpn_0 vpn))"

definition PhysPageNum_from_pa :: "PhysAddr \<Rightarrow> PhysPageNum res" where
  "PhysPageNum_from_pa pa = (if pa_page_offset pa = 0 then Inr (pa_floor pa) else Inl AssertFailed)"

definition PhysAddr_from_ppn :: "PhysPageNum \<Rightarrow> PhysAddr" where
  "PhysAddr_from_ppn ppn = PhysAddr (push_bit PAGE_SIZE_BITS (ppn_0 ppn))"

text \<open>\<^verbatim>\<open>VirtPageNum::indexes\<close>: the loop \<^verbatim>\<open>for i in (0..3).rev()\<close> over the array \<^verbatim>\<open>idx\<close>.\<close>

fun indexes_loop :: "nat list \<Rightarrow> usize \<Rightarrow> usize list \<Rightarrow> usize list" where
  "indexes_loop [] vpn idx = idx"
| "indexes_loop (i # is) vpn idx = indexes_loop is (drop_bit 9 vpn) (idx[i := vpn AND 511])"

definition indexes :: "VirtPageNum \<Rightarrow> usize list" where
  "indexes vpn = indexes_loop (rev [0..<3]) (vpn_0 vpn) [0, 0, 0]"

section \<open>Ranges of page numbers\<close>

record VPNRange =
  vr_l :: VirtPageNum
  vr_r :: VirtPageNum

definition VPNRange_new :: "VirtPageNum \<Rightarrow> VirtPageNum \<Rightarrow> VPNRange res" where
  "VPNRange_new start end =
     (if vpn_0 start \<le> vpn_0 end then Inr \<lparr>vr_l = start, vr_r = end\<rparr> else Inl AssertFailed)"

definition vpn_step :: "VirtPageNum \<Rightarrow> VirtPageNum" where
  "vpn_step vpn = VirtPageNum (vpn_0 vpn + 1)"

lemma word_minus_Suc_less:
  fixes l r :: "'a::len word"
  assumes "l \<noteq> r"
  shows "unat (r - (l + 1)) < unat (r - l)"
proof -
  have "r - l \<noteq> 0" using assms by simp
  then have "unat (r - l - 1) < unat (r - l)"
    by (simp add: measure_unat)
  then show ?thesis
    by (simp add: diff_diff_eq)
qed

text \<open>
  \<^verbatim>\<open>SimpleRangeIterator\<close>: \<^verbatim>\<open>next\<close> yields the current number and steps it until it equals the end.
\<close>

function vpn_range_from :: "VirtPageNum \<Rightarrow> VirtPageNum \<Rightarrow> VirtPageNum list" where
  "vpn_range_from current end =
     (if current = end then [] else current # vpn_range_from (vpn_step current) end)"
  by pat_completeness auto
termination
  by (relation "measure (\<lambda>(c, e). unat (vpn_0 e - vpn_0 c))")
    (auto simp: vpn_step_def intro!: word_minus_Suc_less dest: VirtPageNum.expand)

declare vpn_range_from.simps [simp del]

definition vpn_range_iter :: "VPNRange \<Rightarrow> VirtPageNum list" where
  "vpn_range_iter r = vpn_range_from (vr_l r) (vr_r r)"

section \<open>Arithmetic of addresses\<close>

named_theorems addr_nat

lemma and_push_bit_mask: "v AND (push_bit n 1 - 1) = take_bit n (v :: 'a::len word)"
  by (simp add: take_bit_eq_mask mask_eq_exp_minus_1 push_bit_of_1)

lemma unat_take_bit: "unat (take_bit n (v :: 'a::len word)) = unat v mod 2 ^ n"
  by (simp only: unsigned_take_bit_eq take_bit_nat_def)

lemma unat_PAGE_SIZE [simp]: "unat PAGE_SIZE = 4096"
  by (simp add: PAGE_SIZE_def)

lemma PAGE_SIZE_mask: "v AND (PAGE_SIZE - 1) = take_bit 12 v"
proof -
  have "PAGE_SIZE - 1 = push_bit 12 1 - 1"
    by (simp add: PAGE_SIZE_def push_bit_of_1)
  then show ?thesis
    by (simp only: and_push_bit_mask)
qed

lemma unat_PhysAddr_from [addr_nat]: "unat (pa_0 (PhysAddr_from v)) = unat v mod 2 ^ 56"
  unfolding PhysAddr_from_def and_push_bit_mask by (simp add: unat_take_bit width_defs)

lemma unat_PhysPageNum_from [addr_nat]: "unat (ppn_0 (PhysPageNum_from v)) = unat v mod 2 ^ 44"
  unfolding PhysPageNum_from_def and_push_bit_mask by (simp add: unat_take_bit width_defs)

lemma unat_VirtAddr_from [addr_nat]: "unat (va_0 (VirtAddr_from v)) = unat v mod 2 ^ 39"
  unfolding VirtAddr_from_def and_push_bit_mask by (simp add: unat_take_bit width_defs)

lemma unat_VirtPageNum_from [addr_nat]: "unat (vpn_0 (VirtPageNum_from v)) = unat v mod 2 ^ 27"
  unfolding VirtPageNum_from_def and_push_bit_mask by (simp add: unat_take_bit width_defs)

lemma unat_va_floor [addr_nat]: "unat (vpn_0 (va_floor va)) = unat (va_0 va) div 4096"
  by (simp add: va_floor_def unat_div)

lemma unat_pa_floor [addr_nat]: "unat (ppn_0 (pa_floor pa)) = unat (pa_0 pa) div 4096"
  by (simp add: pa_floor_def unat_div)

lemma unat_round_up:
  fixes v :: usize
  assumes "unat v < 2 ^ 64 - 4096"
  shows "unat ((v - 1 + PAGE_SIZE) div PAGE_SIZE) = (unat v + 4095) div 4096"
proof -
  have "v - 1 + PAGE_SIZE = v + 4095"
    by (simp add: PAGE_SIZE_def)
  moreover have "unat (v + 4095) = unat v + 4095"
    using assms by (subst unat_add_lem[THEN iffD1]) auto
  ultimately have "unat (v - 1 + PAGE_SIZE) = unat v + 4095"
    by (simp only:)
  then show ?thesis
    by (simp add: unat_div)
qed

lemma unat_va_ceil [addr_nat]:
  "unat (va_0 va) < 2 ^ 64 - 4096 \<Longrightarrow> unat (vpn_0 (va_ceil va)) = (unat (va_0 va) + 4095) div 4096"
  by (simp only: va_ceil_def VirtPageNum.sel unat_round_up)

lemma unat_pa_ceil [addr_nat]:
  "unat (pa_0 pa) < 2 ^ 64 - 4096 \<Longrightarrow> unat (ppn_0 (pa_ceil pa)) = (unat (pa_0 pa) + 4095) div 4096"
  by (simp only: pa_ceil_def PhysPageNum.sel unat_round_up)

lemma unat_va_page_offset [addr_nat]: "unat (va_page_offset va) = unat (va_0 va) mod 4096"
  by (simp add: va_page_offset_def PAGE_SIZE_mask unat_take_bit)

lemma unat_pa_page_offset [addr_nat]: "unat (pa_page_offset pa) = unat (pa_0 pa) mod 4096"
  by (simp add: pa_page_offset_def PAGE_SIZE_mask unat_take_bit)

lemma unat_push_bit_12:
  "unat (v :: usize) < 2 ^ 52 \<Longrightarrow> unat (push_bit 12 v) = unat v * 4096"
  by (simp add: push_bit_eq_mult unat_mult_lem[THEN iffD1])

lemma unat_PhysAddr_from_ppn [addr_nat]:
  "unat (ppn_0 ppn) < 2 ^ 52 \<Longrightarrow> unat (pa_0 (PhysAddr_from_ppn ppn)) = unat (ppn_0 ppn) * 4096"
  by (simp add: PhysAddr_from_ppn_def PAGE_SIZE_BITS_def unat_push_bit_12)

lemma unat_VirtAddr_from_vpn [addr_nat]:
  "unat (vpn_0 vpn) < 2 ^ 52 \<Longrightarrow> unat (va_0 (VirtAddr_from_vpn vpn)) = unat (vpn_0 vpn) * 4096"
  by (simp add: VirtAddr_from_vpn_def PAGE_SIZE_BITS_def unat_push_bit_12)

lemma va_aligned_iff: "va_aligned va \<longleftrightarrow> unat (va_0 va) mod 4096 = 0"
  by (metis unat_eq_zero unat_va_page_offset va_aligned_def)

lemma unat_va_from_less: "unat (va_0 (VirtAddr_from v)) < 2 ^ 39"
  by (simp add: addr_nat)

section \<open>Page-table indexes\<close>

lemma indexes_eq:
  "indexes vpn = [drop_bit 18 (vpn_0 vpn) AND 511, drop_bit 9 (vpn_0 vpn) AND 511, vpn_0 vpn AND 511]"
  by (simp add: indexes_def upt_rec numeral_3_eq_3)

lemma and_511: "(v :: usize) AND 511 = take_bit 9 v"
proof -
  have "(511 :: usize) = push_bit 9 1 - 1" by (simp add: push_bit_of_1)
  then show ?thesis by (simp only: and_push_bit_mask)
qed

lemma unat_drop_bit': "unat (drop_bit n (v :: usize)) = unat v div 2 ^ n"
  by (simp only: unat_drop_bit_eq drop_bit_nat_def)

lemma unat_indexes:
  "map unat (indexes vpn) =
     [unat (vpn_0 vpn) div 2 ^ 18 mod 512, unat (vpn_0 vpn) div 2 ^ 9 mod 512, unat (vpn_0 vpn) mod 512]"
  by (simp add: indexes_eq and_511 unat_take_bit unat_drop_bit')

lemma length_indexes [simp]: "length (indexes vpn) = 3"
  by (simp add: indexes_eq)

lemma indexes_less_512: "i \<in> set (indexes vpn) \<Longrightarrow> unat i < 512"
  by (auto simp: indexes_eq and_511 unat_take_bit)

section \<open>Ranges\<close>

lemma vpn_range_from_upt:
  assumes "unat (vpn_0 l) \<le> unat (vpn_0 r)"
  shows "map (\<lambda>v. unat (vpn_0 v)) (vpn_range_from l r) = [unat (vpn_0 l)..<unat (vpn_0 r)]"
  using assms
proof (induction l r rule: vpn_range_from.induct)
  case (1 l r)
  show ?case
  proof (cases "l = r")
    case True
    then show ?thesis by (simp add: vpn_range_from.simps)
  next
    case False
    then have lt: "unat (vpn_0 l) < unat (vpn_0 r)"
      using 1(2) by (metis le_neq_implies_less vpn_0_inj word_unat_eq_iff)
    then have step: "unat (vpn_0 (vpn_step l)) = Suc (unat (vpn_0 l))"
      using unsigned_less[of "vpn_0 r", where ?'a = nat] by (simp add: vpn_step_def unat_word_ariths)
    show ?thesis
      using 1(1)[OF False] lt False step by (subst vpn_range_from.simps) (simp add: upt_conv_Cons)
  qed
qed

lemma vpn_range_iter_upt:
  "unat (vpn_0 (vr_l r)) \<le> unat (vpn_0 (vr_r r)) \<Longrightarrow>
   map (\<lambda>v. unat (vpn_0 v)) (vpn_range_iter r) = [unat (vpn_0 (vr_l r))..<unat (vpn_0 (vr_r r))]"
  by (simp add: vpn_range_iter_def vpn_range_from_upt)

lemma set_vpn_range_iter:
  assumes "unat (vpn_0 (vr_l r)) \<le> unat (vpn_0 (vr_r r))"
  shows "v \<in> set (vpn_range_iter r) \<longleftrightarrow>
    unat (vpn_0 (vr_l r)) \<le> unat (vpn_0 v) \<and> unat (vpn_0 v) < unat (vpn_0 (vr_r r))"
proof -
  have "(\<lambda>v. unat (vpn_0 v)) ` set (vpn_range_iter r) = {unat (vpn_0 (vr_l r))..<unat (vpn_0 (vr_r r))}"
    using vpn_range_iter_upt[OF assms] by (metis set_map set_upt)
  moreover have "v \<in> S \<longleftrightarrow> unat (vpn_0 v) \<in> (\<lambda>v. unat (vpn_0 v)) ` S" for S
    by (metis (no_types, lifting) image_iff vpn_0_inj word_unat_eq_iff)
  ultimately show ?thesis by simp
qed

lemma distinct_vpn_range_iter:
  "unat (vpn_0 (vr_l r)) \<le> unat (vpn_0 (vr_r r)) \<Longrightarrow> distinct (vpn_range_iter r)"
  by (metis distinct_map distinct_upt vpn_range_iter_upt)

text \<open>
  C5: the page range built from the floor of a start address and the ceiling of an end address, as
  \<^verbatim>\<open>MapArea::new\<close> builds it, is accepted and its iterator yields, each once, exactly the pages that
  contain an address of the byte range.
\<close>

theorem range_covers_bytes:
  assumes "unat (va_0 sva) < unat (va_0 eva)" and "unat (va_0 eva) < 2 ^ 39"
  shows "\<exists>r. VPNRange_new (va_floor sva) (va_ceil eva) = Inr r \<and> distinct (vpn_range_iter r) \<and>
    (\<forall>v. v \<in> set (vpn_range_iter r) \<longleftrightarrow>
       (\<exists>x. unat (va_0 sva) \<le> x \<and> x < unat (va_0 eva) \<and> x div 4096 = unat (vpn_0 v)))"
proof -
  let ?r = "\<lparr>vr_l = va_floor sva, vr_r = va_ceil eva\<rparr>"
  have e: "unat (vpn_0 (va_ceil eva)) = (unat (va_0 eva) + 4095) div 4096"
    using assms by (intro unat_va_ceil) simp
  have le: "unat (vpn_0 (vr_l ?r)) \<le> unat (vpn_0 (vr_r ?r))"
    using assms by (simp add: e unat_va_floor)
  have "(\<exists>x. a \<le> x \<and> x < b \<and> x div 4096 = n) \<longleftrightarrow> a div 4096 \<le> n \<and> n < (b + 4095) div 4096"
    if "a < b" for a b n :: nat
  proof
    assume "a div 4096 \<le> n \<and> n < (b + 4095) div 4096"
    then show "\<exists>x. a \<le> x \<and> x < b \<and> x div 4096 = n"
      using that by (intro exI[of _ "max a (n * 4096)"]) (auto simp: max_def)
  qed (auto simp: div_le_mono)
  then show ?thesis
    using le assms distinct_vpn_range_iter[OF le] set_vpn_range_iter[OF le]
    by (intro exI[of _ ?r]) (simp add: VPNRange_new_def word_le_nat_alt e unat_va_floor)
qed

theorem range_covers_bytes_witness:
  "unat (va_0 (VirtAddr 0x1800)) < unat (va_0 (VirtAddr 0x3001)) \<and>
   unat (va_0 (VirtAddr 0x3001)) < 2 ^ 39 \<and>
   (\<exists>r. VPNRange_new (va_floor (VirtAddr 0x1800)) (va_ceil (VirtAddr 0x3001)) = Inr r \<and>
      distinct (vpn_range_iter r))"
  using range_covers_bytes[of "VirtAddr 0x1800" "VirtAddr 0x3001"] by auto

end
