(* ===== verification/Phys_Mem.thy ===== *)
theory Phys_Mem
  imports Address
begin

text \<open>
  Physical memory as an explicit store of bytes. The kernel maps all of physical memory
  identically, so \<^verbatim>\<open>PhysPageNum::get_bytes_array\<close>, \<^verbatim>\<open>get_pte_array\<close>, \<^verbatim>\<open>get_mut\<close> and
  \<^verbatim>\<open>PhysAddr::get_ref\<close>/\<^verbatim>\<open>get_mut\<close> (\<^verbatim>\<open>os/src/mm/address.rs\<close>) are views of this one store at the
  physical address; a page table entry, a trap context and the bytes of a user page alias
  exactly when their addresses overlap.
\<close>

type_synonym phys_mem = "nat \<Rightarrow> byte"

definition load_bytes :: "phys_mem \<Rightarrow> nat \<Rightarrow> nat \<Rightarrow> byte list" where
  "load_bytes m a n = map (\<lambda>i. m (a + i)) [0..<n]"

definition store_bytes :: "nat \<Rightarrow> byte list \<Rightarrow> phys_mem \<Rightarrow> phys_mem" where
  "store_bytes a bs m = (\<lambda>x. if a \<le> x \<and> x < a + length bs then bs ! (x - a) else m x)"

definition load64 :: "phys_mem \<Rightarrow> nat \<Rightarrow> u64" where
  "load64 m a = bytes_le_word (load_bytes m a 8)"

definition store64 :: "nat \<Rightarrow> u64 \<Rightarrow> phys_mem \<Rightarrow> phys_mem" where
  "store64 a v m = store_bytes a (word_le_bytes 8 v) m"

definition ppn_base :: "PhysPageNum \<Rightarrow> nat" where
  "ppn_base ppn = unat (pa_0 (PhysAddr_from_ppn ppn))"

text \<open>The address of \<^verbatim>\<open>ppn.get_pte_array()[idx]\<close>; \<^verbatim>\<open>idx\<close> is always below 512.\<close>

definition pte_addr :: "PhysPageNum \<Rightarrow> usize \<Rightarrow> nat" where
  "pte_addr ppn idx = ppn_base ppn + 8 * unat idx"

definition get_bytes_array :: "phys_mem \<Rightarrow> PhysPageNum \<Rightarrow> byte list" where
  "get_bytes_array m ppn = load_bytes m (ppn_base ppn) 4096"

definition page_addrs :: "PhysPageNum \<Rightarrow> nat set" where
  "page_addrs ppn = {ppn_base ppn ..< ppn_base ppn + 4096}"

section \<open>Loads and stores\<close>

lemma length_load_bytes [simp]: "length (load_bytes m a n) = n"
  by (simp add: load_bytes_def)

lemma nth_load_bytes [simp]: "i < n \<Longrightarrow> load_bytes m a n ! i = m (a + i)"
  by (simp add: load_bytes_def)

lemma load_store_bytes_same [simp]:
  "n = length bs \<Longrightarrow> load_bytes (store_bytes a bs m) a n = bs"
  by (intro nth_equalityI) (auto simp: store_bytes_def)

lemma store_bytes_outside: "x < a \<or> a + length bs \<le> x \<Longrightarrow> store_bytes a bs m x = m x"
  by (auto simp: store_bytes_def)

lemma load_bytes_cong: "(\<And>x. a \<le> x \<Longrightarrow> x < a + n \<Longrightarrow> m x = m' x) \<Longrightarrow> load_bytes m a n = load_bytes m' a n"
  by (intro nth_equalityI) auto

lemma load_store_bytes_other:
  "a + n \<le> b \<or> b + length bs \<le> a \<Longrightarrow> load_bytes (store_bytes b bs m) a n = load_bytes m a n"
  by (rule load_bytes_cong) (auto simp: store_bytes_def)

lemma store_load_bytes [simp]: "store_bytes a (load_bytes m a n) m = m"
  by (auto simp: store_bytes_def fun_eq_iff)

lemma load_store64_same [simp]: "load64 (store64 a v m) a = v"
  by (simp add: load64_def store64_def)

lemma load_store64_other: "a + 8 \<le> b \<or> b + 8 \<le> a \<Longrightarrow> load64 (store64 b v m) a = load64 m a"
  by (simp add: load64_def store64_def load_store_bytes_other)

lemma load64_cong: "(\<And>x. a \<le> x \<Longrightarrow> x < a + 8 \<Longrightarrow> m x = m' x) \<Longrightarrow> load64 m a = load64 m' a"
  unfolding load64_def by (rule arg_cong[where f = bytes_le_word]) (rule load_bytes_cong)

lemma load64_zero: "(\<And>x. a \<le> x \<Longrightarrow> x < a + 8 \<Longrightarrow> m x = 0) \<Longrightarrow> load64 m a = 0"
proof -
  assume "\<And>x. a \<le> x \<Longrightarrow> x < a + 8 \<Longrightarrow> m x = 0"
  then have "load_bytes m a 8 = replicate 8 0"
    by (intro nth_equalityI) auto
  then show ?thesis
    by (simp add: load64_def eval_nat_numeral)
qed

section \<open>Pages\<close>

text \<open>Page numbers that \<^verbatim>\<open>PhysPageNum::from\<close> produces: 44 bits.\<close>

definition ppn_ok :: "PhysPageNum \<Rightarrow> bool" where
  "ppn_ok ppn \<longleftrightarrow> unat (ppn_0 ppn) < 2 ^ 44"

lemma ppn_ok_from [simp]: "ppn_ok (PhysPageNum_from v)"
  by (simp add: ppn_ok_def addr_nat)

lemma PhysPageNum_from_id: "ppn_ok ppn \<Longrightarrow> PhysPageNum_from (ppn_0 ppn) = ppn"
proof -
  assume "ppn_ok ppn"
  then have "unat (ppn_0 (PhysPageNum_from (ppn_0 ppn))) = unat (ppn_0 ppn)"
    by (simp add: addr_nat ppn_ok_def)
  then show ?thesis
    by (intro PhysPageNum.expand) (simp add: word_unat_eq_iff)
qed

lemma ppn_base_eq: "ppn_ok ppn \<Longrightarrow> ppn_base ppn = unat (ppn_0 ppn) * 4096"
  by (simp add: ppn_base_def addr_nat ppn_ok_def)

lemma page_addrs_disjoint:
  assumes "ppn_ok p" and "ppn_ok q" and "p \<noteq> q"
  shows "page_addrs p \<inter> page_addrs q = {}"
proof -
  have "unat (ppn_0 p) \<noteq> unat (ppn_0 q)"
    using assms(3) by (auto simp: word_unat_eq_iff[symmetric] dest: PhysPageNum.expand)
  then have "unat (ppn_0 p) + 1 \<le> unat (ppn_0 q) \<or> unat (ppn_0 q) + 1 \<le> unat (ppn_0 p)"
    by linarith
  then show ?thesis
    using assms(1,2) by (auto simp: page_addrs_def ppn_base_eq)
qed

lemma pte_addr_in_page: "unat idx < 512 \<Longrightarrow> k < 8 \<Longrightarrow> pte_addr p idx + k \<in> page_addrs p"
  by (auto simp: pte_addr_def page_addrs_def)

lemma pte_addr_page_iff:
  assumes "ppn_ok p" "ppn_ok q" "unat i < 512" "unat j < 512"
  shows "pte_addr p i = pte_addr q j \<longleftrightarrow> p = q \<and> i = j"
proof
  assume eq: "pte_addr p i = pte_addr q j"
  have "p = q"
    using page_addrs_disjoint[OF assms(1,2)] pte_addr_in_page[OF assms(3), of 0 p]
      pte_addr_in_page[OF assms(4), of 0 q] eq by auto
  then show "p = q \<and> i = j"
    using eq by (auto simp: pte_addr_def word_unat_eq_iff)
qed simp

lemma pte_addr_disjoint:
  assumes "ppn_ok p" "ppn_ok q" "unat i < 512" "unat j < 512" and "p \<noteq> q \<or> i \<noteq> j"
  shows "pte_addr p i + 8 \<le> pte_addr q j \<or> pte_addr q j + 8 \<le> pte_addr p i"
proof (cases "p = q")
  case True
  then have "unat i \<noteq> unat j"
    using assms(5) by (simp add: word_unat_eq_iff)
  then show ?thesis
    using True by (auto simp: pte_addr_def)
next
  case False
  then have "unat (ppn_0 p) \<noteq> unat (ppn_0 q)"
    by (auto simp: word_unat_eq_iff[symmetric] dest: PhysPageNum.expand)
  then have "unat (ppn_0 p) + 1 \<le> unat (ppn_0 q) \<or> unat (ppn_0 q) + 1 \<le> unat (ppn_0 p)"
    by linarith
  then show ?thesis
    using assms(1-4) by (auto simp: pte_addr_def ppn_base_eq)
qed

lemma load64_pte_other:
  assumes "ppn_ok p" "ppn_ok q" "unat i < 512" "unat j < 512" and "p \<noteq> q \<or> i \<noteq> j"
  shows "load64 (store64 (pte_addr q j) v m) (pte_addr p i) = load64 m (pte_addr p i)"
  using pte_addr_disjoint[OF assms] by (rule load_store64_other)

end
