(* ===== verification/Frame_Allocator.thy ===== *)
theory Frame_Allocator
  imports Id_Alloc Phys_Mem
begin

unbundle bit_operations_syntax

text \<open>
  The physical frame allocator (\<^verbatim>\<open>os/src/mm/frame_allocator.rs\<close>) over physical memory. The
  record \<open>machine\<close> is the part of the kernel's global state that memory management touches:
  physical memory and the static \<^verbatim>\<open>FRAME_ALLOCATOR\<close>. A \<^verbatim>\<open>FrameTracker\<close> is its page number; the
  places where Rust drops one call \<open>frame_dealloc\<close> explicitly.
\<close>

section \<open>StackFrameAllocator\<close>

record StackFrameAllocator =
  fa_current :: usize
  fa_end :: usize
  fa_recycled :: "usize list"

definition StackFrameAllocator_new :: StackFrameAllocator where
  "StackFrameAllocator_new = \<lparr>fa_current = 0, fa_end = 0, fa_recycled = []\<rparr>"

definition StackFrameAllocator_init ::
    "PhysPageNum \<Rightarrow> PhysPageNum \<Rightarrow> StackFrameAllocator \<Rightarrow> StackFrameAllocator" where
  "StackFrameAllocator_init l r a = a\<lparr>fa_current := ppn_0 l, fa_end := ppn_0 r\<rparr>"

definition StackFrameAllocator_alloc ::
    "StackFrameAllocator \<Rightarrow> PhysPageNum option \<times> StackFrameAllocator" where
  "StackFrameAllocator_alloc a =
     (if fa_recycled a \<noteq> []
      then (Some (PhysPageNum_from (last (fa_recycled a))),
            a\<lparr>fa_recycled := butlast (fa_recycled a)\<rparr>)
      else if fa_current a = fa_end a then (None, a)
      else (Some (PhysPageNum_from (fa_current a + 1 - 1)), a\<lparr>fa_current := fa_current a + 1\<rparr>))"

definition StackFrameAllocator_dealloc ::
    "PhysPageNum \<Rightarrow> StackFrameAllocator \<Rightarrow> panic + StackFrameAllocator" where
  "StackFrameAllocator_dealloc ppn a =
     (if ppn_0 ppn \<ge> fa_current a \<or> ppn_0 ppn \<in> set (fa_recycled a) then Inl ExplicitPanic
      else Inr (a\<lparr>fa_recycled := fa_recycled a @ [ppn_0 ppn]\<rparr>))"

section \<open>The global allocator and memory\<close>

record machine =
  mem :: phys_mem
  FRAME_ALLOCATOR :: StackFrameAllocator

text \<open>\<^verbatim>\<open>FrameTracker::new\<close> clears the page.\<close>

definition FrameTracker_new :: "PhysPageNum \<Rightarrow> ('z machine_scheme, PhysPageNum) prog" where
  "FrameTracker_new ppn =
     andthen (modifies (\<lambda>s. s\<lparr>mem := store_bytes (ppn_base ppn) (replicate 4096 0) (mem s)\<rparr>))
       (\<lambda>_. ret ppn)"

definition frame_alloc :: "('z machine_scheme, PhysPageNum option) prog" where
  "frame_alloc =
     andthen (gets (\<lambda>s. StackFrameAllocator_alloc (FRAME_ALLOCATOR s))) (\<lambda>(r, a).
     andthen (modifies (\<lambda>s. s\<lparr>FRAME_ALLOCATOR := a\<rparr>)) (\<lambda>_.
     case r of None \<Rightarrow> ret None
     | Some ppn \<Rightarrow> andthen (FrameTracker_new ppn) (\<lambda>f. ret (Some f))))"

definition frame_dealloc :: "PhysPageNum \<Rightarrow> ('z machine_scheme, unit) prog" where
  "frame_dealloc ppn =
     andthen (gets (\<lambda>s. StackFrameAllocator_dealloc ppn (FRAME_ALLOCATOR s))) (\<lambda>r.
     andthen (lift_res r) (\<lambda>a. modifies (\<lambda>s. s\<lparr>FRAME_ALLOCATOR := a\<rparr>)))"

text \<open>\<^verbatim>\<open>ekernel\<close> is the linker symbol for the end of the kernel image.\<close>

definition init_frame_allocator :: "usize \<Rightarrow> ('z machine_scheme, unit) prog" where
  "init_frame_allocator ekernel =
     modifies (\<lambda>s. s\<lparr>FRAME_ALLOCATOR :=
       StackFrameAllocator_init (pa_ceil (PhysAddr_from ekernel)) (pa_floor (PhysAddr_from MEMORY_END))
         (FRAME_ALLOCATOR s)\<rparr>)"

section \<open>The allocator keeps the contract\<close>

definition fa_inv :: "StackFrameAllocator \<Rightarrow> bool" where
  "fa_inv a \<longleftrightarrow> distinct (fa_recycled a) \<and> (\<forall>p\<in>set (fa_recycled a). p < fa_current a) \<and>
     fa_current a \<le> fa_end a \<and> unat (fa_end a) < 2 ^ 44"

definition fa_used :: "StackFrameAllocator \<Rightarrow> PhysPageNum set" where
  "fa_used a = {ppn. ppn_0 ppn < fa_current a \<and> ppn_0 ppn \<notin> set (fa_recycled a)}"

lemmas fa_defs = StackFrameAllocator_alloc_def StackFrameAllocator_dealloc_def fa_inv_def fa_used_def

lemma fa_used_ok: "fa_inv a \<Longrightarrow> ppn \<in> fa_used a \<Longrightarrow> ppn_ok ppn"
  by (auto simp: fa_defs ppn_ok_def word_less_nat_alt word_le_nat_alt)

lemma PhysPageNum_from_less: "unat v < 2 ^ 44 \<Longrightarrow> PhysPageNum_from v = PhysPageNum v"
  using PhysPageNum_from_id[of "PhysPageNum v"] by (simp add: ppn_ok_def)

lemma word_less_Suc_cases:
  fixes a b e :: "'a::len word"
  assumes "b < e"
  shows "a < b + 1 \<longleftrightarrow> a < b \<or> a = b"
proof -
  have "unat b + 1 < 2 ^ LENGTH('a)"
    using assms unsigned_less[of e, where ?'a = nat] unfolding word_less_nat_alt by linarith
  then have "unat (b + 1) = unat b + 1"
    by (simp add: unat_word_ariths)
  then show ?thesis
    by (auto simp: word_less_nat_alt word_unat_eq_iff)
qed

lemma StackFrameAllocator_alloc_used:
  assumes inv: "fa_inv a" and alloc: "StackFrameAllocator_alloc a = (Some ppn, a')"
  shows "ppn \<notin> fa_used a \<and> fa_used a' = insert ppn (fa_used a) \<and> fa_inv a'"
proof (cases "fa_recycled a = []")
  case True
  then have lt: "fa_current a < fa_end a"
    using inv alloc by (auto simp: fa_defs split: if_splits)
  then have "unat (fa_current a) < 2 ^ 44"
    using inv by (simp add: fa_inv_def word_less_nat_alt)
  then have ppn: "ppn = PhysPageNum (fa_current a)" and a': "a' = a\<lparr>fa_current := fa_current a + 1\<rparr>"
    using alloc True lt by (auto simp: StackFrameAllocator_alloc_def PhysPageNum_from_less split: if_splits)
  have "fa_current a + 1 \<le> fa_end a"
    using lt by (simp add: inc_le)
  then have "fa_inv a'"
    using inv True by (simp add: a' fa_inv_def)
  moreover have "fa_used a' = insert ppn (fa_used a)"
    by (rule set_eqI) (simp add: fa_used_def a' ppn True ppn_eq_iff word_less_Suc_cases[OF lt] disj_commute)
  moreover have "ppn \<notin> fa_used a"
    by (simp add: fa_used_def ppn)
  ultimately show ?thesis by blast
next
  case False
  let ?p = "last (fa_recycled a)"
  have p: "?p \<in> set (fa_recycled a)"
    using False by simp
  then have "?p < fa_current a" "unat ?p < 2 ^ 44"
    using inv by (auto simp: fa_inv_def word_less_nat_alt word_le_nat_alt dest!: bspec[of _ _ ?p])
  then have ppn: "ppn = PhysPageNum ?p" and a': "a' = a\<lparr>fa_recycled := butlast (fa_recycled a)\<rparr>"
    using alloc False by (auto simp: StackFrameAllocator_alloc_def PhysPageNum_from_less split: if_splits)
  show ?thesis
    using inv False p \<open>?p < fa_current a\<close>
    by (auto simp: ppn a' fa_inv_def fa_used_def set_butlast_distinct distinct_butlast ppn_eq_iff)
qed

lemma StackFrameAllocator_alloc_None: "StackFrameAllocator_alloc a = (None, a') \<Longrightarrow> a' = a"
  by (simp add: StackFrameAllocator_alloc_def split: if_splits)

lemma StackFrameAllocator_dealloc_used:
  assumes "fa_inv a" and "ppn \<in> fa_used a"
  shows "\<exists>a'. StackFrameAllocator_dealloc ppn a = Inr a' \<and> fa_used a' = fa_used a - {ppn} \<and> fa_inv a'"
proof -
  let ?a' = "a\<lparr>fa_recycled := fa_recycled a @ [ppn_0 ppn]\<rparr>"
  have "StackFrameAllocator_dealloc ppn a = Inr ?a'"
    using assms(2) by (simp add: StackFrameAllocator_dealloc_def fa_used_def not_le)
  moreover have "fa_used ?a' = fa_used a - {ppn}"
    by (rule set_eqI) (simp add: fa_used_def conj_ac)
  moreover have "fa_inv ?a'"
    using assms by (simp add: fa_inv_def fa_used_def)
  ultimately show ?thesis by blast
qed

lemma StackFrameAllocator_dealloc_unused:
  "ppn \<notin> fa_used a \<Longrightarrow> StackFrameAllocator_dealloc ppn a = Inl ExplicitPanic"
  by (simp add: StackFrameAllocator_dealloc_def fa_used_def not_less)

interpretation frames: id_allocator
  StackFrameAllocator_alloc StackFrameAllocator_dealloc fa_inv fa_used "\<lambda>_. False"
  using StackFrameAllocator_alloc_used StackFrameAllocator_alloc_None
    StackFrameAllocator_dealloc_used StackFrameAllocator_dealloc_unused
  by unfold_locales blast+

section \<open>frame\_alloc and frame\_dealloc\<close>

definition fa_full :: "StackFrameAllocator \<Rightarrow> bool" where
  "fa_full a \<longleftrightarrow> fa_recycled a = [] \<and> fa_current a = fa_end a"

text \<open>The number of frames that can still be handed out.\<close>

definition fa_avail :: "StackFrameAllocator \<Rightarrow> nat" where
  "fa_avail a = length (fa_recycled a) + (unat (fa_end a) - unat (fa_current a))"

lemma fa_full_avail: "fa_inv a \<Longrightarrow> fa_full a \<longleftrightarrow> fa_avail a = 0"
  by (cases "fa_recycled a") (auto simp: fa_full_def fa_avail_def fa_inv_def word_le_nat_alt word_unat_eq_iff)

lemma StackFrameAllocator_alloc_avail:
  assumes "fa_inv a" and "StackFrameAllocator_alloc a = (Some ppn, a')"
  shows "fa_avail a = Suc (fa_avail a')"
proof (cases "fa_recycled a = []")
  case True
  then have a': "a' = a\<lparr>fa_current := fa_current a + 1\<rparr>" and ne: "fa_current a \<noteq> fa_end a"
    using assms(2) by (auto simp: StackFrameAllocator_alloc_def split: if_splits)
  have lt: "unat (fa_current a) < unat (fa_end a)"
    using assms(1) ne by (simp add: fa_inv_def word_le_nat_alt word_unat_eq_iff)
  then have "unat (fa_current a + 1) = unat (fa_current a) + 1"
    using unsigned_less[of "fa_end a", where ?'a = nat] by (simp add: unat_word_ariths)
  then show ?thesis
    using True lt by (simp add: fa_avail_def a')
next
  case False
  then show ?thesis
    using assms(2) by (auto simp: StackFrameAllocator_alloc_def fa_avail_def)
qed

definition zero_page :: "PhysPageNum \<Rightarrow> phys_mem \<Rightarrow> phys_mem" where
  "zero_page ppn m = store_bytes (ppn_base ppn) (replicate 4096 0) m"

lemma zero_page_apply: "zero_page ppn m x = (if x \<in> page_addrs ppn then 0 else m x)"
  by (auto simp: zero_page_def store_bytes_def page_addrs_def)

lemma StackFrameAllocator_alloc_full:
  "fa_full a \<Longrightarrow> StackFrameAllocator_alloc a = (None, a)"
  by (simp add: fa_full_def StackFrameAllocator_alloc_def)

lemma StackFrameAllocator_alloc_not_full:
  assumes "fa_inv a" and "\<not> fa_full a"
  obtains ppn a' where "StackFrameAllocator_alloc a = (Some ppn, a')" and "ppn \<notin> fa_used a"
    and "fa_used a' = insert ppn (fa_used a)" and "fa_inv a'" and "ppn_ok ppn" and "fa_avail a = Suc (fa_avail a')"
proof -
  obtain ppn a' where a': "StackFrameAllocator_alloc a = (Some ppn, a')"
    using assms(2) by (cases "fa_recycled a = []")
      (simp_all add: fa_full_def StackFrameAllocator_alloc_def)
  from StackFrameAllocator_alloc_used[OF assms(1) a'] have
    "ppn \<notin> fa_used a" "fa_used a' = insert ppn (fa_used a)" "fa_inv a'" by blast+
  moreover have "ppn_ok ppn"
    using fa_used_ok[of a' ppn] calculation by auto
  ultimately show thesis
    using that a' StackFrameAllocator_alloc_avail[OF assms(1) a'] by blast
qed

lemma frame_alloc_full: "fa_full (FRAME_ALLOCATOR s) \<Longrightarrow> frame_alloc s = Inr (None, s)"
  by (simp add: frame_alloc_def prog_defs StackFrameAllocator_alloc_full)

lemma frame_alloc_eq:
  "StackFrameAllocator_alloc (FRAME_ALLOCATOR s) = (Some ppn, a') \<Longrightarrow>
   frame_alloc s = Inr (Some ppn, s\<lparr>mem := zero_page ppn (mem s), FRAME_ALLOCATOR := a'\<rparr>)"
  by (simp add: frame_alloc_def FrameTracker_new_def prog_defs zero_page_def)

lemma wp_frame_alloc:
  assumes "fa_inv (FRAME_ALLOCATOR s)"
    and "fa_full (FRAME_ALLOCATOR s) \<Longrightarrow> Q None s"
    and "\<And>ppn a'. \<not> fa_full (FRAME_ALLOCATOR s) \<Longrightarrow> ppn \<notin> fa_used (FRAME_ALLOCATOR s) \<Longrightarrow>
       fa_used a' = insert ppn (fa_used (FRAME_ALLOCATOR s)) \<Longrightarrow> fa_inv a' \<Longrightarrow> ppn_ok ppn \<Longrightarrow>
       fa_avail (FRAME_ALLOCATOR s) = Suc (fa_avail a') \<Longrightarrow>
       Q (Some ppn) (s\<lparr>mem := zero_page ppn (mem s), FRAME_ALLOCATOR := a'\<rparr>)"
  shows "wp frame_alloc Q s"
proof (cases "fa_full (FRAME_ALLOCATOR s)")
  case True
  then show ?thesis
    using assms(2) by (simp add: wp_def frame_alloc_full)
next
  case False
  obtain ppn a' where a': "StackFrameAllocator_alloc (FRAME_ALLOCATOR s) = (Some ppn, a')"
    "ppn \<notin> fa_used (FRAME_ALLOCATOR s)" "fa_used a' = insert ppn (fa_used (FRAME_ALLOCATOR s))"
    "fa_inv a'" "ppn_ok ppn" "fa_avail (FRAME_ALLOCATOR s) = Suc (fa_avail a')"
    using StackFrameAllocator_alloc_not_full[OF assms(1) False] .
  show ?thesis
    unfolding wp_def frame_alloc_eq[OF a'(1)] using assms(3)[OF False a'(2-6)] by simp
qed

lemma wp_frame_dealloc:
  assumes "fa_inv (FRAME_ALLOCATOR s)" and "ppn \<in> fa_used (FRAME_ALLOCATOR s)"
    and "\<And>a'. fa_inv a' \<Longrightarrow> fa_used a' = fa_used (FRAME_ALLOCATOR s) - {ppn} \<Longrightarrow>
       Q () (s\<lparr>FRAME_ALLOCATOR := a'\<rparr>)"
  shows "wp (frame_dealloc ppn) Q s"
  using frames.dealloc_used[OF assms(1,2)] assms(3) by (auto simp: frame_dealloc_def)

text \<open>
  C3: \<^verbatim>\<open>frame_alloc\<close> never panics; it fails only when no frame is left, and otherwise hands out
  a frame nobody holds, filled with zeros, without touching any other page or dropping any other
  frame from the set in use.
\<close>

theorem frame_alloc_exclusive_zeroed:
  assumes "fa_inv (FRAME_ALLOCATOR s)"
  shows "\<exists>r s'. frame_alloc s = Inr (r, s') \<and> fa_inv (FRAME_ALLOCATOR s') \<and>
    (r = None \<longleftrightarrow> fa_full (FRAME_ALLOCATOR s)) \<and>
    (\<forall>ppn. r = Some ppn \<longrightarrow>
       ppn \<notin> fa_used (FRAME_ALLOCATOR s) \<and>
       fa_used (FRAME_ALLOCATOR s') = insert ppn (fa_used (FRAME_ALLOCATOR s)) \<and>
       get_bytes_array (mem s') ppn = replicate 4096 0 \<and>
       (\<forall>q\<in>fa_used (FRAME_ALLOCATOR s). get_bytes_array (mem s') q = get_bytes_array (mem s) q))"
proof -
  have other: "get_bytes_array (zero_page p (mem s)) q = get_bytes_array (mem s) q"
    if "ppn_ok p" "p \<notin> fa_used (FRAME_ALLOCATOR s)" "q \<in> fa_used (FRAME_ALLOCATOR s)" for p q
  proof -
    have "p \<noteq> q" using that by blast
    then have "page_addrs p \<inter> page_addrs q = {}"
      using that fa_used_ok[OF assms, of q] by (simp add: page_addrs_disjoint)
    then show ?thesis
      unfolding get_bytes_array_def
      by (intro load_bytes_cong) (auto simp: zero_page_apply page_addrs_def)
  qed
  have "wp frame_alloc (\<lambda>r s'. fa_inv (FRAME_ALLOCATOR s') \<and>
    (r = None \<longleftrightarrow> fa_full (FRAME_ALLOCATOR s)) \<and>
    (\<forall>ppn. r = Some ppn \<longrightarrow>
       ppn \<notin> fa_used (FRAME_ALLOCATOR s) \<and>
       fa_used (FRAME_ALLOCATOR s') = insert ppn (fa_used (FRAME_ALLOCATOR s)) \<and>
       get_bytes_array (mem s') ppn = replicate 4096 0 \<and>
       (\<forall>q\<in>fa_used (FRAME_ALLOCATOR s). get_bytes_array (mem s') q = get_bytes_array (mem s) q))) s"
    using assms other by (intro wp_frame_alloc) (auto simp: get_bytes_array_def zero_page_def)
  then show ?thesis
    by (simp add: wp_runs)
qed

theorem frame_alloc_exclusive_zeroed_witness:
  "fa_inv \<lparr>fa_current = 0x80401, fa_end = 0x80800, fa_recycled = [0x80400]\<rparr> \<and>
   (\<exists>r s'. frame_alloc \<lparr>mem = (\<lambda>_. 1),
        FRAME_ALLOCATOR = \<lparr>fa_current = 0x80401, fa_end = 0x80800, fa_recycled = [0x80400]\<rparr>\<rparr> = Inr (Some r, s') \<and>
      get_bytes_array (mem s') r = replicate 4096 0)"
proof -
  let ?a = "\<lparr>fa_current = 0x80401, fa_end = 0x80800, fa_recycled = [0x80400]\<rparr>"
  have inv: "fa_inv ?a" "\<not> fa_full ?a"
    by (simp_all add: fa_inv_def fa_full_def)
  then show ?thesis
    using frame_alloc_exclusive_zeroed[of "\<lparr>mem = (\<lambda>_. 1), FRAME_ALLOCATOR = ?a\<rparr>"] by auto
qed

end
