(* ===== verification/Page_Table.thy ===== *)
theory Page_Table
  imports Frame_Allocator
begin

unbundle bit_operations_syntax

text \<open>
  Three-level Sv39 page tables in physical memory (\<^verbatim>\<open>os/src/mm/page_table.rs\<close>). A page table
  entry pointer \<^verbatim>\<open>&mut PageTableEntry\<close> is its byte address; \<^verbatim>\<open>PageTable.frames\<close> owns the frames
  of the tables.
\<close>

section \<open>Page table entries\<close>

definition PTE_V :: u8 where "PTE_V = 1"
definition PTE_R :: u8 where "PTE_R = 2"
definition PTE_W :: u8 where "PTE_W = 4"
definition PTE_X :: u8 where "PTE_X = 8"
definition PTE_U :: u8 where "PTE_U = 16"

datatype PageTableEntry = PTE (pte_bits: usize)

definition pte_new :: "PhysPageNum \<Rightarrow> u8 \<Rightarrow> PageTableEntry" where
  "pte_new ppn flags = PTE (push_bit 10 (ppn_0 ppn) OR ucast flags)"

definition pte_empty :: PageTableEntry where
  "pte_empty = PTE 0"

definition pte_ppn :: "PageTableEntry \<Rightarrow> PhysPageNum" where
  "pte_ppn pte = PhysPageNum_from (drop_bit 10 (pte_bits pte) AND (push_bit 44 1 - 1))"

text \<open>
  \<^verbatim>\<open>PTEFlags::from_bits(self.bits as u8).unwrap()\<close>: every one of the eight bits is a flag of
  \<^verbatim>\<open>PTEFlags\<close>, so \<^verbatim>\<open>from_bits\<close> never returns \<^verbatim>\<open>None\<close>.
\<close>

definition pte_flags :: "PageTableEntry \<Rightarrow> u8" where
  "pte_flags pte = ucast (pte_bits pte)"

definition pte_is_valid :: "PageTableEntry \<Rightarrow> bool" where
  "pte_is_valid pte \<longleftrightarrow> pte_flags pte AND PTE_V \<noteq> 0"

definition pte_readable :: "PageTableEntry \<Rightarrow> bool" where
  "pte_readable pte \<longleftrightarrow> pte_flags pte AND PTE_R \<noteq> 0"

definition pte_writable :: "PageTableEntry \<Rightarrow> bool" where
  "pte_writable pte \<longleftrightarrow> pte_flags pte AND PTE_W \<noteq> 0"

definition pte_executable :: "PageTableEntry \<Rightarrow> bool" where
  "pte_executable pte \<longleftrightarrow> pte_flags pte AND PTE_X \<noteq> 0"

definition load_pte :: "phys_mem \<Rightarrow> nat \<Rightarrow> PageTableEntry" where
  "load_pte m a = PTE (load64 m a)"

definition store_pte :: "nat \<Rightarrow> PageTableEntry \<Rightarrow> phys_mem \<Rightarrow> phys_mem" where
  "store_pte a pte m = store64 a (pte_bits pte) m"

section \<open>Page tables\<close>

record PageTable =
  root_ppn :: PhysPageNum
  pt_frames :: "PhysPageNum list"

definition PageTable_new :: "('z machine_scheme, PageTable) prog" where
  "PageTable_new =
     andthen frame_alloc (\<lambda>r. andthen (unwrap r) (\<lambda>frame.
       ret \<lparr>root_ppn = frame, pt_frames = [frame]\<rparr>))"

definition PageTable_from_token :: "usize \<Rightarrow> PageTable" where
  "PageTable_from_token satp =
     \<lparr>root_ppn = PhysPageNum_from (satp AND (push_bit 44 1 - 1)), pt_frames = []\<rparr>"

text \<open>The loops run over \<^verbatim>\<open>idxs.iter().enumerate()\<close>; \<open>i\<close> is the level.\<close>

fun find_pte_create_loop ::
    "nat \<Rightarrow> usize list \<Rightarrow> PhysPageNum \<Rightarrow> PageTable \<Rightarrow> ('z machine_scheme, nat option \<times> PageTable) prog" where
  "find_pte_create_loop i [] ppn pt = ret (None, pt)"
| "find_pte_create_loop i (idx # idxs) ppn pt =
     (if i = 2 then ret (Some (pte_addr ppn idx), pt)
      else
        andthen (gets (\<lambda>s. load_pte (mem s) (pte_addr ppn idx))) (\<lambda>pte.
        andthen
          (if \<not> pte_is_valid pte then
             andthen frame_alloc (\<lambda>r. andthen (unwrap r) (\<lambda>frame.
             andthen (modifies (\<lambda>s. s\<lparr>mem := store_pte (pte_addr ppn idx) (pte_new frame PTE_V) (mem s)\<rparr>)) (\<lambda>_.
             ret (pt\<lparr>pt_frames := pt_frames pt @ [frame]\<rparr>))))
           else ret pt) (\<lambda>pt'.
        andthen (gets (\<lambda>s. pte_ppn (load_pte (mem s) (pte_addr ppn idx)))) (\<lambda>ppn'.
        find_pte_create_loop (i + 1) idxs ppn' pt'))))"

definition find_pte_create ::
    "PageTable \<Rightarrow> VirtPageNum \<Rightarrow> ('z machine_scheme, nat option \<times> PageTable) prog" where
  "find_pte_create pt vpn = find_pte_create_loop 0 (indexes vpn) (root_ppn pt) pt"

fun find_pte_loop :: "phys_mem \<Rightarrow> nat \<Rightarrow> usize list \<Rightarrow> PhysPageNum \<Rightarrow> nat option" where
  "find_pte_loop m i [] ppn = None"
| "find_pte_loop m i (idx # idxs) ppn =
     (if i = 2 then Some (pte_addr ppn idx)
      else if \<not> pte_is_valid (load_pte m (pte_addr ppn idx)) then None
      else find_pte_loop m (i + 1) idxs (pte_ppn (load_pte m (pte_addr ppn idx))))"

definition find_pte :: "phys_mem \<Rightarrow> PageTable \<Rightarrow> VirtPageNum \<Rightarrow> nat option" where
  "find_pte m pt vpn = find_pte_loop m 0 (indexes vpn) (root_ppn pt)"

definition PageTable_map ::
    "PageTable \<Rightarrow> VirtPageNum \<Rightarrow> PhysPageNum \<Rightarrow> u8 \<Rightarrow> ('z machine_scheme, PageTable) prog" where
  "PageTable_map pt vpn ppn flags =
     andthen (find_pte_create pt vpn) (\<lambda>(r, pt').
     andthen (unwrap r) (\<lambda>a.
     andthen (gets (\<lambda>s. load_pte (mem s) a)) (\<lambda>pte.
     andthen (assert_that (\<not> pte_is_valid pte)) (\<lambda>_.
     andthen (modifies (\<lambda>s. s\<lparr>mem := store_pte a (pte_new ppn (flags OR PTE_V)) (mem s)\<rparr>)) (\<lambda>_.
     ret pt')))))"

definition PageTable_unmap :: "PageTable \<Rightarrow> VirtPageNum \<Rightarrow> ('z machine_scheme, unit) prog" where
  "PageTable_unmap pt vpn =
     andthen (gets (\<lambda>s. find_pte (mem s) pt vpn)) (\<lambda>r.
     andthen (unwrap r) (\<lambda>a.
     andthen (gets (\<lambda>s. load_pte (mem s) a)) (\<lambda>pte.
     andthen (assert_that (pte_is_valid pte)) (\<lambda>_.
     modifies (\<lambda>s. s\<lparr>mem := store_pte a pte_empty (mem s)\<rparr>)))))"

definition PageTable_translate :: "phys_mem \<Rightarrow> PageTable \<Rightarrow> VirtPageNum \<Rightarrow> PageTableEntry option" where
  "PageTable_translate m pt vpn = map_option (load_pte m) (find_pte m pt vpn)"

definition PageTable_translate_va :: "phys_mem \<Rightarrow> PageTable \<Rightarrow> VirtAddr \<Rightarrow> PhysAddr option" where
  "PageTable_translate_va m pt va =
     map_option (\<lambda>a. PhysAddr_from (pa_0 (PhysAddr_from_ppn (pte_ppn (load_pte m a))) + va_page_offset va))
       (find_pte m pt (va_floor va))"

definition PageTable_token :: "PageTable \<Rightarrow> usize" where
  "PageTable_token pt = push_bit 60 8 OR ppn_0 (root_ppn pt)"

section \<open>Entries: encoding and decoding\<close>

lemma PhysPageNum_from_take: "PhysPageNum_from v = PhysPageNum (take_bit 44 v)"
  unfolding PhysPageNum_from_def and_push_bit_mask by (simp add: width_defs)

lemma ppn_ok_take: "ppn_ok p \<longleftrightarrow> take_bit 44 (ppn_0 p) = ppn_0 p"
  by (simp add: ppn_ok_def word_unat_eq_iff unat_take_bit mod_eq_self_iff_div_eq_0 div_eq_0_iff)

lemma pte_ppn_new [simp]: "ppn_ok p \<Longrightarrow> pte_ppn (pte_new p fl) = p"
proof -
  assume ok: "ppn_ok p"
  have "take_bit 44 (drop_bit 10 (push_bit 10 (ppn_0 p) OR ucast fl)) = take_bit 44 (ppn_0 p)"
    by (rule bit_word_eqI) (auto simp: bit_simps dest: bit_imp_le_length)
  moreover have "pte_ppn (pte_new p fl) =
      PhysPageNum (take_bit 44 (take_bit 44 (drop_bit 10 (push_bit 10 (ppn_0 p) OR ucast fl))))"
    by (simp only: pte_ppn_def pte_new_def PageTableEntry.sel and_push_bit_mask PhysPageNum_from_take)
  ultimately show ?thesis
    using ok by (simp add: ppn_ok_take)
qed

lemma pte_flags_new [simp]: "pte_flags (pte_new p fl) = fl"
  unfolding pte_flags_def pte_new_def PageTableEntry.sel
  by (rule bit_word_eqI) (auto simp: bit_simps)

lemma pte_valid_V [simp]: "pte_is_valid (pte_new p (fl OR PTE_V))" and
  pte_valid_only_V [simp]: "pte_is_valid (pte_new p PTE_V)"
proof -
  have "(fl OR PTE_V) AND PTE_V = PTE_V"
    by (rule bit_word_eqI) (auto simp: bit_simps)
  then show "pte_is_valid (pte_new p (fl OR PTE_V))"
    by (simp add: pte_is_valid_def PTE_V_def)
  show "pte_is_valid (pte_new p PTE_V)"
    by (simp add: pte_is_valid_def PTE_V_def)
qed

lemma pte_empty_invalid [simp]: "\<not> pte_is_valid (PTE 0)" "\<not> pte_is_valid pte_empty"
  by (simp_all add: pte_is_valid_def pte_flags_def pte_empty_def)

lemma ppn_ok_pte_ppn [simp]: "ppn_ok (pte_ppn pte)"
  by (simp add: pte_ppn_def)

lemma load_store_pte_same [simp]: "load_pte (store_pte a pte m) a = pte"
  by (simp add: load_pte_def store_pte_def)

end
