(* ===== verification/Page_Table_Inv.thy ===== *)
theory Page_Table_Inv
  imports Page_Table
begin

unbundle bit_operations_syntax

text \<open>
  Correctness of the page-table operations. The tables of an address space form a tree of
  frames: \<open>table_tree\<close> assigns each frame its level and says that a valid entry of a directory
  leads to a table of the next level, which no other entry leads to. \<open>entry\<close> is what the tree
  means, a total map from index paths to entries. Creating intermediate tables leaves it
  unchanged, \<^verbatim>\<open>map\<close> and \<^verbatim>\<open>unmap\<close> update it at exactly one path.
\<close>

section \<open>Trees of tables\<close>

abbreviation valid_at :: "phys_mem \<Rightarrow> PhysPageNum \<Rightarrow> usize \<Rightarrow> bool" where
  "valid_at m p i \<equiv> pte_is_valid (load_pte m (pte_addr p i))"

abbreviation child :: "phys_mem \<Rightarrow> PhysPageNum \<Rightarrow> usize \<Rightarrow> PhysPageNum" where
  "child m p i \<equiv> pte_ppn (load_pte m (pte_addr p i))"

definition table_tree :: "phys_mem \<Rightarrow> PhysPageNum set \<Rightarrow> (PhysPageNum \<Rightarrow> nat) \<Rightarrow> bool" where
  "table_tree m F lv \<longleftrightarrow>
     (\<forall>p\<in>F. ppn_ok p) \<and>
     (\<forall>p\<in>F. \<forall>i. unat i < 512 \<longrightarrow> lv p < 2 \<longrightarrow> valid_at m p i \<longrightarrow>
        child m p i \<in> F \<and> lv (child m p i) = Suc (lv p)) \<and>
     (\<forall>p\<in>F. \<forall>q\<in>F. \<forall>i j. unat i < 512 \<longrightarrow> unat j < 512 \<longrightarrow> lv p < 2 \<longrightarrow> lv q < 2 \<longrightarrow>
        valid_at m p i \<longrightarrow> valid_at m q j \<longrightarrow> child m p i = child m q j \<longrightarrow> p = q \<and> i = j)"

text \<open>A path is a list of table indexes.\<close>

definition path_ok :: "usize list \<Rightarrow> bool" where
  "path_ok is \<longleftrightarrow> (\<forall>i\<in>set is. unat i < 512)"

fun walk :: "phys_mem \<Rightarrow> usize list \<Rightarrow> PhysPageNum \<Rightarrow> nat option" where
  "walk m [] p = None"
| "walk m [i] p = Some (pte_addr p i)"
| "walk m (i # j # is) p = (if valid_at m p i then walk m (j # is) (child m p i) else None)"

definition entry :: "phys_mem \<Rightarrow> usize list \<Rightarrow> PhysPageNum \<Rightarrow> PageTableEntry" where
  "entry m is p = (case walk m is p of None \<Rightarrow> pte_empty | Some a \<Rightarrow> load_pte m a)"

lemma table_treeD:
  assumes "table_tree m F lv"
  shows "p \<in> F \<Longrightarrow> ppn_ok p"
    and "p \<in> F \<Longrightarrow> unat i < 512 \<Longrightarrow> lv p < 2 \<Longrightarrow> valid_at m p i \<Longrightarrow> child m p i \<in> F"
    and "p \<in> F \<Longrightarrow> unat i < 512 \<Longrightarrow> lv p < 2 \<Longrightarrow> valid_at m p i \<Longrightarrow> lv (child m p i) = Suc (lv p)"
    and "p \<in> F \<Longrightarrow> q \<in> F \<Longrightarrow> unat i < 512 \<Longrightarrow> unat j < 512 \<Longrightarrow> lv p < 2 \<Longrightarrow> lv q < 2 \<Longrightarrow>
      valid_at m p i \<Longrightarrow> valid_at m q j \<Longrightarrow> child m p i = child m q j \<Longrightarrow> p = q \<and> i = j"
  using assms unfolding table_tree_def by blast+

lemma path_ok_simps [simp]:
  "path_ok []" "path_ok (i # is) \<longleftrightarrow> unat i < 512 \<and> path_ok is"
  by (simp_all add: path_ok_def)

lemma path_ok_indexes [simp]: "path_ok (indexes vpn)"
  using indexes_less_512 by (auto simp: path_ok_def)

lemma find_pte_walk: "find_pte m pt vpn = walk m (indexes vpn) (root_ppn pt)"
  by (simp add: find_pte_def indexes_eq)

lemma walk_in_tree:
  assumes "table_tree m F lv" and "p \<in> F" and "lv p + length is = 3" and "path_ok is"
    and "walk m is p = Some a"
  shows "\<exists>q\<in>F. \<exists>i. lv q = 2 \<and> unat i < 512 \<and> a = pte_addr q i"
  using assms
proof (induction m "is" p rule: walk.induct)
  case (3 m i j "is" p)
  then show ?case
    by (auto simp: table_treeD split: if_splits)
qed auto

text \<open>Two paths that lead to the same entry are the same path.\<close>

lemma walk_inj:
  assumes "table_tree m F lv" and "p \<in> F" and "q \<in> F" and "lv p + length is = 3"
    and "lv q + length js = 3" and "path_ok is" and "path_ok js" and "length is = length js"
    and "walk m is p = Some a" and "walk m js q = Some a"
  shows "p = q \<and> is = js"
  using assms
proof (induction m "is" p arbitrary: q js rule: walk.induct)
  case (2 m i p)
  then obtain j where js: "js = [j]"
    by (cases js) auto
  show ?case
    using 2 by (simp add: js) (metis pte_addr_page_iff table_treeD(1))
next
  case (3 m i i' "is" p)
  then obtain j j' js' where js: "js = j # j' # js'"
    by (metis length_Suc_conv)
  have v: "valid_at m p i" "valid_at m q j"
    using 3 by (auto simp: js split: if_splits)
  have lv: "lv p < 2" "lv q < 2"
    using 3 by (auto simp: js)
  have "child m p i = child m q j \<and> i' # is = j' # js'"
    using 3 v lv table_treeD(2,3)[OF 3(2)] by (intro "3.IH") (auto simp: js)
  then show ?case
    using table_treeD(4)[OF 3(2), of p q i j] 3 v lv by (simp add: js)
qed auto

section \<open>Memory changes outside the tables\<close>

lemma load_pte_cong_page:
  assumes "\<And>x. x \<in> page_addrs p \<Longrightarrow> m x = m' x" and "unat i < 512"
  shows "load_pte m (pte_addr p i) = load_pte m' (pte_addr p i)"
proof -
  have "load64 m (pte_addr p i) = load64 m' (pte_addr p i)"
    using assms by (intro load64_cong) (auto simp: pte_addr_def page_addrs_def)
  then show ?thesis by (simp add: load_pte_def)
qed

lemma load_pte_store_pte_other:
  "ppn_ok p \<Longrightarrow> ppn_ok q \<Longrightarrow> unat i < 512 \<Longrightarrow> unat j < 512 \<Longrightarrow> p \<noteq> q \<or> i \<noteq> j \<Longrightarrow>
   load_pte (store_pte (pte_addr q j) v m) (pte_addr p i) = load_pte m (pte_addr p i)"
  by (simp add: load_pte_def store_pte_def load64_pte_other)

lemma load_pte_zero_page: "unat i < 512 \<Longrightarrow> load_pte (zero_page p m) (pte_addr p i) = PTE 0"
  unfolding load_pte_def
  by (intro arg_cong[where f = PTE] load64_zero) (auto simp: zero_page_apply pte_addr_def page_addrs_def)

lemma load_pte_zero_page_other:
  assumes "ppn_ok p" "ppn_ok q" "p \<noteq> q" "unat i < 512"
  shows "load_pte (zero_page q m) (pte_addr p i) = load_pte m (pte_addr p i)"
  using assms page_addrs_disjoint[OF assms(1-3)]
  by (intro load_pte_cong_page) (auto simp: zero_page_apply)

text \<open>Everything below depends only on the entries of the tables in \<open>F\<close>.\<close>

definition agree_on :: "PhysPageNum set \<Rightarrow> phys_mem \<Rightarrow> phys_mem \<Rightarrow> bool" where
  "agree_on F m m' \<longleftrightarrow> (\<forall>p\<in>F. \<forall>i. unat i < 512 \<longrightarrow>
     load_pte m' (pte_addr p i) = load_pte m (pte_addr p i))"

lemma table_tree_agree: "agree_on F m m' \<Longrightarrow> table_tree m F lv \<Longrightarrow> table_tree m' F lv"
  unfolding table_tree_def agree_on_def by auto

lemma walk_agree:
  assumes "table_tree m F lv" and "agree_on F m m'" and "p \<in> F" and "lv p + length is = 3"
    and "path_ok is"
  shows "walk m' is p = walk m is p"
  using assms
proof (induction m "is" p rule: walk.induct)
  case (3 m i j "is" p)
  then show ?case
    by (simp add: table_treeD) (simp add: agree_on_def)
qed auto

lemma entry_agree:
  assumes "table_tree m F lv" and "agree_on F m m'" and "p \<in> F" and "lv p + length is = 3"
    and "path_ok is"
  shows "entry m' is p = entry m is p"
proof (cases "walk m is p")
  case None
  then show ?thesis
    using walk_agree[OF assms] by (simp add: entry_def)
next
  case (Some a)
  then obtain q i where "q \<in> F" "unat i < 512" "a = pte_addr q i"
    using walk_in_tree[OF assms(1,3-5)] by blast
  then show ?thesis
    using walk_agree[OF assms] Some assms(2) by (simp add: entry_def agree_on_def)
qed

section \<open>Adding a table\<close>

definition link_table :: "PhysPageNum \<Rightarrow> PhysPageNum \<Rightarrow> usize \<Rightarrow> phys_mem \<Rightarrow> phys_mem" where
  "link_table f p i m = store_pte (pte_addr p i) (pte_new f PTE_V) (zero_page f m)"

lemma load_link_table:
  assumes "ppn_ok p" "ppn_ok f" "p \<noteq> f" "unat i < 512"
  shows "load_pte (link_table f p i m) (pte_addr p i) = pte_new f PTE_V"
    and "unat j < 512 \<Longrightarrow> load_pte (link_table f p i m) (pte_addr f j) = PTE 0"
    and "ppn_ok q \<Longrightarrow> q \<noteq> f \<Longrightarrow> unat j < 512 \<Longrightarrow> q \<noteq> p \<or> j \<noteq> i \<Longrightarrow>
      load_pte (link_table f p i m) (pte_addr q j) = load_pte m (pte_addr q j)"
  using assms
  by (simp_all add: link_table_def load_pte_store_pte_other load_pte_zero_page load_pte_zero_page_other)

lemma link_table_other:
  assumes "x \<notin> page_addrs f" and "x \<notin> page_addrs p" and "unat i < 512"
  shows "link_table f p i m x = m x"
  using assms
  by (auto simp: link_table_def store_pte_def store64_def store_bytes_def zero_page_apply
      pte_addr_def page_addrs_def)

lemma table_tree_link:
  assumes tree: "table_tree m F lv" and p: "p \<in> F" "lv p < 2" "unat i < 512" "\<not> valid_at m p i"
    and f: "f \<notin> F" "ppn_ok f"
  shows "table_tree (link_table f p i m) (insert f F) (lv(f := Suc (lv p)))"
proof -
  let ?m = "link_table f p i m" and ?lv = "lv(f := Suc (lv p))"
  have ok: "ppn_ok p" "p \<noteq> f"
    using table_treeD(1)[OF tree p(1)] p f by auto
  note ld = load_link_table[OF ok(1) f(2) ok(2) p(3), where m = m]
  have cases: "(q = p \<and> j = i) \<or> (q \<in> F \<and> q \<noteq> f \<and> load_pte ?m (pte_addr q j) = load_pte m (pte_addr q j))"
    if "q \<in> insert f F" "unat j < 512" "valid_at ?m q j" for q j
    using that ld f table_treeD(1)[OF tree] by (cases "q = f") auto
  have self: "child ?m p i = f"
    using ld(1) f by simp
  have down: "child ?m q j \<in> insert f F \<and> ?lv (child ?m q j) = Suc (?lv q)"
    if "q \<in> insert f F" "unat j < 512" "?lv q < 2" "valid_at ?m q j" for q j
    using cases[OF that(1,2,4)]
  proof (elim disjE conjE)
    assume "q = p" "j = i"
    then show ?thesis using self ok by simp
  next
    assume q: "q \<in> F" "q \<noteq> f" "load_pte ?m (pte_addr q j) = load_pte m (pte_addr q j)"
    then have "child m q j \<in> F" "lv (child m q j) = Suc (lv q)"
      using table_treeD(2,3)[OF tree q(1) that(2)] that by auto
    then show ?thesis using q f by auto
  qed
  have inj: "q = q' \<and> j = j'"
    if q: "q \<in> insert f F" "q' \<in> insert f F" "unat j < 512" "unat j' < 512" "?lv q < 2" "?lv q' < 2"
      "valid_at ?m q j" "valid_at ?m q' j'" and eq: "child ?m q j = child ?m q' j'" for q q' j j'
  proof -
    have other: "child ?m r k \<noteq> f"
      if "r \<in> F" "r \<noteq> f" "unat k < 512" "?lv r < 2" "valid_at ?m r k"
        "load_pte ?m (pte_addr r k) = load_pte m (pte_addr r k)" for r k
      using table_treeD(2)[OF tree that(1,3)] that f by auto
    consider "q = p" "j = i" "q' = p" "j' = i"
      | "q = p" "j = i" "q' \<in> F" "q' \<noteq> f" "load_pte ?m (pte_addr q' j') = load_pte m (pte_addr q' j')"
      | "q' = p" "j' = i" "q \<in> F" "q \<noteq> f" "load_pte ?m (pte_addr q j) = load_pte m (pte_addr q j)"
      | "q \<in> F" "q \<noteq> f" "load_pte ?m (pte_addr q j) = load_pte m (pte_addr q j)"
        "q' \<in> F" "q' \<noteq> f" "load_pte ?m (pte_addr q' j') = load_pte m (pte_addr q' j')"
      using cases[OF q(1,3,7)] cases[OF q(2,4,8)] by blast
    then show ?thesis
    proof cases
      case 1
      then show ?thesis by simp
    next
      case 2
      then show ?thesis using other[OF 2(3,4) q(4,6,8) 2(5)] eq self by simp
    next
      case 3
      then show ?thesis using other[OF 3(3,4) q(3,5,7) 3(5)] eq self by simp
    next
      case 4
      then show ?thesis using table_treeD(4)[OF tree 4(1,4) q(3,4)] q eq by simp
    qed
  qed
  show ?thesis
    unfolding table_tree_def using down inj f(2) table_treeD(1)[OF tree] by blast
qed

lemma entry_simps [simp]:
  "entry m [i] p = load_pte m (pte_addr p i)"
  "entry m (i # j # is) p = (if valid_at m p i then entry m (j # is) (child m p i) else pte_empty)"
  by (simp_all add: entry_def)

lemma entry_link_fresh:
  assumes "ppn_ok p" "ppn_ok f" "p \<noteq> f" "unat i < 512" "path_ok (j # is)"
  shows "entry (link_table f p i m) (j # is) f = pte_empty"
  using load_link_table(2)[OF assms(1-4), of j m] assms(5)
  by (cases "is") (auto simp: pte_empty_def)

lemma entry_link:
  assumes tree: "table_tree m F lv" and p: "p \<in> F" "lv p < 2" "unat i < 512" "\<not> valid_at m p i"
    and f: "f \<notin> F" "ppn_ok f" and q: "q \<in> F" "lv q + length is = 3" "path_ok is"
  shows "entry (link_table f p i m) is q = entry m is q"
  using q
proof (induction "is" arbitrary: q)
  case Nil
  then show ?case by (simp add: entry_def)
next
  case (Cons k js)
  have ok: "ppn_ok p" "p \<noteq> f" "ppn_ok q" "q \<noteq> f"
    using table_treeD(1)[OF tree] p f Cons.prems by auto
  note ld = load_link_table[OF ok(1) f(2) ok(2) p(3), where m = m]
  show ?case
  proof (cases js)
    case Nil
    then have "q \<noteq> p" using Cons.prems p by auto
    then show ?thesis using ld(3)[OF ok(3,4)] Cons.prems Nil by simp
  next
    case (Cons k' js')
    note js = this
    have lvq: "lv q < 2" using Cons.prems js by simp
    show ?thesis
    proof (cases "q = p \<and> k = i")
      case True
      then show ?thesis
        using ld(1) p f ok Cons.prems entry_link_fresh[OF ok(1) f(2) ok(2) p(3), of k' js' m] js by simp
    next
      case False
      then have "load_pte (link_table f p i m) (pte_addr q k) = load_pte m (pte_addr q k)"
        using ld(3)[OF ok(3,4)] Cons.prems by auto
      moreover have "entry (link_table f p i m) js (child m q k) = entry m js (child m q k)" if "valid_at m q k"
        using Cons.prems table_treeD(2,3)[OF tree Cons.prems(1) _ lvq that] that by (intro Cons.IH) auto
      ultimately show ?thesis using js by simp
    qed
  qed
qed

end
