(* ===== verification/Page_Table_Ops.thy ===== *)
theory Page_Table_Ops
  imports Page_Table_Inv
begin

unbundle bit_operations_syntax

text \<open>
  What \<^verbatim>\<open>find_pte_create\<close>, \<^verbatim>\<open>map\<close>, \<^verbatim>\<open>unmap\<close> and \<^verbatim>\<open>translate\<close> do to an address space whose
  tables satisfy \<open>pt_ok\<close>: the map from virtual pages to entries is updated at one page, tables are
  only ever added and taken from fresh frames, and no byte outside the tables changes.
\<close>

section \<open>The invariant of a page table\<close>

definition pt_tree :: "'z machine_scheme \<Rightarrow> PageTable \<Rightarrow> (PhysPageNum \<Rightarrow> nat) \<Rightarrow> bool" where
  "pt_tree s pt lv \<longleftrightarrow>
     table_tree (mem s) (set (pt_frames pt)) lv \<and>
     root_ppn pt \<in> set (pt_frames pt) \<and> lv (root_ppn pt) = 0 \<and> distinct (pt_frames pt) \<and>
     set (pt_frames pt) \<subseteq> fa_used (FRAME_ALLOCATOR s) \<and> fa_inv (FRAME_ALLOCATOR s)"

definition pt_ok :: "'z machine_scheme \<Rightarrow> PageTable \<Rightarrow> bool" where
  "pt_ok s pt \<longleftrightarrow> (\<exists>lv. pt_tree s pt lv)"

text \<open>The entry an address space has for a page; \<^verbatim>\<open>empty\<close> where no table exists.\<close>

definition pt_entry :: "'z machine_scheme \<Rightarrow> PageTable \<Rightarrow> VirtPageNum \<Rightarrow> PageTableEntry" where
  "pt_entry s pt vpn = entry (mem s) (indexes vpn) (root_ppn pt)"

definition table_addrs :: "PageTable \<Rightarrow> nat set" where
  "table_addrs pt = (\<Union>p\<in>set (pt_frames pt). page_addrs p)"

text \<open>How a state changes while tables are added.\<close>

definition pt_grows :: "'z machine_scheme \<Rightarrow> PageTable \<Rightarrow> 'z machine_scheme \<Rightarrow> PageTable \<Rightarrow> bool" where
  "pt_grows s pt s' pt' \<longleftrightarrow> root_ppn pt' = root_ppn pt \<and> machine.more s' = machine.more s \<and>
     (\<exists>new. pt_frames pt' = pt_frames pt @ new \<and> set new \<inter> fa_used (FRAME_ALLOCATOR s) = {} \<and>
        fa_used (FRAME_ALLOCATOR s') = fa_used (FRAME_ALLOCATOR s) \<union> set new \<and>
        length new + fa_avail (FRAME_ALLOCATOR s') = fa_avail (FRAME_ALLOCATOR s)) \<and>
     (\<forall>x. x \<notin> table_addrs pt' \<longrightarrow> mem s' x = mem s x)"

definition tree_extends ::
    "PhysPageNum set \<Rightarrow> phys_mem \<Rightarrow> (PhysPageNum \<Rightarrow> nat) \<Rightarrow> phys_mem \<Rightarrow> (PhysPageNum \<Rightarrow> nat) \<Rightarrow> bool" where
  "tree_extends F m lv m' lv' \<longleftrightarrow> (\<forall>q\<in>F. lv' q = lv q \<and>
     (\<forall>is. lv q + length is = 3 \<longrightarrow> path_ok is \<longrightarrow> entry m' is q = entry m is q) \<and>
     (\<forall>j. lv q < 2 \<longrightarrow> unat j < 512 \<longrightarrow> valid_at m q j \<longrightarrow>
        load_pte m' (pte_addr q j) = load_pte m (pte_addr q j)))"

lemma pt_grows_refl [simp]: "pt_grows s pt s pt"
  by (simp add: pt_grows_def)

lemma tree_extends_refl [simp]: "tree_extends F m lv m lv"
  by (simp add: tree_extends_def)

lemma pt_grows_trans:
  assumes "pt_grows s pt s1 pt1" and "pt_grows s1 pt1 s2 pt2"
  shows "pt_grows s pt s2 pt2"
proof -
  obtain new1 new2 where n: "pt_frames pt1 = pt_frames pt @ new1" "pt_frames pt2 = pt_frames pt1 @ new2"
    "set new1 \<inter> fa_used (FRAME_ALLOCATOR s) = {}" "set new2 \<inter> fa_used (FRAME_ALLOCATOR s1) = {}"
    "fa_used (FRAME_ALLOCATOR s1) = fa_used (FRAME_ALLOCATOR s) \<union> set new1"
    "fa_used (FRAME_ALLOCATOR s2) = fa_used (FRAME_ALLOCATOR s1) \<union> set new2"
    "length new1 + fa_avail (FRAME_ALLOCATOR s1) = fa_avail (FRAME_ALLOCATOR s)"
    "length new2 + fa_avail (FRAME_ALLOCATOR s2) = fa_avail (FRAME_ALLOCATOR s1)"
    using assms unfolding pt_grows_def by blast
  have "\<exists>new. pt_frames pt2 = pt_frames pt @ new \<and> set new \<inter> fa_used (FRAME_ALLOCATOR s) = {} \<and>
        fa_used (FRAME_ALLOCATOR s2) = fa_used (FRAME_ALLOCATOR s) \<union> set new \<and>
        length new + fa_avail (FRAME_ALLOCATOR s2) = fa_avail (FRAME_ALLOCATOR s)"
    using n by (intro exI[of _ "new1 @ new2"]) auto
  moreover have "mem s2 x = mem s x" if "x \<notin> table_addrs pt2" for x
  proof -
    have "x \<notin> table_addrs pt1" using that n(2) by (simp add: table_addrs_def)
    then show ?thesis using assms that by (simp add: pt_grows_def)
  qed
  ultimately show ?thesis using assms by (simp add: pt_grows_def)
qed

lemma tree_extends_trans:
  "tree_extends F m lv m1 lv1 \<Longrightarrow> tree_extends G m1 lv1 m2 lv2 \<Longrightarrow> F \<subseteq> G \<Longrightarrow> tree_extends F m lv m2 lv2"
  unfolding tree_extends_def by (metis subsetD)

lemma tree_extends_link:
  assumes tree: "table_tree m F lv" and p: "p \<in> F" "lv p < 2" "unat i < 512" "\<not> valid_at m p i"
    and f: "f \<notin> F" "ppn_ok f"
  shows "tree_extends F m lv (link_table f p i m) (lv(f := l))"
proof -
  have ok: "ppn_ok p" "p \<noteq> f"
    using table_treeD(1)[OF tree p(1)] p f by auto
  have ne: "\<And>q. q \<in> F \<Longrightarrow> q \<noteq> f \<and> ppn_ok q"
    using f table_treeD(1)[OF tree] by auto
  have ne': "q \<noteq> p \<or> j \<noteq> i" if "valid_at m q j" for q j
    using that p(4) by auto
  show ?thesis
    unfolding tree_extends_def
    using entry_link[OF tree p f] ne load_link_table(3)[OF ok(1) f(2) ok(2) p(3)] ne' by simp
qed

section \<open>find\_pte\_create\<close>

definition created ::
    "usize list \<Rightarrow> PhysPageNum \<Rightarrow> 'z machine_scheme \<Rightarrow> PageTable \<Rightarrow> (PhysPageNum \<Rightarrow> nat) \<Rightarrow>
     nat option \<times> PageTable \<Rightarrow> 'z machine_scheme \<Rightarrow> bool" where
  "created idxs p s pt lv r s' \<longleftrightarrow> (\<exists>lv' a. pt_tree s' (snd r) lv' \<and> pt_grows s pt s' (snd r) \<and>
     length (pt_frames (snd r)) + 1 \<le> length (pt_frames pt) + length idxs \<and>
     tree_extends (set (pt_frames pt)) (mem s) lv (mem s') lv' \<and>
     fst r = Some a \<and> walk (mem s') idxs p = Some a)"

lemma created_step:
  assumes "created (j # idxs) p1 s1 pt1 lv1 r s2" and "pt_grows s pt s1 pt1"
    and "length (pt_frames pt1) \<le> Suc (length (pt_frames pt))"
    and "tree_extends (set (pt_frames pt)) (mem s) lv (mem s1) lv1"
    and "p \<in> set (pt_frames pt)" and "lv p < 2" and "unat i < 512"
    and "valid_at (mem s1) p i" and "child (mem s1) p i = p1"
  shows "created (i # j # idxs) p s pt lv r s2"
proof -
  obtain lv2 a where c: "pt_tree s2 (snd r) lv2" "pt_grows s1 pt1 s2 (snd r)"
    "length (pt_frames (snd r)) + 1 \<le> length (pt_frames pt1) + length (j # idxs)"
    "tree_extends (set (pt_frames pt1)) (mem s1) lv1 (mem s2) lv2"
    "fst r = Some a" "walk (mem s2) (j # idxs) p1 = Some a"
    using assms(1) unfolding created_def by blast
  have sub: "set (pt_frames pt) \<subseteq> set (pt_frames pt1)"
    using assms(2) by (auto simp: pt_grows_def)
  have "load_pte (mem s2) (pte_addr p i) = load_pte (mem s1) (pte_addr p i)"
    using c(4) assms(4-8) sub unfolding tree_extends_def by auto
  then have "walk (mem s2) (i # j # idxs) p = Some a"
    using assms(8,9) c(6) by simp
  then show ?thesis
    unfolding created_def
    using c pt_grows_trans[OF assms(2) c(2)] tree_extends_trans[OF assms(4) c(4) sub] assms(3)
    by (intro exI[of _ lv2] exI[of _ a]) simp
qed

lemma pt_tree_link:
  assumes "pt_tree s pt lv" and "p \<in> set (pt_frames pt)" "lv p < 2" "unat i < 512" "\<not> valid_at (mem s) p i"
    and "f \<notin> fa_used (FRAME_ALLOCATOR s)" "ppn_ok f"
    and "fa_used a = insert f (fa_used (FRAME_ALLOCATOR s))" "fa_inv a"
    and "fa_avail (FRAME_ALLOCATOR s) = Suc (fa_avail a)"
  defines "s1 \<equiv> s\<lparr>mem := link_table f p i (mem s), FRAME_ALLOCATOR := a\<rparr>"
    and "pt1 \<equiv> pt\<lparr>pt_frames := pt_frames pt @ [f]\<rparr>"
  shows "pt_tree s1 pt1 (lv(f := Suc (lv p)))" and "pt_grows s pt s1 pt1"
    and "tree_extends (set (pt_frames pt)) (mem s) lv (mem s1) (lv(f := Suc (lv p)))"
    and "valid_at (mem s1) p i" and "child (mem s1) p i = f"
proof -
  have tree: "table_tree (mem s) (set (pt_frames pt)) lv"
    and fresh: "f \<notin> set (pt_frames pt)"
    using assms(1,6) by (auto simp: pt_tree_def)
  show "pt_tree s1 pt1 (lv(f := Suc (lv p)))"
    using table_tree_link[OF tree assms(2-5) fresh assms(7)] assms fresh
    by (auto simp: pt_tree_def s1_def pt1_def)
  have "p \<noteq> f" "ppn_ok p"
    using fresh assms(2) table_treeD(1)[OF tree] by auto
  then show "valid_at (mem s1) p i" "child (mem s1) p i = f"
    using assms(4,7) by (simp_all add: s1_def load_link_table)
  show "tree_extends (set (pt_frames pt)) (mem s) lv (mem s1) (lv(f := Suc (lv p)))"
    using tree_extends_link[OF tree assms(2-5) fresh assms(7)] by (simp add: s1_def)
  have "link_table f p i (mem s) x = mem s x" if "x \<notin> table_addrs pt1" for x
    using that assms(2,4) by (intro link_table_other) (auto simp: table_addrs_def pt1_def)
  then show "pt_grows s pt s1 pt1"
    using assms(6,8,10) by (simp add: pt_grows_def s1_def pt1_def)
qed

lemma wp_find_pte_create_loop:
  assumes "pt_tree s pt lv" and "p \<in> set (pt_frames pt)" and "lv p = i" and "i + length idxs = 3"
    and "i \<le> 2" and "path_ok idxs" and "length idxs \<le> Suc (fa_avail (FRAME_ALLOCATOR s))"
  shows "wp (find_pte_create_loop i idxs p pt) (created idxs p s pt lv) s"
  using assms
proof (induction idxs arbitrary: i p pt s lv)
  case Nil
  then show ?case by simp
next
  case (Cons idx idxs)
  show ?case
  proof (cases "i = 2")
    case True
    then have "idxs = []" using Cons.prems by simp
    with True Cons.prems show ?thesis by (auto simp: created_def)
  next
    case False
    then obtain j js where js: "idxs = j # js" and lv: "lv p < 2"
      using Cons.prems by (cases idxs) auto
    note inv = Cons.prems(1)
    have tree: "table_tree (mem s) (set (pt_frames pt)) lv" and fa: "fa_inv (FRAME_ALLOCATOR s)"
      using inv by (auto simp: pt_tree_def)
    show ?thesis
    proof (cases "valid_at (mem s) p idx")
      case True
      have "wp (find_pte_create_loop (i + 1) idxs (child (mem s) p idx) pt)
              (created idxs (child (mem s) p idx) s pt lv) s"
        using Cons.prems True lv table_treeD(2,3)[OF tree, of p idx] js by (intro Cons.IH) auto
      then have "wp (find_pte_create_loop (i + 1) idxs (child (mem s) p idx) pt)
              (created (idx # idxs) p s pt lv) s"
        using Cons.prems True lv js by (elim wp_mono) (auto intro: created_step)
      then show ?thesis using False True by simp
    next
      case invalid: False
      have nf: "\<not> fa_full (FRAME_ALLOCATOR s)"
        using Cons.prems js fa_full_avail[OF fa] by simp
      have loop: "wp (find_pte_create_loop (i + 1) idxs f
            (pt\<lparr>pt_frames := pt_frames pt @ [f]\<rparr>)) (created (idx # idxs) p s pt lv)
          (s\<lparr>FRAME_ALLOCATOR := a, mem := link_table f p idx (mem s)\<rparr>)"
        if f: "f \<notin> fa_used (FRAME_ALLOCATOR s)" "ppn_ok f"
          "fa_used a = insert f (fa_used (FRAME_ALLOCATOR s))" "fa_inv a"
          "fa_avail (FRAME_ALLOCATOR s) = Suc (fa_avail a)" for f a
      proof -
        let ?s = "s\<lparr>mem := link_table f p idx (mem s), FRAME_ALLOCATOR := a\<rparr>"
        have i: "unat idx < 512" using Cons.prems by simp
        note link = pt_tree_link[OF inv Cons.prems(2) lv i invalid f]
        have "wp (find_pte_create_loop (i + 1) idxs f (pt\<lparr>pt_frames := pt_frames pt @ [f]\<rparr>))
            (created (idx # idxs) p s pt lv) ?s"
          using Cons.prems js f
          by (intro wp_mono[OF Cons.IH[OF link(1)]])
            (auto intro!: created_step[OF _ link(2) _ link(3) _ _ _ link(4,5)] simp: fun_upd_def)
        moreover have "?s = s\<lparr>FRAME_ALLOCATOR := a, mem := link_table f p idx (mem s)\<rparr>" by simp
        ultimately show ?thesis by simp
      qed
      show ?thesis
        using False invalid nf fa by (auto intro!: wp_frame_alloc loop[simplified] simp flip: link_table_def)
    qed
  qed
qed

lemma wp_find_pte_create:
  assumes "pt_tree s pt lv" and "2 \<le> fa_avail (FRAME_ALLOCATOR s)"
  shows "wp (find_pte_create pt vpn) (created (indexes vpn) (root_ppn pt) s pt lv) s"
  unfolding find_pte_create_def
  using assms by (intro wp_find_pte_create_loop) (auto simp: pt_tree_def)

section \<open>Writing a leaf entry\<close>

lemma leaf_store:
  assumes tree: "table_tree m F lv" and p: "p \<in> F" "lv p + length is = 3" "path_ok is"
    and w: "walk m is p = Some a"
  shows leaf_store_dir: "\<And>q i. q \<in> F \<Longrightarrow> lv q < 2 \<Longrightarrow> unat i < 512 \<Longrightarrow>
      load_pte (store_pte a v m) (pte_addr q i) = load_pte m (pte_addr q i)"
    and leaf_store_tree: "table_tree (store_pte a v m) F lv"
    and leaf_store_other: "\<And>x. x \<notin> (\<Union>q\<in>F. page_addrs q) \<Longrightarrow> store_pte a v m x = m x"
proof -
  obtain q i where q: "q \<in> F" "lv q = 2" "unat i < 512" "a = pte_addr q i"
    using walk_in_tree[OF tree p w] by blast
  show dir: "load_pte (store_pte a v m) (pte_addr r j) = load_pte m (pte_addr r j)"
    if "r \<in> F" "lv r < 2" "unat j < 512" for r j
  proof -
    have "r \<noteq> q" using that q by auto
    then show ?thesis
      using that q table_treeD(1)[OF tree] by (simp add: load_pte_store_pte_other)
  qed
  show "table_tree (store_pte a v m) F lv"
    unfolding table_tree_def
    using table_treeD[OF tree] by (simp add: dir)
  show "store_pte a v m x = m x" if "x \<notin> (\<Union>q\<in>F. page_addrs q)" for x
    using that q by (auto simp: store_pte_def store64_def store_bytes_def pte_addr_def page_addrs_def)
qed

lemma leaf_store_walk:
  assumes tree: "table_tree m F lv" and p: "p \<in> F" "lv p + length is = 3" "path_ok is"
    and w: "walk m is p = Some a"
    and r: "r \<in> F" "lv r + length js = 3" "path_ok js"
  shows "walk (store_pte a v m) js r = walk m js r"
  using r
proof (induction js arbitrary: r)
  case (Cons j js)
  then show ?case
    using leaf_store_dir[OF tree p w] table_treeD(2,3)[OF tree] by (cases js) auto
qed simp

lemma leaf_store_entry:
  assumes tree: "table_tree m F lv" and p: "p \<in> F" "lv p + length is = 3" "path_ok is"
    and w: "walk m is p = Some a" and js: "lv p + length js = 3" "path_ok js"
  shows "entry (store_pte a v m) js p = (if js = is then v else entry m js p)"
proof (cases "walk m js p")
  case None
  then show ?thesis
    using leaf_store_walk[OF tree p w p(1) js] w by (auto simp: entry_def)
next
  case (Some b)
  have *: "walk (store_pte a v m) js p = Some b"
    using leaf_store_walk[OF tree p w p(1) js] Some by simp
  show ?thesis
  proof (cases "js = is")
    case True
    then show ?thesis using * Some w by (simp add: entry_def)
  next
    case False
    have "a \<noteq> b"
      using walk_inj[OF tree p(1,1) js(1) p(2) js(2) p(3) _ Some] False w p(2) js(1) by auto
    moreover obtain q i q' i' where "q \<in> F" "unat i < 512" "a = pte_addr q i"
      "q' \<in> F" "unat i' < 512" "b = pte_addr q' i'"
      using walk_in_tree[OF tree p w] walk_in_tree[OF tree p(1) js Some] by blast
    ultimately have "load_pte (store_pte a v m) b = load_pte m b"
      using table_treeD(1)[OF tree] by (auto intro!: load_pte_store_pte_other)
    then show ?thesis using * Some False by (simp add: entry_def)
  qed
qed

text \<open>Added tables and rewritten leaves keep every path that already led to an entry.\<close>

lemma walk_extends:
  assumes tree: "table_tree m F lv" and ext: "tree_extends F m lv m' lv'"
    and p: "p \<in> F" "lv p + length is = 3" "path_ok is" "walk m is p = Some a"
  shows "walk m' is p = Some a"
  using p
proof (induction "is" arbitrary: p)
  case (Cons i js)
  show ?case
  proof (cases js)
    case Nil
    then show ?thesis using Cons.prems by simp
  next
    case js: (Cons j js')
    have v: "valid_at m p i" "lv p < 2" "unat i < 512"
      using Cons.prems js by (auto split: if_splits)
    then have same: "load_pte m' (pte_addr p i) = load_pte m (pte_addr p i)"
      using ext Cons.prems(1) by (simp add: tree_extends_def)
    have "walk m' js (child m p i) = Some a"
      using Cons.prems v js table_treeD(2,3)[OF tree Cons.prems(1) v(3,2,1)] by (intro Cons.IH) auto
    then show ?thesis using same v js by simp
  qed
qed simp

section \<open>The map of an address space\<close>

text \<open>The pages an address space maps, as \<^verbatim>\<open>translate\<close> reports them: valid entries only.\<close>

definition pt_maps :: "'z machine_scheme \<Rightarrow> PageTable \<Rightarrow> VirtPageNum \<Rightarrow> PageTableEntry option" where
  "pt_maps s pt vpn = (case PageTable_translate (mem s) pt vpn of
     None \<Rightarrow> None | Some pte \<Rightarrow> if pte_is_valid pte then Some pte else None)"

text \<open>Page numbers that the hardware does not tell apart: SV39 uses their low 27 bits.\<close>

definition same_page :: "VirtPageNum \<Rightarrow> VirtPageNum \<Rightarrow> bool" where
  "same_page v w \<longleftrightarrow> take_bit 27 (vpn_0 v) = take_bit 27 (vpn_0 w)"

lemma pt_maps_entry: "pt_maps s pt vpn = (if pte_is_valid (pt_entry s pt vpn) then Some (pt_entry s pt vpn) else None)"
  by (auto simp: pt_maps_def PageTable_translate_def find_pte_walk pt_entry_def entry_def split: option.splits)

lemma mod_2_27: "(n :: nat) mod 2 ^ 27 = 2 ^ 18 * (n div 2 ^ 18 mod 512) + (512 * (n div 2 ^ 9 mod 512) + n mod 512)"
  using mod_mult2_eq[of n "2 ^ 18" 512] mod_mult2_eq[of n 512 512] by simp

lemma indexes_eq_iff: "indexes v = indexes w \<longleftrightarrow> same_page v w"
proof -
  have digits: "a = a' \<and> b = b' \<and> c = c'"
    if "262144 * a + (512 * b + c) = 262144 * a' + (512 * b' + c')"
      "b < 512" "c < 512" "b' < 512" "c' < 512" for a b c a' b' c' :: nat
  proof -
    have "a = a'" using that by simp
    moreover from this have e: "512 * b + c = 512 * b' + c'" using that(1) by simp
    moreover have "b = b'" using e that(3,5) by arith
    ultimately show ?thesis by simp
  qed
  have "indexes v = indexes w \<longleftrightarrow> map unat (indexes v) = map unat (indexes w)"
    by (metis inj_map_eq_map injI word_unat_eq_iff)
  also have "\<dots> \<longleftrightarrow> unat (vpn_0 v) mod 2 ^ 27 = unat (vpn_0 w) mod 2 ^ 27"
    unfolding unat_indexes mod_2_27 by (auto dest!: digits)
  finally show ?thesis
    by (simp add: same_page_def word_unat_eq_iff unat_take_bit)
qed

section \<open>map\<close>

lemma wp_PageTable_map_walk:
  assumes "pt_ok s pt" and "2 \<le> fa_avail (FRAME_ALLOCATOR s)" and "\<not> pte_is_valid (pt_entry s pt vpn)"
  shows "wp (PageTable_map pt vpn ppn fl) (\<lambda>pt' s'. pt_ok s' pt' \<and> pt_grows s pt s' pt' \<and>
     length (pt_frames pt') \<le> length (pt_frames pt) + 2 \<and>
     (\<forall>v. pt_entry s' pt' v = (if same_page v vpn then pte_new ppn (fl OR PTE_V) else pt_entry s pt v)) \<and>
     (\<forall>v a. find_pte (mem s) pt v = Some a \<longrightarrow> find_pte (mem s') pt' v = Some a)) s"
proof -
  obtain lv where inv: "pt_tree s pt lv"
    using assms(1) by (auto simp: pt_ok_def)
  have main: "\<exists>a. fst r = Some a \<and> \<not> pte_is_valid (load_pte (mem s1) a) \<and>
      pt_ok (s1\<lparr>mem := store_pte a v (mem s1)\<rparr>) (snd r) \<and>
      pt_grows s pt (s1\<lparr>mem := store_pte a v (mem s1)\<rparr>) (snd r) \<and>
      length (pt_frames (snd r)) \<le> length (pt_frames pt) + 2 \<and>
      (\<forall>w. pt_entry (s1\<lparr>mem := store_pte a v (mem s1)\<rparr>) (snd r) w = (if same_page w vpn then v else pt_entry s pt w)) \<and>
      (\<forall>w b. find_pte (mem s) pt w = Some b \<longrightarrow> find_pte (store_pte a v (mem s1)) (snd r) w = Some b)"
    if c: "created (indexes vpn) (root_ppn pt) s pt lv r s1" for r s1 v
  proof -
    obtain lv1 a where c: "pt_tree s1 (snd r) lv1" "pt_grows s pt s1 (snd r)"
      "length (pt_frames (snd r)) + 1 \<le> length (pt_frames pt) + length (indexes vpn)"
      "tree_extends (set (pt_frames pt)) (mem s) lv (mem s1) lv1"
      "fst r = Some a" "walk (mem s1) (indexes vpn) (root_ppn pt) = Some a"
      using c unfolding created_def by blast
    have root: "root_ppn (snd r) = root_ppn pt" using c(2) by (simp add: pt_grows_def)
    have tree: "table_tree (mem s1) (set (pt_frames (snd r))) lv1"
      and p: "root_ppn pt \<in> set (pt_frames (snd r))" "lv1 (root_ppn pt) + length (indexes vpn) = 3"
      using c(1) root by (auto simp: pt_tree_def)
    have old: "entry (mem s1) (indexes w) (root_ppn pt) = entry (mem s) (indexes w) (root_ppn pt)" for w
      using c(4) inv by (auto simp: tree_extends_def pt_tree_def)
    note store = leaf_store[OF tree p path_ok_indexes c(6), where v = v]
    have "\<not> pte_is_valid (load_pte (mem s1) a)"
      using assms(3) old[of vpn] c(6) by (simp add: pt_entry_def entry_def)
    moreover have "pt_tree (s1\<lparr>mem := store_pte a v (mem s1)\<rparr>) (snd r) lv1"
      using c(1) store(2) by (simp add: pt_tree_def)
    moreover have "pt_grows s pt (s1\<lparr>mem := store_pte a v (mem s1)\<rparr>) (snd r)"
      using c(2) store(3) by (simp add: pt_grows_def table_addrs_def)
    moreover have "entry (store_pte a v (mem s1)) (indexes w) (root_ppn pt) =
        (if same_page w vpn then v else entry (mem s) (indexes w) (root_ppn pt))" for w
      using leaf_store_entry[OF tree p path_ok_indexes c(6), of "indexes w" v] p old
      by (simp add: indexes_eq_iff)
    moreover have "walk (store_pte a v (mem s1)) (indexes w) (root_ppn pt) = Some b"
      if "walk (mem s) (indexes w) (root_ppn pt) = Some b" for w b
    proof -
      have "walk (mem s1) (indexes w) (root_ppn pt) = Some b"
        using inv that by (intro walk_extends[OF _ c(4)]) (auto simp: pt_tree_def)
      then show ?thesis
        using leaf_store_walk[OF tree p path_ok_indexes c(6) p(1), of "indexes w" v] p(2) by simp
    qed
    ultimately show ?thesis
      using c(3,5) by (auto simp: pt_entry_def root pt_ok_def find_pte_walk)
  qed
  show ?thesis
    unfolding PageTable_map_def
    using wp_find_pte_create[OF inv assms(2), of vpn]
    by (auto elim!: wp_mono dest!: main[where v = "pte_new ppn (fl OR PTE_V)"])
qed

lemma wp_PageTable_map:
  assumes "pt_ok s pt" and "2 \<le> fa_avail (FRAME_ALLOCATOR s)" and "\<not> pte_is_valid (pt_entry s pt vpn)"
  shows "wp (PageTable_map pt vpn ppn fl) (\<lambda>pt' s'. pt_ok s' pt' \<and> pt_grows s pt s' pt' \<and>
     length (pt_frames pt') \<le> length (pt_frames pt) + 2 \<and>
     (\<forall>v. pt_entry s' pt' v = (if same_page v vpn then pte_new ppn (fl OR PTE_V) else pt_entry s pt v))) s"
  by (rule wp_mono[OF wp_PageTable_map_walk[OF assms]]) simp

text \<open>What \<^verbatim>\<open>translate\<close> reports of an entry: \<^verbatim>\<open>None\<close> where the leaf table is missing.\<close>

lemma PageTable_translate_entry:
  "PageTable_translate (mem s) pt v = (if find_pte (mem s) pt v = None then None else Some (pt_entry s pt v))"
  "find_pte (mem s) pt v = None \<Longrightarrow> pt_entry s pt v = pte_empty"
  by (auto simp: PageTable_translate_def find_pte_walk pt_entry_def entry_def)

lemma find_pte_create_loop_present:
  "i + length idxs = 3 \<Longrightarrow> i \<le> 2 \<Longrightarrow> walk (mem s) idxs p = Some a \<Longrightarrow>
   find_pte_create_loop i idxs p pt s = Inr ((Some a, pt), s)"
proof (induction i idxs p pt rule: find_pte_create_loop.induct)
  case (2 i idx idxs p pt)
  show ?case
  proof (cases idxs)
    case Nil
    then show ?thesis using 2 by (simp add: prog_defs)
  next
    case (Cons j js)
    then have "valid_at (mem s) p idx" "i \<noteq> 2"
      using 2 by (auto split: if_splits)
    then show ?thesis
      using 2 Cons by (simp add: prog_defs)
  qed
qed simp

lemma pt_maps_Some_walk:
  "pt_maps s pt vpn = Some e \<Longrightarrow> \<exists>a. walk (mem s) (indexes vpn) (root_ppn pt) = Some a \<and> load_pte (mem s) a = e \<and> pte_is_valid e"
  by (auto simp: pt_maps_entry pt_entry_def entry_def split: if_splits option.splits)

section \<open>A new page table\<close>

lemma pt_tree_single:
  assumes "ppn_ok p" and "\<And>x. x \<in> page_addrs p \<Longrightarrow> mem s x = 0" and "p \<in> fa_used (FRAME_ALLOCATOR s)"
    and "fa_inv (FRAME_ALLOCATOR s)"
  shows "pt_tree s \<lparr>root_ppn = p, pt_frames = [p]\<rparr> (\<lambda>_. 0)"
    and "pt_entry s \<lparr>root_ppn = p, pt_frames = [p]\<rparr> vpn = pte_empty"
proof -
  have zero: "load_pte (mem s) (pte_addr p i) = PTE 0" if "unat i < 512" for i
    using that assms(2) unfolding load_pte_def
    by (intro arg_cong[where f = PTE] load64_zero) (auto simp: pte_addr_def page_addrs_def)
  show "pt_tree s \<lparr>root_ppn = p, pt_frames = [p]\<rparr> (\<lambda>_. 0)"
    using assms zero by (auto simp: pt_tree_def table_tree_def)
  show "pt_entry s \<lparr>root_ppn = p, pt_frames = [p]\<rparr> vpn = pte_empty"
    using path_ok_indexes[of vpn] zero by (simp add: pt_entry_def indexes_eq)
qed

lemma wp_PageTable_new:
  assumes "fa_inv (FRAME_ALLOCATOR s)" and "1 \<le> fa_avail (FRAME_ALLOCATOR s)"
  shows "wp PageTable_new (\<lambda>pt s'. pt_ok s' pt \<and> (\<forall>v. pt_entry s' pt v = pte_empty) \<and>
     (\<exists>p. pt = \<lparr>root_ppn = p, pt_frames = [p]\<rparr> \<and> p \<notin> fa_used (FRAME_ALLOCATOR s) \<and>
        fa_used (FRAME_ALLOCATOR s') = insert p (fa_used (FRAME_ALLOCATOR s)) \<and>
        mem s' = zero_page p (mem s)) \<and>
     fa_avail (FRAME_ALLOCATOR s) = Suc (fa_avail (FRAME_ALLOCATOR s')) \<and> machine.more s' = machine.more s) s"
proof -
  have nf: "\<not> fa_full (FRAME_ALLOCATOR s)"
    using fa_full_avail assms by simp
  show ?thesis
    unfolding PageTable_new_def using assms nf
    by (auto intro!: wp_frame_alloc pt_tree_single exI[of _ "\<lambda>_. 0"] simp: pt_ok_def zero_page_apply)
qed

section \<open>Properties\<close>

text \<open>
  The smallest machine with an address space: all memory zero, the frames from \<^verbatim>\<open>0x80400\<close> to the
  end of memory under the allocator's control, the first of them in use as a root table.
\<close>

definition demo_machine :: machine where
  "demo_machine = \<lparr>mem = (\<lambda>_. 0),
     FRAME_ALLOCATOR = \<lparr>fa_current = 0x80401, fa_end = 0x80800, fa_recycled = []\<rparr>\<rparr>"

definition demo_pt :: PageTable where
  "demo_pt = \<lparr>root_ppn = PhysPageNum 0x80400, pt_frames = [PhysPageNum 0x80400]\<rparr>"

lemma demo_ok:
  "pt_ok demo_machine demo_pt" "pt_maps demo_machine demo_pt v = None"
  "fa_inv (FRAME_ALLOCATOR demo_machine)" "fa_avail (FRAME_ALLOCATOR demo_machine) = 1023"
proof -
  have ok: "ppn_ok (PhysPageNum 0x80400)" "mem demo_machine = (\<lambda>_. 0)"
    "PhysPageNum 0x80400 \<in> fa_used (FRAME_ALLOCATOR demo_machine)"
    "fa_inv (FRAME_ALLOCATOR demo_machine)"
    by (simp_all add: ppn_ok_def demo_machine_def fa_used_def fa_inv_def)
  then show "pt_ok demo_machine demo_pt" "pt_maps demo_machine demo_pt v = None"
    using pt_tree_single[of "PhysPageNum 0x80400" demo_machine]
    by (auto simp: pt_ok_def demo_pt_def pt_maps_entry)
  show "fa_inv (FRAME_ALLOCATOR demo_machine)" "fa_avail (FRAME_ALLOCATOR demo_machine) = 1023"
    using ok(4) by (simp_all add: fa_avail_def demo_machine_def)
qed

text \<open>
  C1: mapping a page that is not mapped succeeds as long as two frames are left for new tables.
  Afterwards the valid mappings are those of before and the new entry for this page. As to
  \<^verbatim>\<open>translate\<close>, it gives the new entry for this page; for another page it gives what it gave before,
  except that it may now find an empty entry where no leaf table existed. The tables are again well
  formed, and only table pages and fresh frames were touched.
\<close>

theorem PageTable_map_correct:
  assumes "pt_ok s pt" and "pt_maps s pt vpn = None" and "2 \<le> fa_avail (FRAME_ALLOCATOR s)"
  shows "\<exists>pt' s'. PageTable_map pt vpn ppn fl s = Inr (pt', s') \<and> pt_ok s' pt' \<and> pt_grows s pt s' pt' \<and>
    (\<forall>v. pt_maps s' pt' v = (if same_page v vpn then Some (pte_new ppn (fl OR PTE_V)) else pt_maps s pt v)) \<and>
    (\<forall>v. if same_page v vpn then PageTable_translate (mem s') pt' v = Some (pte_new ppn (fl OR PTE_V))
       else PageTable_translate (mem s') pt' v = PageTable_translate (mem s) pt v \<or>
         PageTable_translate (mem s) pt v = None \<and> PageTable_translate (mem s') pt' v = Some pte_empty)"
proof -
  have "\<not> pte_is_valid (pt_entry s pt vpn)"
    using assms(2) by (simp add: pt_maps_entry split: if_splits)
  from wp_PageTable_map_walk[OF assms(1,3) this, of ppn fl] obtain pt' s' where
    run: "PageTable_map pt vpn ppn fl s = Inr (pt', s')" "pt_ok s' pt'" "pt_grows s pt s' pt'"
    and new: "\<And>v. pt_entry s' pt' v = (if same_page v vpn then pte_new ppn (fl OR PTE_V) else pt_entry s pt v)"
    and old: "\<And>v a. find_pte (mem s) pt v = Some a \<Longrightarrow> find_pte (mem s') pt' v = Some a"
    unfolding wp_runs by blast
  have "PageTable_translate (mem s') pt' v = Some (pte_new ppn (fl OR PTE_V))" if "same_page v vpn" for v
    using that new[of v] PageTable_translate_entry(2)[of s' pt' v] pte_valid_V[of ppn fl]
    by (cases "find_pte (mem s') pt' v") (simp_all add: PageTable_translate_entry(1))
  moreover have "PageTable_translate (mem s') pt' v = PageTable_translate (mem s) pt v \<or>
      PageTable_translate (mem s) pt v = None \<and> PageTable_translate (mem s') pt' v = Some pte_empty"
    if "\<not> same_page v vpn" for v
    using that new[of v] old[of v] PageTable_translate_entry(2)[of s pt v]
    by (cases "find_pte (mem s) pt v") (auto simp: PageTable_translate_entry(1))
  ultimately show ?thesis
    using run new by (auto simp: pt_maps_entry)
qed

theorem PageTable_map_correct_witness:
  "pt_ok demo_machine demo_pt \<and> pt_maps demo_machine demo_pt (VirtPageNum 5) = None \<and>
   2 \<le> fa_avail (FRAME_ALLOCATOR demo_machine) \<and>
   (\<exists>pt' s'. PageTable_map demo_pt (VirtPageNum 5) (PhysPageNum 0x80500) PTE_R demo_machine = Inr (pt', s') \<and>
      pt_maps s' pt' (VirtPageNum 5) = Some (pte_new (PhysPageNum 0x80500) (PTE_R OR PTE_V)) \<and>
      pt_maps s' pt' (VirtPageNum 6) = None)"
  using PageTable_map_correct[of demo_machine demo_pt "VirtPageNum 5" "PhysPageNum 0x80500" PTE_R] demo_ok
  by (fastforce simp: same_page_def)

text \<open>
  Mapping a page that is already mapped trips the assertion of \<^verbatim>\<open>map\<close>, whatever the allocator's
  state: an existing mapping is never silently replaced.
\<close>

theorem PageTable_map_mapped_panics:
  assumes "pt_maps s pt vpn \<noteq> None"
  shows "PageTable_map pt vpn ppn fl s = Inl AssertFailed"
proof -
  obtain e a where "walk (mem s) (indexes vpn) (root_ppn pt) = Some a" "load_pte (mem s) a = e" "pte_is_valid e"
    using assms pt_maps_Some_walk by blast
  then show ?thesis
    by (simp add: PageTable_map_def find_pte_create_def find_pte_create_loop_present prog_defs)
qed

theorem PageTable_map_mapped_panics_witness:
  "\<exists>pt s. PageTable_map demo_pt (VirtPageNum 5) (PhysPageNum 0x80500) PTE_R demo_machine = Inr (pt, s) \<and>
     pt_maps s pt (VirtPageNum 5) \<noteq> None \<and>
     PageTable_map pt (VirtPageNum 5) (PhysPageNum 0x80600) PTE_W s = Inl AssertFailed"
proof -
  have "\<not> pte_is_valid (pt_entry demo_machine demo_pt (VirtPageNum 5))"
    using demo_ok(2)[of "VirtPageNum 5"] by (simp add: pt_maps_entry split: if_splits)
  with wp_PageTable_map[of demo_machine demo_pt "VirtPageNum 5" "PhysPageNum 0x80500" PTE_R] demo_ok
  obtain pt s where
    "PageTable_map demo_pt (VirtPageNum 5) (PhysPageNum 0x80500) PTE_R demo_machine = Inr (pt, s)"
    "pt_maps s pt (VirtPageNum 5) \<noteq> None"
    by (auto simp: wp_runs pt_maps_entry same_page_def)
  then show ?thesis
    using PageTable_map_mapped_panics by blast
qed

text \<open>
  C2: \<^verbatim>\<open>unmap\<close> of a mapped page removes exactly this page from the map, keeps all other mappings,
  the allocator and all memory outside the tables; \<^verbatim>\<open>unmap\<close> of an unmapped page panics.
\<close>

theorem PageTable_unmap_correct:
  assumes "pt_ok s pt"
  shows "case pt_maps s pt vpn of
      None \<Rightarrow> PageTable_unmap pt vpn s \<in> {Inl UnwrapNone, Inl AssertFailed}
    | Some _ \<Rightarrow> \<exists>m. PageTable_unmap pt vpn s = Inr ((), s\<lparr>mem := m\<rparr>) \<and> pt_ok (s\<lparr>mem := m\<rparr>) pt \<and>
        (\<forall>x. x \<notin> table_addrs pt \<longrightarrow> m x = mem s x) \<and>
        (\<forall>v. pt_maps (s\<lparr>mem := m\<rparr>) pt v = (if same_page v vpn then None else pt_maps s pt v))"
proof (cases "pt_maps s pt vpn")
  case None
  then show ?thesis
    by (auto simp: PageTable_unmap_def find_pte_walk prog_defs pt_maps_entry pt_entry_def entry_def
        split: option.splits if_splits)
next
  case (Some e)
  then obtain a where a: "walk (mem s) (indexes vpn) (root_ppn pt) = Some a" "load_pte (mem s) a = e" "pte_is_valid e"
    using pt_maps_Some_walk by blast
  obtain lv where lv: "pt_tree s pt lv" using assms by (auto simp: pt_ok_def)
  then have tree: "table_tree (mem s) (set (pt_frames pt)) lv"
    and p: "root_ppn pt \<in> set (pt_frames pt)" "lv (root_ppn pt) + length (indexes vpn) = 3"
    by (auto simp: pt_tree_def)
  note store = leaf_store[OF tree p path_ok_indexes a(1), where v = pte_empty]
  let ?s = "s\<lparr>mem := store_pte a pte_empty (mem s)\<rparr>"
  have "PageTable_unmap pt vpn s = Inr ((), ?s)"
    using a by (simp add: PageTable_unmap_def find_pte_walk prog_defs)
  moreover have "pt_ok ?s pt"
    using lv store(2) by (auto simp: pt_ok_def pt_tree_def)
  moreover have "pt_entry ?s pt v = (if same_page v vpn then pte_empty else pt_entry s pt v)" for v
    using leaf_store_entry[OF tree p path_ok_indexes a(1), of "indexes v" pte_empty] p
    by (simp add: pt_entry_def indexes_eq_iff)
  ultimately show ?thesis
    using Some store(3) by (auto simp: pt_maps_entry table_addrs_def split: if_splits intro!: exI[of _ "store_pte a pte_empty (mem s)"])
qed

theorem PageTable_unmap_correct_witness:
  "pt_ok demo_machine demo_pt \<and>
   PageTable_unmap demo_pt (VirtPageNum 5) demo_machine \<in> {Inl UnwrapNone, Inl AssertFailed}"
  using PageTable_unmap_correct[of demo_machine demo_pt "VirtPageNum 5"] demo_ok by simp

end
