(* ===== verification/Memory_Set.thy ===== *)
theory Memory_Set
  imports Page_Table_Ops
begin

unbundle bit_operations_syntax

text \<open>
  Address spaces (\<^verbatim>\<open>os/src/mm/memory_set.rs\<close>): map areas, the page table they are entered in, and the
  ways an address space is built: for the kernel, from an ELF image, and as the copy of another one.

  A \<^verbatim>\<open>BTreeMap\<close> is its list of pairs in key order. Removing or replacing a \<^verbatim>\<open>FrameTracker\<close> drops it, and
  the drop returns the frame to the allocator; \<open>drop_frames\<close> is written where the code drops trackers.
\<close>

section \<open>Map areas\<close>

datatype MapType = Identical | Framed

definition MP_R :: u8 where "MP_R = 2"
definition MP_W :: u8 where "MP_W = 4"
definition MP_X :: u8 where "MP_X = 8"
definition MP_U :: u8 where "MP_U = 16"

record MapArea =
  vpn_range :: VPNRange
  data_frames :: "(VirtPageNum \<times> PhysPageNum) list"
  map_type :: MapType
  map_perm :: u8

definition MapArea_new :: "VirtAddr \<Rightarrow> VirtAddr \<Rightarrow> MapType \<Rightarrow> u8 \<Rightarrow> MapArea res" where
  "MapArea_new start_va end_va mt perm =
     (case VPNRange_new (va_floor start_va) (va_ceil end_va) of
        Inl e \<Rightarrow> Inl e
      | Inr r \<Rightarrow> Inr \<lparr>vpn_range = r, data_frames = [], map_type = mt, map_perm = perm\<rparr>)"

definition MapArea_from_another :: "MapArea \<Rightarrow> MapArea res" where
  "MapArea_from_another another =
     (case VPNRange_new (vr_l (vpn_range another)) (vr_r (vpn_range another)) of
        Inl e \<Rightarrow> Inl e
      | Inr r \<Rightarrow> Inr \<lparr>vpn_range = r, data_frames = [], map_type = map_type another, map_perm = map_perm another\<rparr>)"

fun btree_insert :: "VirtPageNum \<Rightarrow> 'v \<Rightarrow> (VirtPageNum \<times> 'v) list \<Rightarrow> (VirtPageNum \<times> 'v) list" where
  "btree_insert k v [] = [(k, v)]"
| "btree_insert k v ((k', v') # xs) =
     (if vpn_0 k < vpn_0 k' then (k, v) # (k', v') # xs
      else if k = k' then (k, v) # xs
      else (k', v') # btree_insert k v xs)"

definition btree_remove :: "VirtPageNum \<Rightarrow> (VirtPageNum \<times> 'v) list \<Rightarrow> (VirtPageNum \<times> 'v) list" where
  "btree_remove k xs = filter (\<lambda>p. fst p \<noteq> k) xs"

definition drop_frames :: "PhysPageNum list \<Rightarrow> ('z machine_scheme, unit) prog" where
  "drop_frames frames = for_each frames frame_dealloc"

definition drop_tracker :: "PhysPageNum option \<Rightarrow> ('z machine_scheme, unit) prog" where
  "drop_tracker r = (case r of None \<Rightarrow> ret () | Some frame \<Rightarrow> frame_dealloc frame)"

definition MapArea_map_one ::
    "MapArea \<Rightarrow> PageTable \<Rightarrow> VirtPageNum \<Rightarrow> ('z machine_scheme, MapArea \<times> PageTable) prog" where
  "MapArea_map_one area pt vpn =
     andthen
       (case map_type area of
          Identical \<Rightarrow> ret (PhysPageNum (vpn_0 vpn), area)
        | Framed \<Rightarrow>
            andthen frame_alloc (\<lambda>r. andthen (unwrap r) (\<lambda>frame.
            andthen (drop_tracker (map_of (data_frames area) vpn)) (\<lambda>_.
            ret (frame, area\<lparr>data_frames := btree_insert vpn frame (data_frames area)\<rparr>)))))
       (\<lambda>(ppn, area').
     andthen (PageTable_map pt vpn ppn (map_perm area')) (\<lambda>pt'. ret (area', pt')))"

definition MapArea_unmap_one ::
    "MapArea \<Rightarrow> PageTable \<Rightarrow> VirtPageNum \<Rightarrow> ('z machine_scheme, MapArea) prog" where
  "MapArea_unmap_one area pt vpn =
     andthen
       (if map_type area = Framed then
          andthen (drop_tracker (map_of (data_frames area) vpn)) (\<lambda>_.
          ret (area\<lparr>data_frames := btree_remove vpn (data_frames area)\<rparr>))
        else ret area) (\<lambda>area'.
     andthen (PageTable_unmap pt vpn) (\<lambda>_. ret area'))"

fun map_vpns :: "VirtPageNum list \<Rightarrow> MapArea \<Rightarrow> PageTable \<Rightarrow> ('z machine_scheme, MapArea \<times> PageTable) prog" where
  "map_vpns [] area pt = ret (area, pt)"
| "map_vpns (vpn # vpns) area pt =
     andthen (MapArea_map_one area pt vpn) (\<lambda>(area', pt'). map_vpns vpns area' pt')"

definition MapArea_map :: "MapArea \<Rightarrow> PageTable \<Rightarrow> ('z machine_scheme, MapArea \<times> PageTable) prog" where
  "MapArea_map area pt = map_vpns (vpn_range_iter (vpn_range area)) area pt"

fun unmap_vpns :: "VirtPageNum list \<Rightarrow> MapArea \<Rightarrow> PageTable \<Rightarrow> ('z machine_scheme, MapArea) prog" where
  "unmap_vpns [] area pt = ret area"
| "unmap_vpns (vpn # vpns) area pt =
     andthen (MapArea_unmap_one area pt vpn) (\<lambda>area'. unmap_vpns vpns area' pt)"

definition MapArea_unmap :: "MapArea \<Rightarrow> PageTable \<Rightarrow> ('z machine_scheme, MapArea) prog" where
  "MapArea_unmap area pt = unmap_vpns (vpn_range_iter (vpn_range area)) area pt"

text \<open>\<^verbatim>\<open>copy_data\<close> copies one page per round.\<close>

function copy_data_loop ::
    "PageTable \<Rightarrow> byte list \<Rightarrow> nat \<Rightarrow> VirtPageNum \<Rightarrow> ('z machine_scheme, unit) prog" where
  "copy_data_loop pt data start current_vpn =
     (let src = slice start (min (length data) (start + 4096) - start) data in
      andthen (gets (\<lambda>s. PageTable_translate (mem s) pt current_vpn)) (\<lambda>r.
      andthen (unwrap r) (\<lambda>pte.
      andthen (modifies (\<lambda>s. s\<lparr>mem := store_bytes (ppn_base (pte_ppn pte)) src (mem s)\<rparr>)) (\<lambda>_.
      if start + 4096 \<ge> length data then ret ()
      else copy_data_loop pt data (start + 4096) (vpn_step current_vpn)))))"
  by pat_completeness auto
termination
  by (relation "measure (\<lambda>(pt, data, start, vpn). length data - start)") auto

declare copy_data_loop.simps [simp del]

definition MapArea_copy_data :: "MapArea \<Rightarrow> PageTable \<Rightarrow> byte list \<Rightarrow> ('z machine_scheme, unit) prog" where
  "MapArea_copy_data area pt data =
     andthen (assert_that (map_type area = Framed)) (\<lambda>_.
     copy_data_loop pt data 0 (vr_l (vpn_range area)))"

section \<open>Address spaces\<close>

record MemorySet =
  page_table :: PageTable
  areas :: "MapArea list"

definition MemorySet_new_bare :: "('z machine_scheme, MemorySet) prog" where
  "MemorySet_new_bare = andthen PageTable_new (\<lambda>pt. ret \<lparr>page_table = pt, areas = []\<rparr>)"

definition MemorySet_token :: "MemorySet \<Rightarrow> usize" where
  "MemorySet_token ms = PageTable_token (page_table ms)"

definition MemorySet_push :: "MemorySet \<Rightarrow> MapArea \<Rightarrow> byte list option \<Rightarrow> ('z machine_scheme, MemorySet) prog" where
  "MemorySet_push ms map_area data =
     andthen (MapArea_map map_area (page_table ms)) (\<lambda>(map_area', pt').
     andthen (case data of None \<Rightarrow> ret () | Some d \<Rightarrow> MapArea_copy_data map_area' pt' d) (\<lambda>_.
     ret \<lparr>page_table = pt', areas = areas ms @ [map_area']\<rparr>))"

definition MemorySet_insert_framed_area ::
    "MemorySet \<Rightarrow> VirtAddr \<Rightarrow> VirtAddr \<Rightarrow> u8 \<Rightarrow> ('z machine_scheme, MemorySet) prog" where
  "MemorySet_insert_framed_area ms start_va end_va permission =
     andthen (lift_res (MapArea_new start_va end_va Framed permission)) (\<lambda>area. MemorySet_push ms area None)"

text \<open>\<^verbatim>\<open>areas.remove(idx)\<close> drops the area with whatever frames its map still holds.\<close>

definition MemorySet_remove_area_with_start_vpn ::
    "MemorySet \<Rightarrow> VirtPageNum \<Rightarrow> ('z machine_scheme, MemorySet) prog" where
  "MemorySet_remove_area_with_start_vpn ms start_vpn =
     (case position (\<lambda>area. vr_l (vpn_range area) = start_vpn) (areas ms) of
        None \<Rightarrow> ret ms
      | Some idx \<Rightarrow>
          andthen (MapArea_unmap (areas ms ! idx) (page_table ms)) (\<lambda>area.
          andthen (drop_frames (map snd (data_frames area))) (\<lambda>_.
          ret (ms\<lparr>areas := take idx (areas ms) @ drop (idx + 1) (areas ms)\<rparr>))))"

definition MemorySet_map_trampoline :: "usize \<Rightarrow> MemorySet \<Rightarrow> ('z machine_scheme, MemorySet) prog" where
  "MemorySet_map_trampoline stramp ms =
     andthen (lift_res (VirtPageNum_from_va (VirtAddr_from TRAMPOLINE))) (\<lambda>vpn.
     andthen (lift_res (PhysPageNum_from_pa (PhysAddr_from stramp))) (\<lambda>ppn.
     andthen (PageTable_map (page_table ms) vpn ppn (PTE_R OR PTE_X)) (\<lambda>pt.
     ret (ms\<lparr>page_table := pt\<rparr>))))"

definition MemorySet_translate :: "phys_mem \<Rightarrow> MemorySet \<Rightarrow> VirtPageNum \<Rightarrow> PageTableEntry option" where
  "MemorySet_translate m ms vpn = PageTable_translate m (page_table ms) vpn"

text \<open>\<^verbatim>\<open>recycle_data_pages\<close> clears the areas; the frames of the tables stay with the page table.\<close>

definition MemorySet_recycle_data_pages :: "MemorySet \<Rightarrow> ('z machine_scheme, MemorySet) prog" where
  "MemorySet_recycle_data_pages ms =
     andthen (drop_frames (concat (map (\<lambda>area. map snd (data_frames area)) (areas ms)))) (\<lambda>_.
     ret (ms\<lparr>areas := []\<rparr>))"

text \<open>Dropping a \<^verbatim>\<open>MemorySet\<close>: its fields in order, the page table with its frames, then the areas.\<close>

definition MemorySet_drop :: "MemorySet \<Rightarrow> ('z machine_scheme, unit) prog" where
  "MemorySet_drop ms =
     andthen (drop_frames (pt_frames (page_table ms))) (\<lambda>_.
     drop_frames (concat (map (\<lambda>area. map snd (data_frames area)) (areas ms))))"

section \<open>The kernel's address space\<close>

text \<open>The linker symbols and the memory-mapped registers of the two boards.\<close>

record linker_symbols =
  stext :: usize
  etext :: usize
  srodata :: usize
  erodata :: usize
  sdata :: usize
  edata :: usize
  sbss_with_stack :: usize
  ebss :: usize
  ekernel :: usize
  strampoline :: usize

definition MMIO_qemu :: "(usize \<times> usize) list" where
  "MMIO_qemu = [(0x10001000, 0x1000)]"

definition MMIO_k210 :: "(usize \<times> usize) list" where
  "MMIO_k210 =
     [(0x0C000000, 0x3000), (0x0C200000, 0x1000), (0x38000000, 0x1000), (0x38001000, 0x1000),
      (0x50200000, 0x1000), (0x50240000, 0x1000), (0x502B0000, 0x1000), (0x502D0000, 0x1000),
      (0x502E0000, 0x1000), (0x502F0000, 0x1000), (0x50440000, 0x1000), (0x52000000, 0x1000),
      (0x53000000, 0x1000), (0x54000000, 0x1000)]"

definition push_identical ::
    "usize \<Rightarrow> usize \<Rightarrow> u8 \<Rightarrow> MemorySet \<Rightarrow> ('z machine_scheme, MemorySet) prog" where
  "push_identical start end perm ms =
     andthen (lift_res (MapArea_new (VirtAddr_from start) (VirtAddr_from end) Identical perm)) (\<lambda>area.
     MemorySet_push ms area None)"

fun push_mmio :: "(usize \<times> usize) list \<Rightarrow> MemorySet \<Rightarrow> ('z machine_scheme, MemorySet) prog" where
  "push_mmio [] ms = ret ms"
| "push_mmio ((base, len) # pairs) ms =
     andthen (push_identical base (base + len) (MP_R OR MP_W) ms) (\<lambda>ms'. push_mmio pairs ms')"

definition MemorySet_new_kernel ::
    "linker_symbols \<Rightarrow> (usize \<times> usize) list \<Rightarrow> ('z machine_scheme, MemorySet) prog" where
  "MemorySet_new_kernel ls mmio =
     andthen MemorySet_new_bare (\<lambda>ms.
     andthen (MemorySet_map_trampoline (strampoline ls) ms) (\<lambda>ms.
     andthen (push_identical (stext ls) (etext ls) (MP_R OR MP_X) ms) (\<lambda>ms.
     andthen (push_identical (srodata ls) (erodata ls) MP_R ms) (\<lambda>ms.
     andthen (push_identical (sdata ls) (edata ls) (MP_R OR MP_W) ms) (\<lambda>ms.
     andthen (push_identical (sbss_with_stack ls) (ebss ls) (MP_R OR MP_W) ms) (\<lambda>ms.
     andthen (push_identical (ekernel ls) MEMORY_END (MP_R OR MP_W) ms) (\<lambda>ms.
     push_mmio mmio ms)))))))"

section \<open>Address spaces from ELF images\<close>

text \<open>
  The ELF parser is the \<^verbatim>\<open>xmas_elf\<close> package. The model takes it as the argument \<open>ElfFile_new\<close>, which
  gives what \<^verbatim>\<open>from_elf\<close> asks of a parsed file: the magic bytes, the program headers and the entry
  point. \<^verbatim>\<open>None\<close> stands for the errors the code unwraps.
\<close>

datatype elf_segment_type = Load | OtherSegment

record ProgramHeader =
  ph_type :: "elf_segment_type option"
  ph_virtual_addr :: u64
  ph_mem_size :: u64
  ph_offset :: u64
  ph_file_size :: u64
  ph_is_read :: bool
  ph_is_write :: bool
  ph_is_execute :: bool

record ElfFile =
  elf_magic :: "byte list"
  ph_count :: nat
  program_header :: "nat \<Rightarrow> ProgramHeader option"
  entry_point :: u64

definition elf_perm :: "ProgramHeader \<Rightarrow> u8" where
  "elf_perm ph = MP_U OR (if ph_is_read ph then MP_R else 0) OR (if ph_is_write ph then MP_W else 0)
     OR (if ph_is_execute ph then MP_X else 0)"

text \<open>The subslice \<^verbatim>\<open>&input[from..to]\<close>, which panics when it is not inside the slice.\<close>

definition subslice :: "byte list \<Rightarrow> nat \<Rightarrow> nat \<Rightarrow> byte list res" where
  "subslice xs from to = (if from \<le> to \<and> to \<le> length xs then Inr (slice from (to - from) xs) else Inl IndexOutOfRange)"

fun load_segments ::
    "byte list \<Rightarrow> ElfFile \<Rightarrow> nat list \<Rightarrow> MemorySet \<Rightarrow> VirtPageNum \<Rightarrow> ('z machine_scheme, MemorySet \<times> VirtPageNum) prog" where
  "load_segments input elf [] ms max_end_vpn = ret (ms, max_end_vpn)"
| "load_segments input elf (i # is) ms max_end_vpn =
     andthen (unwrap (program_header elf i)) (\<lambda>ph.
     andthen (unwrap (ph_type ph)) (\<lambda>ty.
     if ty = Load then
       andthen (lift_res (MapArea_new (VirtAddr_from (ph_virtual_addr ph))
           (VirtAddr_from (ph_virtual_addr ph + ph_mem_size ph)) Framed (elf_perm ph))) (\<lambda>map_area.
       andthen (lift_res (subslice input (unat (ph_offset ph)) (unat (ph_offset ph + ph_file_size ph)))) (\<lambda>data.
       andthen (MemorySet_push ms map_area (Some data)) (\<lambda>ms'.
       load_segments input elf is ms' (vr_r (vpn_range map_area)))))
     else load_segments input elf is ms max_end_vpn))"

definition MemorySet_from_elf ::
    "(byte list \<Rightarrow> ElfFile option) \<Rightarrow> usize \<Rightarrow> byte list \<Rightarrow> ('z machine_scheme, MemorySet \<times> usize \<times> usize) prog" where
  "MemorySet_from_elf ElfFile_new stramp elf_data =
     andthen MemorySet_new_bare (\<lambda>ms0.
     andthen (MemorySet_map_trampoline stramp ms0) (\<lambda>ms.
     andthen (unwrap (ElfFile_new elf_data)) (\<lambda>elf.
     andthen (assert_that (elf_magic elf = [0x7f, 0x45, 0x4c, 0x46])) (\<lambda>_.
     andthen (load_segments elf_data elf [0..<ph_count elf] ms (VirtPageNum 0)) (\<lambda>(ms', max_end_vpn).
     ret (ms', va_0 (VirtAddr_from_vpn max_end_vpn) + PAGE_SIZE, entry_point elf))))))"

section \<open>Copying an address space\<close>

fun copy_pages :: "PageTable \<Rightarrow> PageTable \<Rightarrow> VirtPageNum list \<Rightarrow> ('z machine_scheme, unit) prog" where
  "copy_pages src dst [] = ret ()"
| "copy_pages src dst (vpn # vpns) =
     andthen (gets (\<lambda>s. PageTable_translate (mem s) src vpn)) (\<lambda>r.
     andthen (unwrap r) (\<lambda>src_pte.
     andthen (gets (\<lambda>s. PageTable_translate (mem s) dst vpn)) (\<lambda>r'.
     andthen (unwrap r') (\<lambda>dst_pte.
     andthen (modifies (\<lambda>s. s\<lparr>mem := store_bytes (ppn_base (pte_ppn dst_pte))
       (get_bytes_array (mem s) (pte_ppn src_pte)) (mem s)\<rparr>)) (\<lambda>_.
     copy_pages src dst vpns)))))"

fun copy_areas :: "PageTable \<Rightarrow> MapArea list \<Rightarrow> MemorySet \<Rightarrow> ('z machine_scheme, MemorySet) prog" where
  "copy_areas src [] ms = ret ms"
| "copy_areas src (area # rest) ms =
     andthen (lift_res (MapArea_from_another area)) (\<lambda>new_area.
     andthen (MemorySet_push ms new_area None) (\<lambda>ms'.
     andthen (copy_pages src (page_table ms') (vpn_range_iter (vpn_range area))) (\<lambda>_.
     copy_areas src rest ms')))"

definition MemorySet_from_existed_user :: "usize \<Rightarrow> MemorySet \<Rightarrow> ('z machine_scheme, MemorySet) prog" where
  "MemorySet_from_existed_user stramp user_space =
     andthen MemorySet_new_bare (\<lambda>ms0.
     andthen (MemorySet_map_trampoline stramp ms0) (\<lambda>ms.
     copy_areas (page_table user_space) (areas user_space) ms))"

end
