(* ===== verification/Memory_Set_Inv.thy ===== *)
theory Memory_Set_Inv
  imports Memory_Set
begin

unbundle bit_operations_syntax

text \<open>
  The invariant of address spaces and how the operations that add pages change the machine:
  \<open>as_grows\<close> records the frames that went to the page table and to the data pages.
\<close>

section \<open>What other page tables see\<close>

lemma pt_agree:
  assumes "pt_ok s pt" and "\<And>x. x \<in> table_addrs pt \<Longrightarrow> mem s' x = mem s x"
    and "fa_inv (FRAME_ALLOCATOR s')" and "set (pt_frames pt) \<subseteq> fa_used (FRAME_ALLOCATOR s')"
  shows "pt_ok s' pt" and "pt_entry s' pt v = pt_entry s pt v"
proof -
  obtain lv where t: "pt_tree s pt lv" using assms(1) by (auto simp: pt_ok_def)
  have ok: "table_tree (mem s) (set (pt_frames pt)) lv" "root_ppn pt \<in> set (pt_frames pt)" "lv (root_ppn pt) = 0"
    using t by (auto simp: pt_tree_def)
  have ag: "agree_on (set (pt_frames pt)) (mem s) (mem s')"
    unfolding agree_on_def
  proof (intro ballI allI impI)
    fix q i assume q: "q \<in> set (pt_frames pt)" "unat (i :: usize) < 512"
    show "load_pte (mem s') (pte_addr q i) = load_pte (mem s) (pte_addr q i)"
      by (rule load_pte_cong_page[OF _ q(2)]) (use assms(2) q(1) in \<open>auto simp: table_addrs_def\<close>)
  qed
  show "pt_ok s' pt"
    using t table_tree_agree[OF ag ok(1)] assms(3,4) unfolding pt_ok_def pt_tree_def by blast
  show "pt_entry s' pt v = pt_entry s pt v"
    unfolding pt_entry_def using ok by (intro entry_agree[OF ok(1) ag]) (auto simp: path_ok_indexes)
qed

lemma pt_okD:
  assumes "pt_ok s pt"
  shows "fa_inv (FRAME_ALLOCATOR s)" "set (pt_frames pt) \<subseteq> fa_used (FRAME_ALLOCATOR s)" "distinct (pt_frames pt)"
    "root_ppn pt \<in> set (pt_frames pt)"
  using assms by (auto simp: pt_ok_def pt_tree_def)

section \<open>Growth\<close>

definition pages_addrs :: "PhysPageNum list \<Rightarrow> nat set" where
  "pages_addrs fs = (\<Union>f\<in>set fs. page_addrs f)"

lemma pages_disjoint:
  assumes "fa_inv a" and "set fs \<subseteq> fa_used a" and "set gs \<subseteq> fa_used a" and "set fs \<inter> set gs = {}"
  shows "pages_addrs fs \<inter> pages_addrs gs = {}"
proof -
  have "page_addrs f \<inter> page_addrs g = {}" if "f \<in> set fs" "g \<in> set gs" for f g
    using that assms by (intro page_addrs_disjoint) (auto intro: fa_used_ok)
  then show ?thesis unfolding pages_addrs_def by blast
qed

lemma table_addrs_pages: "table_addrs pt = pages_addrs (pt_frames pt)"
  by (simp add: table_addrs_def pages_addrs_def)

text \<open>
  \<open>as_grows s pt s' pt' fs\<close>: from \<open>s\<close> to \<open>s'\<close> the page table got new tables and the frames \<open>fs\<close> were
  allocated for data and are filled with zeros; no other memory changed.
\<close>

definition as_grows ::
    "'z machine_scheme \<Rightarrow> PageTable \<Rightarrow> 'z machine_scheme \<Rightarrow> PageTable \<Rightarrow> PhysPageNum list \<Rightarrow> bool" where
  "as_grows s pt s' pt' fs \<longleftrightarrow> root_ppn pt' = root_ppn pt \<and> machine.more s' = machine.more s \<and>
     fa_inv (FRAME_ALLOCATOR s') \<and>
     (\<exists>new. pt_frames pt' = pt_frames pt @ new \<and> distinct (new @ fs) \<and>
        set (new @ fs) \<inter> fa_used (FRAME_ALLOCATOR s) = {} \<and>
        fa_used (FRAME_ALLOCATOR s') = fa_used (FRAME_ALLOCATOR s) \<union> set (new @ fs) \<and>
        length new + length fs + fa_avail (FRAME_ALLOCATOR s') = fa_avail (FRAME_ALLOCATOR s)) \<and>
     (\<forall>x. x \<notin> table_addrs pt' \<union> pages_addrs fs \<longrightarrow> mem s' x = mem s x) \<and>
     (\<forall>x\<in>pages_addrs fs. mem s' x = 0)"

lemma as_grows_refl: "fa_inv (FRAME_ALLOCATOR s) \<Longrightarrow> as_grows s pt s pt []"
  by (simp add: as_grows_def pages_addrs_def)

lemma as_grows_trans:
  assumes 1: "as_grows s pt s1 pt1 fs" and 2: "as_grows s1 pt1 s2 pt2 gs"
    and pt: "set (pt_frames pt) \<subseteq> fa_used (FRAME_ALLOCATOR s)"
  shows "as_grows s pt s2 pt2 (fs @ gs)"
proof -
  obtain n1 where n1: "pt_frames pt1 = pt_frames pt @ n1" "distinct (n1 @ fs)"
    "set (n1 @ fs) \<inter> fa_used (FRAME_ALLOCATOR s) = {}"
    "fa_used (FRAME_ALLOCATOR s1) = fa_used (FRAME_ALLOCATOR s) \<union> set (n1 @ fs)"
    "length n1 + length fs + fa_avail (FRAME_ALLOCATOR s1) = fa_avail (FRAME_ALLOCATOR s)"
    using 1 by (auto simp: as_grows_def)
  obtain n2 where n2: "pt_frames pt2 = pt_frames pt1 @ n2" "distinct (n2 @ gs)"
    "set (n2 @ gs) \<inter> fa_used (FRAME_ALLOCATOR s1) = {}"
    "fa_used (FRAME_ALLOCATOR s2) = fa_used (FRAME_ALLOCATOR s1) \<union> set (n2 @ gs)"
    "length n2 + length gs + fa_avail (FRAME_ALLOCATOR s2) = fa_avail (FRAME_ALLOCATOR s1)"
    using 2 by (auto simp: as_grows_def)
  have inv: "fa_inv (FRAME_ALLOCATOR s2)" using 2 by (simp add: as_grows_def)
  have new: "\<exists>new. pt_frames pt2 = pt_frames pt @ new \<and> distinct (new @ fs @ gs) \<and>
      set (new @ fs @ gs) \<inter> fa_used (FRAME_ALLOCATOR s) = {} \<and>
      fa_used (FRAME_ALLOCATOR s2) = fa_used (FRAME_ALLOCATOR s) \<union> set (new @ fs @ gs) \<and>
      length new + length (fs @ gs) + fa_avail (FRAME_ALLOCATOR s2) = fa_avail (FRAME_ALLOCATOR s)"
    using n1 n2 by (intro exI[of _ "n1 @ n2"]) auto
  have dis: "pages_addrs fs \<inter> (table_addrs pt2 \<union> pages_addrs gs) = {}"
  proof -
    have "set fs \<inter> set (pt_frames pt2 @ gs) = {}" using n1 n2 pt by auto
    then have "pages_addrs fs \<inter> pages_addrs (pt_frames pt2 @ gs) = {}"
      using n1 n2 pt by (intro pages_disjoint[OF inv]) auto
    then show ?thesis by (simp add: table_addrs_pages pages_addrs_def Int_Un_distrib)
  qed
  have tab: "table_addrs pt1 \<subseteq> table_addrs pt2" using n2(1) by (auto simp: table_addrs_def)
  have "\<forall>x. x \<notin> table_addrs pt2 \<union> pages_addrs (fs @ gs) \<longrightarrow> mem s2 x = mem s x"
    using 1 2 tab by (auto simp: as_grows_def pages_addrs_def)
  moreover have "\<forall>x\<in>pages_addrs (fs @ gs). mem s2 x = 0"
  proof
    fix x assume "x \<in> pages_addrs (fs @ gs)"
    then consider "x \<in> pages_addrs gs" | "x \<in> pages_addrs fs" by (auto simp: pages_addrs_def)
    then show "mem s2 x = 0"
    proof cases
      case 2
      then have "mem s2 x = mem s1 x" using dis \<open>as_grows s1 pt1 s2 pt2 gs\<close> by (auto simp: as_grows_def)
      then show ?thesis using 2 \<open>as_grows s pt s1 pt1 fs\<close> by (auto simp: as_grows_def)
    qed (use 2 in \<open>auto simp: as_grows_def\<close>)
  qed
  ultimately show ?thesis using 1 2 new inv by (simp add: as_grows_def)
qed

text \<open>Pages of frames that were in use before, other than tables of this page table, keep their contents.\<close>

lemma as_grows_old:
  assumes g: "as_grows s pt s' pt' fs" and inv: "set (pt_frames pt) \<subseteq> fa_used (FRAME_ALLOCATOR s)"
    and q: "q \<in> fa_used (FRAME_ALLOCATOR s)" "q \<notin> set (pt_frames pt)" and x: "x \<in> page_addrs q"
  shows "mem s' x = mem s x"
proof -
  obtain n where n: "pt_frames pt' = pt_frames pt @ n" "set (n @ fs) \<inter> fa_used (FRAME_ALLOCATOR s) = {}"
    "fa_used (FRAME_ALLOCATOR s') = fa_used (FRAME_ALLOCATOR s) \<union> set (n @ fs)" "fa_inv (FRAME_ALLOCATOR s')"
    using g by (auto simp: as_grows_def)
  have "pages_addrs [q] \<inter> pages_addrs (pt_frames pt' @ fs) = {}"
    using n inv q by (intro pages_disjoint[OF n(4)]) auto
  then have "x \<notin> table_addrs pt' \<union> pages_addrs fs" using x by (auto simp: table_addrs_pages pages_addrs_def)
  then show ?thesis using g by (simp add: as_grows_def)
qed

lemma as_grows_pt_grows:
  assumes f: "fa_inv a'" "f \<notin> fa_used (FRAME_ALLOCATOR s)" "fa_used a' = insert f (fa_used (FRAME_ALLOCATOR s))"
      "fa_avail (FRAME_ALLOCATOR s) = Suc (fa_avail a')"
    and s1: "s1 = s\<lparr>mem := zero_page f (mem s), FRAME_ALLOCATOR := a'\<rparr>"
    and g: "pt_grows s1 pt s' pt'" and ok: "pt_ok s' pt'" and pt: "set (pt_frames pt) \<subseteq> fa_used (FRAME_ALLOCATOR s)"
  shows "as_grows s pt s' pt' [f]"
proof -
  obtain n where n: "pt_frames pt' = pt_frames pt @ n" "set n \<inter> fa_used a' = {}" "fa_used (FRAME_ALLOCATOR s') = fa_used a' \<union> set n"
    "length n + fa_avail (FRAME_ALLOCATOR s') = fa_avail a'" "machine.more s' = machine.more s" "root_ppn pt' = root_ppn pt"
    "\<And>x. x \<notin> table_addrs pt' \<Longrightarrow> mem s' x = zero_page f (mem s) x"
    using g by (auto simp: pt_grows_def s1)
  note ok' = pt_okD[OF ok]
  have "distinct n" using ok'(3) n(1) by simp
  then have new: "\<exists>new. pt_frames pt' = pt_frames pt @ new \<and> distinct (new @ [f]) \<and>
        set (new @ [f]) \<inter> fa_used (FRAME_ALLOCATOR s) = {} \<and>
        fa_used (FRAME_ALLOCATOR s') = fa_used (FRAME_ALLOCATOR s) \<union> set (new @ [f]) \<and>
        length new + length [f] + fa_avail (FRAME_ALLOCATOR s') = fa_avail (FRAME_ALLOCATOR s)"
    using n f by (intro exI[of _ n]) auto
  have "pages_addrs [f] \<inter> pages_addrs (pt_frames pt') = {}"
    using n f pt ok' by (intro pages_disjoint[OF ok'(1)]) auto
  then have "mem s' x = 0" if "x \<in> page_addrs f" for x
    using that n(7)[of x] by (auto simp: table_addrs_pages pages_addrs_def zero_page_apply)
  moreover have "mem s' x = mem s x" if "x \<notin> table_addrs pt'" "x \<notin> page_addrs f" for x
    using that n(7)[of x] by (simp add: zero_page_apply)
  ultimately show ?thesis
    using new n(5,6) ok'(1) by (simp add: as_grows_def pages_addrs_def)
qed

section \<open>Mapping the pages of an area\<close>

definition one_mapped ::
    "'z machine_scheme \<Rightarrow> PageTable \<Rightarrow> VirtPageNum \<Rightarrow> u8 \<Rightarrow> 'z machine_scheme \<Rightarrow> PageTable \<Rightarrow> PhysPageNum \<Rightarrow> bool" where
  "one_mapped s pt vpn perm s' pt' f \<longleftrightarrow> as_grows s pt s' pt' [f] \<and> pt_ok s' pt' \<and>
     fa_avail (FRAME_ALLOCATOR s) \<le> fa_avail (FRAME_ALLOCATOR s') + 3 \<and>
     (\<forall>v. pt_entry s' pt' v = (if same_page v vpn then pte_new f (perm OR PTE_V) else pt_entry s pt v))"

lemma wp_map_one_framed:
  assumes ok: "pt_ok s pt" and av: "3 \<le> fa_avail (FRAME_ALLOCATOR s)" and un: "\<not> pte_is_valid (pt_entry s pt vpn)"
    and area: "map_type area = Framed" "vpn \<notin> fst ` set (data_frames area)"
    and Q: "\<And>f pt' s'. one_mapped s pt vpn (map_perm area) s' pt' f \<Longrightarrow>
      Q (area\<lparr>data_frames := btree_insert vpn f (data_frames area)\<rparr>, pt') s'"
  shows "wp (MapArea_map_one area pt vpn) Q s"
proof -
  note okD = pt_okD[OF ok]
  have none: "map_of (data_frames area) vpn = None" using area(2) by (simp add: map_of_eq_None_iff)
  have nf: "\<not> fa_full (FRAME_ALLOCATOR s)" using okD(1) av by (simp add: fa_full_avail)
  have main: "wp (PageTable_map pt vpn f (map_perm area)) (\<lambda>pt' s'. one_mapped s pt vpn (map_perm area) s' pt' f)
      (s\<lparr>mem := zero_page f (mem s), FRAME_ALLOCATOR := a'\<rparr>)" (is "wp _ _ ?s1")
    if f: "f \<notin> fa_used (FRAME_ALLOCATOR s)" "fa_used a' = insert f (fa_used (FRAME_ALLOCATOR s))" "fa_inv a'" "ppn_ok f"
      "fa_avail (FRAME_ALLOCATOR s) = Suc (fa_avail a')" for f a'
  proof -
    have "pages_addrs (pt_frames pt) \<inter> pages_addrs [f] = {}"
      using okD(2) f by (intro pages_disjoint[OF f(3)]) auto
    then have same: "mem ?s1 x = mem s x" if "x \<in> table_addrs pt" for x
      using that by (auto simp: zero_page_apply table_addrs_pages pages_addrs_def)
    have ok1: "pt_ok ?s1 pt" and e1: "\<And>v. pt_entry ?s1 pt v = pt_entry s pt v"
      by (rule pt_agree[OF ok same], use okD(2) f in auto)+
    have av1: "fa_avail (FRAME_ALLOCATOR s) \<le> fa_avail (FRAME_ALLOCATOR s') + 3"
      if "pt_grows ?s1 pt s' pt'" "length (pt_frames pt') \<le> length (pt_frames pt) + 2" for s' pt'
      using that f(5) by (auto simp: pt_grows_def)
    show ?thesis
      unfolding one_mapped_def
    proof (rule wp_mono[OF wp_PageTable_map[OF ok1]])
      show "2 \<le> fa_avail (FRAME_ALLOCATOR ?s1)" "\<not> pte_is_valid (pt_entry ?s1 pt vpn)" using av f(5) un e1 by auto
    qed (use e1 av1 as_grows_pt_grows[OF f(3,1,2,5) refl _ _ okD(2)] in auto)
  qed
  show ?thesis
    unfolding MapArea_map_one_def using nf area none
    by (auto simp: drop_tracker_def Q intro!: wp_frame_alloc[OF okD(1)] wp_mono[OF main])
qed

lemma btree_insert_last:
  "\<forall>k'\<in>fst ` set xs. vpn_0 k' < vpn_0 k \<Longrightarrow> btree_insert k v xs = xs @ [(k, v)]"
  by (induction k v xs rule: btree_insert.induct) (auto simp: not_less_iff_gr_or_eq)

text \<open>Mapping a list of unmapped pages in ascending order.\<close>

definition pages_ok :: "VirtPageNum list \<Rightarrow> bool" where
  "pages_ok vpns \<longleftrightarrow> sorted_wrt (\<lambda>a b. vpn_0 a < vpn_0 b) vpns \<and> (\<forall>v\<in>set vpns. unat (vpn_0 v) < 2 ^ 27)"

lemma same_page_eq: "unat (vpn_0 v) < 2 ^ 27 \<Longrightarrow> unat (vpn_0 w) < 2 ^ 27 \<Longrightarrow> same_page v w \<longleftrightarrow> v = w"
  unfolding same_page_def word_unat_eq_iff unat_take_bit by (auto simp: VirtPageNum.expand word_unat_eq_iff)

definition all_mapped ::
    "'z machine_scheme \<Rightarrow> PageTable \<Rightarrow> VirtPageNum list \<Rightarrow> u8 \<Rightarrow> 'z machine_scheme \<Rightarrow> PageTable \<Rightarrow> PhysPageNum list \<Rightarrow> bool" where
  "all_mapped s pt vpns perm s' pt' fs \<longleftrightarrow> length fs = length vpns \<and> as_grows s pt s' pt' fs \<and> pt_ok s' pt' \<and>
     fa_avail (FRAME_ALLOCATOR s) \<le> fa_avail (FRAME_ALLOCATOR s') + 3 * length vpns \<and>
     (\<forall>(v, f)\<in>set (zip vpns fs). pt_entry s' pt' v = pte_new f (perm OR PTE_V)) \<and>
     (\<forall>v. (\<forall>w\<in>set vpns. \<not> same_page v w) \<longrightarrow> pt_entry s' pt' v = pt_entry s pt v)"

lemma all_mapped_Nil: "pt_ok s pt \<Longrightarrow> all_mapped s pt [] perm s pt []"
  by (simp add: all_mapped_def as_grows_refl pt_okD)

lemma all_mapped_Cons:
  assumes one: "one_mapped s pt vpn perm s1 pt1 f" and rest: "all_mapped s1 pt1 vpns perm s' pt' fs"
    and ok: "pt_ok s pt" "pages_ok (vpn # vpns)"
  shows "all_mapped s pt (vpn # vpns) perm s' pt' (f # fs)"
proof -
  have ne: "\<not> same_page vpn w" if "w \<in> set vpns" for w
    using ok(2) that same_page_eq[of vpn w] by (auto simp: pages_ok_def)
  have "as_grows s pt s' pt' (f # fs)"
    using as_grows_trans[of s pt s1 pt1 "[f]" s' pt' fs] one rest pt_okD(2)[OF ok(1)]
    by (simp add: one_mapped_def all_mapped_def)
  moreover have "pt_entry s' pt' vpn = pte_new f (perm OR PTE_V)"
    using one rest ne by (simp add: one_mapped_def all_mapped_def same_page_def)
  ultimately show ?thesis
    using one rest unfolding one_mapped_def all_mapped_def by auto
qed

lemma wp_map_vpns_framed:
  assumes "pt_ok s pt" and "3 * length vpns \<le> fa_avail (FRAME_ALLOCATOR s)" and "pages_ok vpns"
    and "\<And>v. v \<in> set vpns \<Longrightarrow> \<not> pte_is_valid (pt_entry s pt v)"
    and "map_type area = Framed" and "\<And>k v. k \<in> fst ` set (data_frames area) \<Longrightarrow> v \<in> set vpns \<Longrightarrow> vpn_0 k < vpn_0 v"
    and "\<And>fs pt' s'. all_mapped s pt vpns (map_perm area) s' pt' fs \<Longrightarrow>
      Q (area\<lparr>data_frames := data_frames area @ zip vpns fs\<rparr>, pt') s'"
  shows "wp (map_vpns vpns area pt) Q s"
  using assms
proof (induction vpns arbitrary: area pt s Q)
  case Nil
  then show ?case using all_mapped_Nil by fastforce
next
  case (Cons vpn vpns)
  have srt: "vpn_0 vpn < vpn_0 v" "\<not> same_page v vpn" if "v \<in> set vpns" for v
    using Cons.prems(3) that same_page_eq[of v vpn] by (auto simp: pages_ok_def)
  have ins: "btree_insert vpn f (data_frames area) = data_frames area @ [(vpn, f)]" for f
    using Cons.prems(6)[of _ vpn] by (intro btree_insert_last) auto
  show ?case
    unfolding map_vpns.simps wp_andthen
  proof (rule wp_map_one_framed[OF Cons.prems(1)], goal_cases)
    case (5 f pt1 s1)
    note one = 5[unfolded one_mapped_def]
    show ?case
      unfolding prod.case
    proof (rule Cons.IH, goal_cases)
      case (7 s' pt' fs)
      then show ?case
        using Cons.prems(7)[where fs = "f # fs" and pt' = pt' and s' = s'] all_mapped_Cons[OF 5 _ Cons.prems(1,3), of s' pt' fs] by (simp add: ins)
    qed (use Cons.prems srt one in \<open>auto simp: ins pages_ok_def\<close>)
  qed (use Cons.prems(2,4,5) Cons.prems(6)[of vpn vpn] in auto)
qed

end
