(* ===== verification/Address_Space.thy ===== *)
theory Address_Space
  imports Memory_Set_Inv
begin

unbundle bit_operations_syntax

text \<open>
  What the operations of an address space achieve: a new area gets its own zeroed frames, and the copy that
  \<^verbatim>\<open>fork\<close> makes has the same contents in frames of its own.
\<close>

section \<open>New areas\<close>

lemma pages_ok_range:
  assumes "unat (vpn_0 (vr_l r)) \<le> unat (vpn_0 (vr_r r))" and "unat (vpn_0 (vr_r r)) \<le> 2 ^ 27"
  shows "pages_ok (vpn_range_iter r)"
proof -
  have "sorted_wrt (<) (map (\<lambda>v. unat (vpn_0 v)) (vpn_range_iter r))"
    unfolding vpn_range_iter_upt[OF assms(1)] by (simp add: sorted_wrt_upt)
  then have "sorted_wrt (\<lambda>a b. vpn_0 a < vpn_0 b) (vpn_range_iter r)"
    by (simp add: sorted_wrt_map word_less_nat_alt)
  moreover have "\<forall>v\<in>set (vpn_range_iter r). unat (vpn_0 v) < 2 ^ 27"
    using set_vpn_range_iter[OF assms(1)] assms(2) by auto
  ultimately show ?thesis by (simp add: pages_ok_def)
qed

lemma wp_push_framed:
  assumes "pt_ok s (page_table ms)" and "3 * length (vpn_range_iter (vpn_range area)) \<le> fa_avail (FRAME_ALLOCATOR s)"
    and "pages_ok (vpn_range_iter (vpn_range area))"
    and "\<And>v. v \<in> set (vpn_range_iter (vpn_range area)) \<Longrightarrow> \<not> pte_is_valid (pt_entry s (page_table ms) v)"
    and "map_type area = Framed" and "data_frames area = []"
    and "\<And>fs pt' s'. all_mapped s (page_table ms) (vpn_range_iter (vpn_range area)) (map_perm area) s' pt' fs \<Longrightarrow>
      Q \<lparr>page_table = pt', areas = areas ms @ [area\<lparr>data_frames := zip (vpn_range_iter (vpn_range area)) fs\<rparr>]\<rparr> s'"
  shows "wp (MemorySet_push ms area None) Q s"
  unfolding MemorySet_push_def MapArea_map_def wp_andthen
  by (rule wp_map_vpns_framed[OF assms(1-5)]) (use assms(6,7) in auto)

definition touched_pages :: "VirtAddr \<Rightarrow> VirtAddr \<Rightarrow> VirtPageNum list" where
  "touched_pages start_va end_va = vpn_range_iter \<lparr>vr_l = va_floor start_va, vr_r = va_ceil end_va\<rparr>"

lemma touched_pages_mem:
  assumes "va_0 start_va \<le> va_0 end_va" and "unat (va_0 end_va) \<le> 2 ^ 39 - 4096"
  shows "v \<in> set (touched_pages start_va end_va) \<longleftrightarrow>
      unat (va_0 start_va) div 4096 \<le> unat (vpn_0 v) \<and> unat (vpn_0 v) < (unat (va_0 end_va) + 4095) div 4096"
    and "length (touched_pages start_va end_va) = (unat (va_0 end_va) + 4095) div 4096 - unat (va_0 start_va) div 4096"
    and "pages_ok (touched_pages start_va end_va)" and "vpn_0 (va_floor start_va) \<le> vpn_0 (va_ceil end_va)"
proof -
  let ?r = "\<lparr>vr_l = va_floor start_va, vr_r = va_ceil end_va\<rparr>"
  have l: "unat (vpn_0 (va_floor start_va)) = unat (va_0 start_va) div 4096" by (rule unat_va_floor)
  have e: "unat (vpn_0 (va_ceil end_va)) = (unat (va_0 end_va) + 4095) div 4096" by (rule unat_va_ceil) (use assms(2) in simp)
  have le: "unat (vpn_0 (vr_l ?r)) \<le> unat (vpn_0 (vr_r ?r))"
    using assms(1) by (auto simp: l e word_le_nat_alt intro!: div_le_mono)
  then show "vpn_0 (va_floor start_va) \<le> vpn_0 (va_ceil end_va)" by (simp add: word_le_nat_alt)
  show "v \<in> set (touched_pages start_va end_va) \<longleftrightarrow>
      unat (va_0 start_va) div 4096 \<le> unat (vpn_0 v) \<and> unat (vpn_0 v) < (unat (va_0 end_va) + 4095) div 4096"
    using set_vpn_range_iter[OF le, of v] by (simp add: touched_pages_def l e)
  have "length (vpn_range_iter ?r) = unat (vpn_0 (va_ceil end_va)) - unat (vpn_0 (va_floor start_va))"
    using arg_cong[OF vpn_range_iter_upt[OF le], of length] by simp
  then show "length (touched_pages start_va end_va) = (unat (va_0 end_va) + 4095) div 4096 - unat (va_0 start_va) div 4096" unfolding touched_pages_def l e .
  show "pages_ok (touched_pages start_va end_va)" unfolding touched_pages_def
    by (rule pages_ok_range[OF le]) (use assms(2) in \<open>simp add: e\<close>)
qed

lemma insert_framed_area_run:
  assumes "pt_ok s (page_table ms)" and "va_0 start_va \<le> va_0 end_va" and "unat (va_0 end_va) \<le> 2 ^ 39 - 4096"
    and "\<And>v. v \<in> set (touched_pages start_va end_va) \<Longrightarrow> pt_maps s (page_table ms) v = None"
    and "3 * ((unat (va_0 end_va) + 4095) div 4096 - unat (va_0 start_va) div 4096) \<le> fa_avail (FRAME_ALLOCATOR s)"
  shows "\<exists>ms' s' fs. MemorySet_insert_framed_area ms start_va end_va perm s = Inr (ms', s') \<and>
    all_mapped s (page_table ms) (touched_pages start_va end_va) perm s' (page_table ms') fs \<and>
    areas ms' = areas ms @ [\<lparr>vpn_range = \<lparr>vr_l = va_floor start_va, vr_r = va_ceil end_va\<rparr>,
      data_frames = zip (touched_pages start_va end_va) fs, map_type = Framed, map_perm = perm\<rparr>]"
proof -
  note t = touched_pages_mem[OF assms(2,3)]
  have un: "\<not> pte_is_valid (pt_entry s (page_table ms) v)" if "v \<in> set (touched_pages start_va end_va)" for v
    using assms(4)[OF that] by (auto simp: pt_maps_entry split: if_splits)
  define area where "area = \<lparr>vpn_range = \<lparr>vr_l = va_floor start_va, vr_r = va_ceil end_va\<rparr>, data_frames = [],
    map_type = Framed, map_perm = perm\<rparr>"
  have tp: "vpn_range_iter (vpn_range area) = touched_pages start_va end_va" by (simp add: area_def touched_pages_def)
  have new: "MapArea_new start_va end_va Framed perm = Inr area"
    using t(4) by (simp add: MapArea_new_def VPNRange_new_def area_def)
  have "wp (MemorySet_insert_framed_area ms start_va end_va perm) (\<lambda>ms' s'. \<exists>fs.
      all_mapped s (page_table ms) (touched_pages start_va end_va) perm s' (page_table ms') fs \<and>
      areas ms' = areas ms @ [area\<lparr>data_frames := zip (touched_pages start_va end_va) fs\<rparr>]) s"
    unfolding MemorySet_insert_framed_area_def wp_andthen new wp_lift_res
  proof (intro exI conjI, rule refl, rule wp_push_framed[OF assms(1)], goal_cases)
    case (6 fs pt' s')
    then show ?case unfolding tp by (auto simp: area_def)
  qed (use assms(5) t un in \<open>auto simp: tp, simp_all add: area_def\<close>)
  then show ?thesis by (simp add: wp_runs area_def)
qed

text \<open>
  C32: Inserting a framed area maps every page that the byte range touches to a frame of its own, which was not in
  use, is filled with zeros and carries the requested permissions; every other mapping is as before. It
  needs that none of these pages is mapped, and three free frames per page: the page itself and at most two
  new tables.
\<close>

theorem insert_framed_area_correct:
  assumes "pt_ok s (page_table ms)" and "va_0 start_va \<le> va_0 end_va" and "unat (va_0 end_va) \<le> 2 ^ 39 - 4096"
    and "\<And>v. unat (va_0 start_va) div 4096 \<le> unat (vpn_0 v) \<Longrightarrow> unat (vpn_0 v) < (unat (va_0 end_va) + 4095) div 4096 \<Longrightarrow>
      pt_maps s (page_table ms) v = None"
    and "3 * ((unat (va_0 end_va) + 4095) div 4096 - unat (va_0 start_va) div 4096) \<le> fa_avail (FRAME_ALLOCATOR s)"
  shows "\<exists>vpns fs ms' s'. MemorySet_insert_framed_area ms start_va end_va perm s = Inr (ms', s') \<and>
    pt_ok s' (page_table ms') \<and> length fs = length vpns \<and>
    (\<forall>v. v \<in> set vpns \<longleftrightarrow> unat (va_0 start_va) div 4096 \<le> unat (vpn_0 v) \<and> unat (vpn_0 v) < (unat (va_0 end_va) + 4095) div 4096) \<and>
    distinct fs \<and> set fs \<inter> fa_used (FRAME_ALLOCATOR s) = {} \<and>
    (\<forall>i<length vpns. pt_maps s' (page_table ms') (vpns ! i) = Some (pte_new (fs ! i) (perm OR PTE_V)) \<and>
       (\<forall>x\<in>page_addrs (fs ! i). mem s' x = 0)) \<and>
    (\<forall>v. (\<forall>w\<in>set vpns. \<not> same_page v w) \<longrightarrow> pt_maps s' (page_table ms') v = pt_maps s (page_table ms) v) \<and>
    areas ms' = areas ms @ [\<lparr>vpn_range = \<lparr>vr_l = va_floor start_va, vr_r = va_ceil end_va\<rparr>, data_frames = zip vpns fs,
      map_type = Framed, map_perm = perm\<rparr>]"
proof -
  note t = touched_pages_mem[OF assms(2,3)]
  let ?vs = "touched_pages start_va end_va"
  obtain ms' s' fs where run: "MemorySet_insert_framed_area ms start_va end_va perm s = Inr (ms', s')"
    and m: "all_mapped s (page_table ms) ?vs perm s' (page_table ms') fs"
    and ar: "areas ms' = areas ms @ [\<lparr>vpn_range = \<lparr>vr_l = va_floor start_va, vr_r = va_ceil end_va\<rparr>,
      data_frames = zip ?vs fs, map_type = Framed, map_perm = perm\<rparr>]"
    using insert_framed_area_run[OF assms(1-3) _ assms(5)] assms(4) t(1) by blast
  have g: "pt_ok s' (page_table ms')" "length fs = length ?vs" "distinct fs" "set fs \<inter> fa_used (FRAME_ALLOCATOR s) = {}"
    "\<And>f x. f \<in> set fs \<Longrightarrow> x \<in> page_addrs f \<Longrightarrow> mem s' x = 0"
    using m by (auto simp: all_mapped_def as_grows_def pages_addrs_def)
  have new_maps: "pt_maps s' (page_table ms') (?vs ! i) = Some (pte_new (fs ! i) (perm OR PTE_V))" if "i < length ?vs" for i
  proof -
    have "(?vs ! i, fs ! i) \<in> set (zip ?vs fs)" using that g(2) by (auto simp: set_zip)
    then have "pt_entry s' (page_table ms') (?vs ! i) = pte_new (fs ! i) (perm OR PTE_V)"
      using m unfolding all_mapped_def by blast
    then show ?thesis by (simp add: pt_maps_entry)
  qed
  have old_maps: "pt_maps s' (page_table ms') v = pt_maps s (page_table ms) v" if "\<forall>w\<in>set ?vs. \<not> same_page v w" for v
    using m that by (simp add: all_mapped_def pt_maps_entry)
  have zero: "mem s' x = 0" if "i < length ?vs" "x \<in> page_addrs (fs ! i)" for i x
    by (rule g(5)[OF nth_mem that(2)]) (use that(1) g(2) in simp)
  show ?thesis
    by (intro exI[of _ ?vs] exI[of _ fs] exI[of _ ms'] exI[of _ s'] conjI)
      (use run g(1-4) zero t(1) new_maps old_maps ar in \<open>auto\<close>)
qed

text \<open>The kernel stack with number 0, below the trampoline page.\<close>

theorem insert_framed_area_correct_witness:
  "\<exists>vpns fs ms' s'. MemorySet_insert_framed_area \<lparr>page_table = demo_pt, areas = []\<rparr> (VirtAddr 0x7FFFFFD000) (VirtAddr 0x7FFFFFF000) MP_R demo_machine =
      Inr (ms', s') \<and> pt_ok s' (page_table ms') \<and> length fs = length vpns \<and> distinct fs \<and>
      (\<forall>i<length vpns. pt_maps s' (page_table ms') (vpns ! i) = Some (pte_new (fs ! i) (MP_R OR PTE_V)))"
proof -
  let ?ms = "\<lparr>page_table = demo_pt, areas = []\<rparr>"
  have ok: "pt_ok demo_machine (page_table ?ms)" and none: "\<And>v. pt_maps demo_machine (page_table ?ms) v = None"
    and av: "3 * ((unat (va_0 (VirtAddr 0x7FFFFFF000)) + 4095) div 4096 - unat (va_0 (VirtAddr 0x7FFFFFD000)) div 4096) \<le> fa_avail (FRAME_ALLOCATOR demo_machine)"
    using demo_ok by simp_all
  have va: "va_0 (VirtAddr 0x7FFFFFD000) \<le> va_0 (VirtAddr 0x7FFFFFF000)" "unat (va_0 (VirtAddr 0x7FFFFFF000)) \<le> 2 ^ 39 - 4096"
    by (simp_all add: word_le_nat_alt)
  show ?thesis using insert_framed_area_correct[OF ok va none av, of MP_R] by (elim exE conjE) blast
qed

end
