(* ===== verification/Fork_Copy.thy ===== *)
theory Fork_Copy
  imports Address_Space
begin

unbundle bit_operations_syntax

text \<open>
  The copy of an address space that \<^verbatim>\<open>fork\<close> makes (\<^verbatim>\<open>MemorySet::from_existed_user\<close>): every page of every area of the
  parent has a page of its own in the child with the same contents and permissions, and the parent keeps
  its mappings and contents.
\<close>

section \<open>The state while a copy is made\<close>

text \<open>
  \<open>fork_state s0 s cpt\<close>: the copy started in \<open>s0\<close>; in \<open>s\<close> the child has the page table \<open>cpt\<close>, whose frames were not in
  use in \<open>s0\<close>, and the pages of the frames in use in \<open>s0\<close> are as they were.
\<close>

definition fork_state :: "'z machine_scheme \<Rightarrow> 'z machine_scheme \<Rightarrow> PageTable \<Rightarrow> bool" where
  "fork_state s0 s cpt \<longleftrightarrow> pt_ok s cpt \<and> fa_used (FRAME_ALLOCATOR s0) \<subseteq> fa_used (FRAME_ALLOCATOR s) \<and>
     set (pt_frames cpt) \<inter> fa_used (FRAME_ALLOCATOR s0) = {} \<and> machine.more s = machine.more s0 \<and>
     (\<forall>q\<in>fa_used (FRAME_ALLOCATOR s0). \<forall>x\<in>page_addrs q. mem s x = mem s0 x)"

definition same_contents :: "phys_mem \<Rightarrow> PhysPageNum \<Rightarrow> phys_mem \<Rightarrow> PhysPageNum \<Rightarrow> bool" where
  "same_contents m g m0 f \<longleftrightarrow> (\<forall>i<4096. m (ppn_base g + i) = m0 (ppn_base f + i))"

text \<open>The pages copied so far: page, permissions and the child's frame.\<close>

definition copied :: "'z machine_scheme \<Rightarrow> PageTable \<Rightarrow> 'z machine_scheme \<Rightarrow> PageTable \<Rightarrow>
    ((VirtPageNum \<times> u8) \<times> PhysPageNum) list \<Rightarrow> bool" where
  "copied s0 src s cpt D \<longleftrightarrow> distinct (map snd D) \<and>
     (\<forall>((v, perm), g)\<in>set D. pt_entry s cpt v = pte_new g (perm OR PTE_V) \<and>
        g \<in> fa_used (FRAME_ALLOCATOR s) - fa_used (FRAME_ALLOCATOR s0) \<and> g \<notin> set (pt_frames cpt) \<and>
        same_contents (mem s) g (mem s0) (pte_ppn (pt_entry s0 src v)))"

text \<open>A parent page that can be copied.\<close>

definition source_ok :: "'z machine_scheme \<Rightarrow> PageTable \<Rightarrow> VirtPageNum \<Rightarrow> bool" where
  "source_ok s0 src v \<longleftrightarrow> pte_is_valid (pt_entry s0 src v) \<and> pte_ppn (pt_entry s0 src v) \<in> fa_used (FRAME_ALLOCATOR s0)"

lemma fork_source:
  assumes "fork_state s0 s cpt" and "pt_ok s0 src"
  shows "pt_ok s src" "pt_entry s src v = pt_entry s0 src v"
proof -
  have u: "set (pt_frames src) \<subseteq> fa_used (FRAME_ALLOCATOR s0)" using pt_okD(2)[OF assms(2)] .
  have m: "mem s x = mem s0 x" if "x \<in> table_addrs src" for x
    using that u assms(1) by (auto simp: table_addrs_def fork_state_def)
  have "fa_inv (FRAME_ALLOCATOR s)" "set (pt_frames src) \<subseteq> fa_used (FRAME_ALLOCATOR s)"
    using u assms(1) pt_okD(1)[of s cpt] by (auto simp: fork_state_def)
  then show "pt_ok s src" "pt_entry s src v = pt_entry s0 src v"
    using pt_agree[OF assms(2) m] by auto
qed

lemma translate_entry:
  "pte_is_valid (pt_entry s pt v) \<Longrightarrow> PageTable_translate (mem s) pt v = Some (pt_entry s pt v)"
  using pt_maps_entry[of s pt v] by (auto simp: pt_maps_def split: option.splits if_splits)

lemma page_addrs_base: "x \<in> page_addrs f \<longleftrightarrow> (\<exists>i<4096. x = ppn_base f + i)"
  by (auto simp: page_addrs_def intro!: exI[of _ "x - ppn_base f"])

text \<open>Writing a page of the child that is not a table.\<close>

lemma write_data_page:
  assumes fs: "fork_state s0 s cpt" and g: "g \<in> fa_used (FRAME_ALLOCATOR s) - fa_used (FRAME_ALLOCATOR s0)" "g \<notin> set (pt_frames cpt)"
    and len: "length bs = 4096"
  defines "s' \<equiv> s\<lparr>mem := store_bytes (ppn_base g) bs (mem s)\<rparr>"
  shows "fork_state s0 s' cpt" "pt_entry s' cpt v = pt_entry s cpt v"
    "i < 4096 \<Longrightarrow> mem s' (ppn_base g + i) = bs ! i"
    "h \<in> fa_used (FRAME_ALLOCATOR s) \<Longrightarrow> h \<noteq> g \<Longrightarrow> same_contents (mem s') h (mem s) h"
proof -
  note ok = pt_okD[OF fs[unfolded fork_state_def, THEN conjunct1]]
  have other: "mem s' x = mem s x" if "h \<in> fa_used (FRAME_ALLOCATOR s)" "h \<noteq> g" "x \<in> page_addrs h" for x h
  proof -
    have "page_addrs h \<inter> page_addrs g = {}"
      using that g ok(1) by (intro page_addrs_disjoint) (auto intro: fa_used_ok)
    then show ?thesis using that(3) len by (auto simp: s'_def store_bytes_def page_addrs_def)
  qed
  have tab: "mem s' x = mem s x" if xt: "x \<in> table_addrs cpt" for x
  proof -
    obtain q where "q \<in> set (pt_frames cpt)" "x \<in> page_addrs q" using xt by (auto simp: table_addrs_def)
    then show ?thesis using other[of q x] ok(2) g(2) by auto
  qed
  have fa: "FRAME_ALLOCATOR s' = FRAME_ALLOCATOR s" by (simp add: s'_def)
  have agree: "pt_ok s' cpt" "\<And>v. pt_entry s' cpt v = pt_entry s cpt v"
    using pt_agree[of s cpt s'] fs tab ok by (auto simp: fork_state_def fa)
  show "pt_entry s' cpt v = pt_entry s cpt v" by (rule agree(2))
  show "i < 4096 \<Longrightarrow> mem s' (ppn_base g + i) = bs ! i" using len by (simp add: s'_def store_bytes_def)
  show "h \<in> fa_used (FRAME_ALLOCATOR s) \<Longrightarrow> h \<noteq> g \<Longrightarrow> same_contents (mem s') h (mem s) h"
    using other[of h] by (auto simp: same_contents_def page_addrs_base)
  have "mem s' x = mem s0 x" if "q \<in> fa_used (FRAME_ALLOCATOR s0)" "x \<in> page_addrs q" for q x
    using that other[of q x] g(1) fs by (auto simp: fork_state_def)
  moreover have "machine.more s' = machine.more s" by (simp add: s'_def)
  ultimately show "fork_state s0 s' cpt" using fs agree(1) by (auto simp: fork_state_def fa)
qed

lemma same_contents_trans: "same_contents m1 g m2 h \<Longrightarrow> same_contents m2 h m3 k \<Longrightarrow> same_contents m1 g m3 k"
  by (simp add: same_contents_def)

section \<open>Copying the pages of an area\<close>

lemma wp_copy_pages:
  assumes "fork_state s0 s cpt" and "pt_ok s0 src" and "copied s0 src s cpt D"
    and "distinct (map snd (D @ Z))"
    and "\<And>v perm g. ((v, perm), g) \<in> set Z \<Longrightarrow> pt_entry s cpt v = pte_new g (perm OR PTE_V) \<and> source_ok s0 src v \<and>
      g \<in> fa_used (FRAME_ALLOCATOR s) - fa_used (FRAME_ALLOCATOR s0) \<and> g \<notin> set (pt_frames cpt)"
    and "\<And>s'. fork_state s0 s' cpt \<Longrightarrow> copied s0 src s' cpt (D @ Z) \<Longrightarrow> FRAME_ALLOCATOR s' = FRAME_ALLOCATOR s \<Longrightarrow>
      (\<And>v. pt_entry s' cpt v = pt_entry s cpt v) \<Longrightarrow> Q () s'"
  shows "wp (copy_pages src cpt (map (fst \<circ> fst) Z)) Q s"
  using assms
proof (induction Z arbitrary: s D)
  case Nil
  then show ?case by simp
next
  case (Cons z Z)
  obtain v perm g where z: "z = ((v, perm), g)" by (metis prod.collapse)
  define f where "f = pte_ppn (pt_entry s0 src v)"
  define s' where "s' = s\<lparr>mem := store_bytes (ppn_base g) (get_bytes_array (mem s) f) (mem s)\<rparr>"
  have zf: "pt_entry s cpt v = pte_new g (perm OR PTE_V)" "source_ok s0 src v"
      "g \<in> fa_used (FRAME_ALLOCATOR s) - fa_used (FRAME_ALLOCATOR s0)" "g \<notin> set (pt_frames cpt)"
    using Cons.prems(5)[of v perm g] z by auto
  have len: "length (get_bytes_array (mem s) f) = 4096" by (simp add: get_bytes_array_def)
  note w = write_data_page[OF Cons.prems(1) zf(3,4) len, folded s'_def]
  have fa: "FRAME_ALLOCATOR s' = FRAME_ALLOCATOR s" by (simp add: s'_def)
  have okg: "ppn_ok g" using zf(3) Cons.prems(1) by (auto simp: fork_state_def dest: pt_okD(1) intro: fa_used_ok)
  have src: "PageTable_translate (mem s) src v = Some (pt_entry s0 src v)"
    using translate_entry[of s src v] fork_source(2)[OF Cons.prems(1,2), of v] zf(2) by (simp add: source_ok_def)
  have dst: "PageTable_translate (mem s) cpt v = Some (pte_new g (perm OR PTE_V))"
    using translate_entry[of s cpt v] zf(1) by simp
  have fc: "same_contents (mem s) f (mem s0) f"
    using Cons.prems(1) zf(2) by (auto simp: fork_state_def source_ok_def f_def same_contents_def page_addrs_base)
  have "same_contents (mem s') g (mem s) f" using w(3) by (simp add: same_contents_def get_bytes_array_def)
  then have gc: "same_contents (mem s') g (mem s0) f" using fc same_contents_trans by blast
  have keep: "same_contents (mem s') h (mem s0) k"
    if h: "h \<in> fa_used (FRAME_ALLOCATOR s)" "h \<noteq> g" "same_contents (mem s) h (mem s0) k" for h k
    using same_contents_trans[OF w(4)[OF h(1,2)] h(3)] .
  have gD: "g \<notin> set (map snd D)" using Cons.prems(4) z by auto
  have c: "copied s0 src s' cpt (D @ [z])"
    unfolding copied_def
  proof (intro conjI ballI)
    show "distinct (map snd (D @ [z]))" using Cons.prems(4) by auto
    fix d assume d: "d \<in> set (D @ [z])"
    obtain v' perm' h where d': "d = ((v', perm'), h)" by (metis prod.collapse)
    show "(\<lambda>((v, perm), g). pt_entry s' cpt v = pte_new g (perm OR PTE_V) \<and>
        g \<in> fa_used (FRAME_ALLOCATOR s') - fa_used (FRAME_ALLOCATOR s0) \<and> g \<notin> set (pt_frames cpt) \<and>
        same_contents (mem s') g (mem s0) (pte_ppn (pt_entry s0 src v))) d"
    proof (cases "d \<in> set D")
      case True
      then have "h \<noteq> g" using gD d' by force
      then show ?thesis using True Cons.prems(3) keep[of h] d' by (auto simp: copied_def w(2) fa)
    next
      case False
      then show ?thesis using d z zf gc by (simp add: w(2) fa f_def)
    qed
  qed
  have run: "wp (copy_pages src cpt (map (fst \<circ> fst) (z # Z))) Q s = wp (copy_pages src cpt (map (fst \<circ> fst) Z)) Q s'"
    using src dst okg by (simp add: z s'_def f_def)
  show ?case unfolding run
    by (rule Cons.IH[OF w(1) Cons.prems(2) c]) (use Cons.prems(4-6) w(2) fa in auto)
qed

section \<open>Copying the areas\<close>

lemma fork_state_grows:
  assumes f: "fork_state s0 s cpt" and m: "all_mapped s cpt vpns perm s' pt' fs" and c: "copied s0 src s cpt D"
    and d: "\<And>v w. v \<in> set (map fst (map fst D)) \<Longrightarrow> w \<in> set vpns \<Longrightarrow> \<not> same_page v w"
  shows "fork_state s0 s' pt'" "copied s0 src s' pt' D"
    "distinct (map snd D @ fs)" "set fs \<subseteq> fa_used (FRAME_ALLOCATOR s') - fa_used (FRAME_ALLOCATOR s0)"
    "set fs \<inter> set (pt_frames pt') = {}"
proof -
  have g: "as_grows s cpt s' pt' fs" and ok: "pt_ok s' pt'" using m by (auto simp: all_mapped_def)
  have cok: "pt_ok s cpt" using f by (simp add: fork_state_def)
  obtain n where n: "pt_frames pt' = pt_frames cpt @ n" "distinct (n @ fs)" "set (n @ fs) \<inter> fa_used (FRAME_ALLOCATOR s) = {}"
    "fa_used (FRAME_ALLOCATOR s') = fa_used (FRAME_ALLOCATOR s) \<union> set (n @ fs)" "machine.more s' = machine.more s"
    using g by (auto simp: as_grows_def)
  have old: "mem s' x = mem s x" if "q \<in> fa_used (FRAME_ALLOCATOR s)" "q \<notin> set (pt_frames cpt)" "x \<in> page_addrs q" for q x
    using as_grows_old[OF g pt_okD(2)[OF cok] that] .
  have sub: "fa_used (FRAME_ALLOCATOR s0) \<subseteq> fa_used (FRAME_ALLOCATOR s)" "set (pt_frames cpt) \<inter> fa_used (FRAME_ALLOCATOR s0) = {}"
    using f by (auto simp: fork_state_def)
  have "mem s' x = mem s0 x" if "q \<in> fa_used (FRAME_ALLOCATOR s0)" "x \<in> page_addrs q" for q x
    using that old[of q x] sub f by (auto simp: fork_state_def)
  then show "fork_state s0 s' pt'" using f ok n sub by (auto simp: fork_state_def)
  show "distinct (map snd D @ fs)"
    using c n by (auto simp: copied_def)
  show "set fs \<subseteq> fa_used (FRAME_ALLOCATOR s') - fa_used (FRAME_ALLOCATOR s0)" using n sub by auto
  show "set fs \<inter> set (pt_frames pt') = {}" using n pt_okD(2)[OF cok] by auto
  show "copied s0 src s' pt' D"
    unfolding copied_def
  proof (intro conjI ballI)
    show "distinct (map snd D)" using c by (simp add: copied_def)
    fix z assume z: "z \<in> set D"
    obtain v p h where z': "z = ((v, p), h)" by (metis prod.collapse)
    have h: "pt_entry s cpt v = pte_new h (p OR PTE_V)" "h \<in> fa_used (FRAME_ALLOCATOR s) - fa_used (FRAME_ALLOCATOR s0)"
      "h \<notin> set (pt_frames cpt)" "same_contents (mem s) h (mem s0) (pte_ppn (pt_entry s0 src v))"
      using c z z' by (auto simp: copied_def)
    have "same_contents (mem s') h (mem s) h" using old[of h] h by (auto simp: same_contents_def page_addrs_base)
    then have "same_contents (mem s') h (mem s0) (pte_ppn (pt_entry s0 src v))" using h(4) same_contents_trans by blast
    moreover have "v \<in> set (map fst (map fst D))" using z z' by force
    then have "pt_entry s' pt' v = pt_entry s cpt v" using m d by (auto simp: all_mapped_def)
    moreover have "h \<notin> set (pt_frames pt')" using h n by auto
    ultimately show "(\<lambda>((v, perm), g). pt_entry s' pt' v = pte_new g (perm OR PTE_V) \<and>
        g \<in> fa_used (FRAME_ALLOCATOR s') - fa_used (FRAME_ALLOCATOR s0) \<and> g \<notin> set (pt_frames pt') \<and>
        same_contents (mem s') g (mem s0) (pte_ppn (pt_entry s0 src v))) z"
      using h n z' by auto
  qed
qed

definition area_pages :: "MapArea \<Rightarrow> (VirtPageNum \<times> u8) list" where
  "area_pages area = map (\<lambda>v. (v, map_perm area)) (vpn_range_iter (vpn_range area))"

definition user_pages :: "MapArea list \<Rightarrow> (VirtPageNum \<times> u8) list" where
  "user_pages as = concat (map area_pages as)"

definition area_ok :: "MapArea \<Rightarrow> bool" where
  "area_ok area \<longleftrightarrow> map_type area = Framed \<and> unat (vpn_0 (vr_l (vpn_range area))) \<le> unat (vpn_0 (vr_r (vpn_range area))) \<and>
     unat (vpn_0 (vr_r (vpn_range area))) < 2 ^ 27"

lemma area_okD:
  assumes "area_ok area"
  shows "pages_ok (vpn_range_iter (vpn_range area))"
    "MapArea_from_another area = Inr (area\<lparr>data_frames := []\<rparr>)"
    "(v, p) \<in> set (area_pages area) \<Longrightarrow> unat (vpn_0 v) < 2 ^ 27 - 1"
proof -
  have le: "unat (vpn_0 (vr_l (vpn_range area))) \<le> unat (vpn_0 (vr_r (vpn_range area)))" using assms by (simp add: area_ok_def)
  show "pages_ok (vpn_range_iter (vpn_range area))"
    by (rule pages_ok_range[OF le]) (use assms in \<open>simp add: area_ok_def\<close>)
  show "MapArea_from_another area = Inr (area\<lparr>data_frames := []\<rparr>)"
    using le by (cases area) (simp add: MapArea_from_another_def VPNRange_new_def word_le_nat_alt)
  show "(v, p) \<in> set (area_pages area) \<Longrightarrow> unat (vpn_0 v) < 2 ^ 27 - 1"
    using set_vpn_range_iter[OF le, of v] assms by (auto simp: area_pages_def area_ok_def)
qed

text \<open>What the loop over the areas needs when the areas \<open>as\<close> are left and the pages \<open>D\<close> are done.\<close>

definition areas_ready :: "'z machine_scheme \<Rightarrow> PageTable \<Rightarrow> 'z machine_scheme \<Rightarrow> PageTable \<Rightarrow>
    ((VirtPageNum \<times> u8) \<times> PhysPageNum) list \<Rightarrow> MapArea list \<Rightarrow> bool" where
  "areas_ready s0 src s cpt D as \<longleftrightarrow> (\<forall>area\<in>set as. area_ok area) \<and>
     distinct (map fst (map fst D @ user_pages as)) \<and> (\<forall>v\<in>set (map fst (map fst D @ user_pages as)). unat (vpn_0 v) < 2 ^ 27) \<and>
     (\<forall>v\<in>set (map fst (user_pages as)). source_ok s0 src v \<and> \<not> pte_is_valid (pt_entry s cpt v)) \<and>
     3 * length (user_pages as) \<le> fa_avail (FRAME_ALLOCATOR s)"

lemma zip_pages_fst: "length fs = length ps \<Longrightarrow> map (fst \<circ> fst) (zip ps fs) = map fst ps"
  by (induction ps fs rule: list_induct2') auto

lemma areas_ready_step:
  assumes r: "areas_ready s0 src s cpt D (area # as)" and m: "all_mapped s cpt (vpn_range_iter (vpn_range area)) perm s1 pt1 fs"
    and e: "\<And>v. pt_entry s2 pt1 v = pt_entry s1 pt1 v" and fa: "FRAME_ALLOCATOR s2 = FRAME_ALLOCATOR s1"
  shows "areas_ready s0 src s2 pt1 (D @ zip (area_pages area) fs) as"
proof -
  let ?vs = "vpn_range_iter (vpn_range area)"
  have len: "length fs = length ?vs" using m by (simp add: all_mapped_def)
  have z: "map fst (map fst (zip (area_pages area) fs)) = ?vs"
    using zip_pages_fst[of fs "area_pages area"] len by (simp add: area_pages_def comp_def)
  have up: "user_pages (area # as) = area_pages area @ user_pages as" "map fst (area_pages area) = ?vs"
    by (simp_all add: user_pages_def area_pages_def comp_def)
  have dis: "distinct (map fst (map fst D) @ ?vs @ map fst (user_pages as))"
    and small: "\<And>v. v \<in> set (map fst (map fst D) @ ?vs @ map fst (user_pages as)) \<Longrightarrow> unat (vpn_0 v) < 2 ^ 27"
    using r unfolding areas_ready_def up(1) map_append up(2) by auto
  have inv: "\<not> pte_is_valid (pt_entry s2 pt1 v)" "source_ok s0 src v" if v: "v \<in> set (map fst (user_pages as))" for v
  proof -
    have "\<not> same_page v w" if "w \<in> set ?vs" for w
      using same_page_eq[of v w] small[of v] small[of w] that v dis by auto
    then have "pt_entry s1 pt1 v = pt_entry s cpt v" using m by (simp add: all_mapped_def)
    moreover have "\<not> pte_is_valid (pt_entry s cpt v) \<and> source_ok s0 src v"
      using r v unfolding areas_ready_def up(1) map_append set_append by blast
    ultimately show "\<not> pte_is_valid (pt_entry s2 pt1 v)" "source_ok s0 src v" using e by simp_all
  qed
  have "3 * (length ?vs + length (user_pages as)) \<le> fa_avail (FRAME_ALLOCATOR s)"
    using r up by (simp add: areas_ready_def area_pages_def)
  moreover have "fa_avail (FRAME_ALLOCATOR s) \<le> fa_avail (FRAME_ALLOCATOR s1) + 3 * length ?vs"
    using m by (simp add: all_mapped_def)
  ultimately have "3 * length (user_pages as) \<le> fa_avail (FRAME_ALLOCATOR s2)" using fa by simp
  moreover have "map fst (map fst (D @ zip (area_pages area) fs) @ user_pages as) = map fst (map fst D) @ ?vs @ map fst (user_pages as)"
    using z by simp
  ultimately show ?thesis using dis small inv r unfolding areas_ready_def by (metis (no_types, lifting) list.set_intros(2))
qed

lemma wp_copy_areas:
  assumes "fork_state s0 s (page_table ms)" and "pt_ok s0 src" and "copied s0 src s (page_table ms) D"
    and "areas_ready s0 src s (page_table ms) D as"
    and "\<And>ms' s' gs. fork_state s0 s' (page_table ms') \<Longrightarrow> length gs = length (user_pages as) \<Longrightarrow>
      copied s0 src s' (page_table ms') (D @ zip (user_pages as) gs) \<Longrightarrow> Q ms' s'"
  shows "wp (copy_areas src as ms) Q s"
  using assms
proof (induction as arbitrary: s ms D)
  case Nil
  then show ?case using Nil.prems(5)[of s ms "[]"] by (simp add: user_pages_def)
next
  case (Cons area as)
  let ?vs = "vpn_range_iter (vpn_range area)"
  let ?new = "area\<lparr>data_frames := []\<rparr>"
  note r = Cons.prems(4)[unfolded areas_ready_def]
  have ok: "area_ok area" using r by simp
  have up: "user_pages (area # as) = area_pages area @ user_pages as" "map fst (area_pages area) = ?vs"
    by (simp_all add: user_pages_def area_pages_def comp_def)
  have sp: "\<not> same_page v w" if "v \<in> set (map fst (map fst D))" "w \<in> set ?vs" for v w
  proof -
    have "w \<in> set (map fst (user_pages (area # as)))" using that(2) up by simp
    moreover have "distinct (map fst (map fst D) @ map fst (user_pages (area # as)))"
      "\<forall>v\<in>set (map fst (map fst D) @ map fst (user_pages (area # as))). unat (vpn_0 v) < 2 ^ 27" using r by simp_all
    ultimately show ?thesis using same_page_eq[of v w] that(1) by auto
  qed
  show ?case
    unfolding copy_areas.simps wp_andthen area_okD(2)[OF ok] wp_lift_res
  proof (intro exI conjI, rule refl, rule wp_push_framed, goal_cases)
    case (7 fs pt1 s1)
    then have m: "all_mapped s (page_table ms) ?vs (map_perm area) s1 pt1 fs" by simp
    note g = fork_state_grows[OF Cons.prems(1) m Cons.prems(3) sp]
    have len: "length fs = length ?vs" using m by (simp add: all_mapped_def)
    let ?Z = "zip (area_pages area) fs"
    have vs: "?vs = map (fst \<circ> fst) ?Z" using zip_pages_fst[of fs "area_pages area"] len up(2) by (simp add: area_pages_def)
    have snd_Z: "map snd ?Z = fs" using len by (simp add: area_pages_def)
    have Z: "pt_entry s1 pt1 v = pte_new h (p OR PTE_V) \<and> source_ok s0 src v \<and>
        h \<in> fa_used (FRAME_ALLOCATOR s1) - fa_used (FRAME_ALLOCATOR s0) \<and> h \<notin> set (pt_frames pt1)"
      if z: "((v, p), h) \<in> set ?Z" for v p h
    proof -
      have "(v, p) \<in> set (area_pages area)" "h \<in> set fs" using set_zip_leftD[OF z] set_zip_rightD[OF z] by auto
      then have v: "v \<in> set ?vs" "p = map_perm area" by (auto simp: area_pages_def)
      have "(v, h) \<in> set (zip ?vs fs)" using z by (auto simp: area_pages_def zip_map1)
      then have "pt_entry s1 pt1 v = pte_new h (p OR PTE_V)" using m v by (auto simp: all_mapped_def)
      moreover have "source_ok s0 src v" using r v(1) up by (metis UnI1 map_append set_append)
      ultimately show ?thesis using g(4,5) \<open>h \<in> set fs\<close> by auto
    qed
    have fin: "Q ms' s'" if "fork_state s0 s' (page_table ms')" "length gs = length (user_pages as)"
        "copied s0 src s' (page_table ms') (D @ ?Z @ zip (user_pages as) gs)" for ms' s' gs
      using Cons.prems(5)[of s' ms' "fs @ gs"] that len by (simp add: up(1) area_pages_def)
    show ?case
      unfolding wp_andthen MemorySet.simps
      by (subst vs, rule wp_copy_pages[OF g(1) Cons.prems(2) g(2)])
        (use g(3) Z snd_Z fin in \<open>auto intro!: Cons.IH[where D = "D @ ?Z"] areas_ready_step[OF Cons.prems(4) m] Cons.prems(2)\<close>)
  qed (use Cons.prems(1) r ok area_okD(1)[OF ok] up in \<open>auto simp: fork_state_def area_ok_def area_pages_def\<close>)
qed

section \<open>The whole copy\<close>

lemma fork_state_tables:
  assumes ok: "pt_ok s' pt'" and used: "fa_used (FRAME_ALLOCATOR s0) \<subseteq> fa_used (FRAME_ALLOCATOR s')"
    and new: "set (pt_frames pt') \<inter> fa_used (FRAME_ALLOCATOR s0) = {}" and more: "machine.more s' = machine.more s0"
    and mem: "\<And>x. x \<notin> table_addrs pt' \<Longrightarrow> mem s' x = mem s0 x"
  shows "fork_state s0 s' pt'"
proof -
  have "mem s' x = mem s0 x" if q: "q \<in> fa_used (FRAME_ALLOCATOR s0)" "x \<in> page_addrs q" for q x
  proof -
    have "pages_addrs [q] \<inter> pages_addrs (pt_frames pt') = {}"
      using q(1) used new pt_okD(2)[OF ok] by (intro pages_disjoint[OF pt_okD(1)[OF ok]]) auto
    then show ?thesis using q(2) by (intro mem) (auto simp: table_addrs_pages pages_addrs_def)
  qed
  then show ?thesis using assms by (auto simp: fork_state_def)
qed

definition tramp_vpn :: VirtPageNum where
  "tramp_vpn = VirtPageNum (2 ^ 27 - 1)"

lemma tramp_vpn_eq: "VirtPageNum_from_va (VirtAddr_from TRAMPOLINE) = Inr tramp_vpn"
  by (simp add: VirtPageNum_from_va_def VirtAddr_from_def TRAMPOLINE_def PAGE_SIZE_def VA_WIDTH_SV39_def va_page_offset_def va_floor_def
      tramp_vpn_def)

lemma stramp_ppn:
  assumes "unat stramp mod 4096 = 0"
  shows "PhysPageNum_from_pa (PhysAddr_from stramp) = Inr (pa_floor (PhysAddr_from stramp))"
proof -
  have "unat (pa_0 (PhysAddr_from stramp)) = unat stramp mod 2 ^ 56"
    by (rule unat_PhysAddr_from)
  then have "unat (pa_page_offset (PhysAddr_from stramp)) = 0"
    using assms by (simp add: unat_pa_page_offset mod_mod_cancel)
  then show ?thesis by (simp add: PhysPageNum_from_pa_def unat_eq_0)
qed

lemma wp_new_user_space:
  assumes "fa_inv (FRAME_ALLOCATOR s)" and "3 \<le> fa_avail (FRAME_ALLOCATOR s)" and "unat stramp mod 4096 = 0"
  shows "wp (andthen MemorySet_new_bare (MemorySet_map_trampoline stramp)) (\<lambda>ms s'. fork_state s s' (page_table ms) \<and>
     fa_avail (FRAME_ALLOCATOR s) \<le> fa_avail (FRAME_ALLOCATOR s') + 3 \<and>
     (\<forall>v. \<not> same_page v tramp_vpn \<longrightarrow> pt_entry s' (page_table ms) v = pte_empty)) s"
proof -
  have step: "wp (MemorySet_map_trampoline stramp \<lparr>page_table = pt, areas = []\<rparr>) (\<lambda>ms s'. fork_state s s' (page_table ms) \<and>
     fa_avail (FRAME_ALLOCATOR s) \<le> fa_avail (FRAME_ALLOCATOR s') + 3 \<and>
     (\<forall>v. \<not> same_page v tramp_vpn \<longrightarrow> pt_entry s' (page_table ms) v = pte_empty)) s1"
    if ok: "pt_ok s1 pt" and e: "\<forall>v. pt_entry s1 pt v = pte_empty" and pt: "pt = \<lparr>root_ppn = p, pt_frames = [p]\<rparr>"
      and p: "p \<notin> fa_used (FRAME_ALLOCATOR s)" "fa_used (FRAME_ALLOCATOR s1) = insert p (fa_used (FRAME_ALLOCATOR s))"
      and m: "mem s1 = zero_page p (mem s)" and av: "fa_avail (FRAME_ALLOCATOR s) = Suc (fa_avail (FRAME_ALLOCATOR s1))"
      and more: "machine.more s1 = machine.more s" for pt s1 p
    unfolding MemorySet_map_trampoline_def wp_andthen wp_lift_res tramp_vpn_eq stramp_ppn[OF assms(3)]
  proof (intro exI conjI, rule refl, rule refl, rule wp_mono, rule wp_PageTable_map, goal_cases)
    case (4 pt' s')
    then have g: "pt_grows s1 pt s' pt'" and ok': "pt_ok s' pt'"
      and en: "\<forall>v. pt_entry s' pt' v = (if same_page v tramp_vpn then pte_new (pa_floor (PhysAddr_from stramp)) ((PTE_R OR PTE_X) OR PTE_V)
        else pt_entry s1 pt v)" and len: "length (pt_frames pt') \<le> length (pt_frames pt) + 2" by auto
    obtain new where n: "pt_frames pt' = pt_frames pt @ new" "set new \<inter> fa_used (FRAME_ALLOCATOR s1) = {}"
        "fa_used (FRAME_ALLOCATOR s') = fa_used (FRAME_ALLOCATOR s1) \<union> set new"
        "length new + fa_avail (FRAME_ALLOCATOR s') = fa_avail (FRAME_ALLOCATOR s1)"
        "machine.more s' = machine.more s1" "\<And>x. x \<notin> table_addrs pt' \<Longrightarrow> mem s' x = mem s1 x"
      using g by (auto simp: pt_grows_def)
    have sub: "page_addrs p \<subseteq> table_addrs pt'" using n(1) pt by (auto simp: table_addrs_pages pages_addrs_def)
    have "fork_state s s' pt'"
      by (rule fork_state_tables[OF ok']) (use n p pt more m sub in \<open>auto simp: zero_page_apply\<close>)
    then show ?case using n(1,4) len av en e by simp
  qed (use ok e av assms(2) in auto)
  show ?thesis
    unfolding MemorySet_new_bare_def wp_andthen
  proof (rule wp_mono[OF wp_PageTable_new[OF assms(1)]], goal_cases)
    case (2 pt s1)
    then obtain p where p: "pt = \<lparr>root_ppn = p, pt_frames = [p]\<rparr>" "p \<notin> fa_used (FRAME_ALLOCATOR s)"
      "fa_used (FRAME_ALLOCATOR s1) = insert p (fa_used (FRAME_ALLOCATOR s))" "mem s1 = zero_page p (mem s)" by blast
    show ?case unfolding wp_ret by (rule step[OF _ _ p]) (use 2 in simp_all)
  qed (use assms(2) in simp)
qed

text \<open>
  C33: \<^verbatim>\<open>MemorySet::from_existed_user\<close>, the copy that \<^verbatim>\<open>fork\<close> makes, gives the child a frame of its own for every page of
  every area of the parent. The child's frames are pairwise distinct and were not in use; each is mapped with the
  parent's permissions and holds the parent's contents. The parent's mappings and all pages in use stay as they
  were, so neither process sees later writes of the other.
\<close>

theorem from_existed_user_copies:
  assumes "pt_ok s (page_table ms)" and "\<forall>area\<in>set (areas ms). area_ok area"
    and "distinct (map fst (user_pages (areas ms)))"
    and "\<forall>v\<in>set (map fst (user_pages (areas ms))). source_ok s (page_table ms) v"
    and "unat stramp mod 4096 = 0" and "3 * length (user_pages (areas ms)) + 3 \<le> fa_avail (FRAME_ALLOCATOR s)"
  shows "\<exists>ms' s' gs. MemorySet_from_existed_user stramp ms s = Inr (ms', s') \<and> pt_ok s' (page_table ms') \<and>
    pt_ok s' (page_table ms) \<and> length gs = length (user_pages (areas ms)) \<and> distinct gs \<and>
    set gs \<inter> fa_used (FRAME_ALLOCATOR s) = {} \<and>
    (\<forall>i<length gs. pt_maps s' (page_table ms') (fst (user_pages (areas ms) ! i)) =
         Some (pte_new (gs ! i) (snd (user_pages (areas ms) ! i) OR PTE_V)) \<and>
       same_contents (mem s') (gs ! i) (mem s) (pte_ppn (pt_entry s (page_table ms) (fst (user_pages (areas ms) ! i))))) \<and>
    (\<forall>v. pt_maps s' (page_table ms) v = pt_maps s (page_table ms) v) \<and>
    (\<forall>q\<in>fa_used (FRAME_ALLOCATOR s). \<forall>x\<in>page_addrs q. mem s' x = mem s x)"
proof -
  let ?up = "user_pages (areas ms)" and ?src = "page_table ms"
  have small: "unat (vpn_0 v) < 2 ^ 27 - 1" if "v \<in> set (map fst ?up)" for v
    using that assms(2) area_okD(3) by (auto simp: user_pages_def)
  have nt: "\<not> same_page v tramp_vpn" if "v \<in> set (map fst ?up)" for v
    using same_page_eq[of v tramp_vpn] small[OF that] by (auto simp: tramp_vpn_def)
  have "wp (MemorySet_from_existed_user stramp ms) (\<lambda>ms' s'. \<exists>gs. fork_state s s' (page_table ms') \<and> length gs = length ?up \<and>
      copied s ?src s' (page_table ms') (zip ?up gs)) s"
  proof -
    have ready: "areas_ready s ?src s1 (page_table ms1) [] (areas ms)"
      if "fa_avail (FRAME_ALLOCATOR s) \<le> fa_avail (FRAME_ALLOCATOR s1) + 3"
        "\<forall>v. \<not> same_page v tramp_vpn \<longrightarrow> pt_entry s1 (page_table ms1) v = pte_empty" for ms1 s1
    proof -
      have "\<not> pte_is_valid (pt_entry s1 (page_table ms1) v)" if "v \<in> set (map fst ?up)" for v
        using \<open>\<forall>v. \<not> same_page v tramp_vpn \<longrightarrow> _ v\<close> nt[OF that] by simp
      moreover have "unat (vpn_0 v) < 2 ^ 27" if "v \<in> set (map fst ?up)" for v using small[OF that] by simp
      ultimately show ?thesis unfolding areas_ready_def using that(1) assms(2-4,6) by simp
    qed
    show ?thesis
      unfolding MemorySet_from_existed_user_def wp_andthen
    proof (rule wp_mono[OF wp_new_user_space[OF pt_okD(1)[OF assms(1)] _ assms(5), unfolded wp_andthen]], goal_cases)
      case (2 ms0 s0)
      then show ?case
      proof (rule wp_mono, elim conjE, goal_cases)
        case (1 ms1 s1)
        then show ?case
          by (intro wp_copy_areas[where D = "[]", OF _ assms(1) _ ready]) (assumption | force simp: copied_def)+
      qed
    qed (use assms(6) in simp)
  qed
  then obtain ms' s' gs where run: "MemorySet_from_existed_user stramp ms s = Inr (ms', s')"
    and f: "fork_state s s' (page_table ms')" and len: "length gs = length ?up"
    and c: "copied s ?src s' (page_table ms') (zip ?up gs)" by (auto simp: wp_runs)
  have each: "pt_entry s' (page_table ms') (fst (?up ! i)) = pte_new (gs ! i) (snd (?up ! i) OR PTE_V)"
    "gs ! i \<notin> fa_used (FRAME_ALLOCATOR s)"
    "same_contents (mem s') (gs ! i) (mem s) (pte_ppn (pt_entry s ?src (fst (?up ! i))))" if "i < length gs" for i
  proof -
    obtain v p where vp: "?up ! i = (v, p)" by (cases "?up ! i")
    have "((v, p), gs ! i) \<in> set (zip ?up gs)" unfolding vp[symmetric] using that len by (auto simp: set_zip)
    then show "pt_entry s' (page_table ms') (fst (?up ! i)) = pte_new (gs ! i) (snd (?up ! i) OR PTE_V)"
      "gs ! i \<notin> fa_used (FRAME_ALLOCATOR s)"
      "same_contents (mem s') (gs ! i) (mem s) (pte_ppn (pt_entry s ?src (fst (?up ! i))))"
      using c by (auto simp: copied_def vp)
  qed
  have d: "distinct gs" using c len by (simp add: copied_def)
  have un: "set gs \<inter> fa_used (FRAME_ALLOCATOR s) = {}" using each(2) by (auto simp: in_set_conv_nth)
  show ?thesis
    by (intro exI[of _ ms'] exI[of _ s'] exI[of _ gs] conjI)
      (use run f len d un each(1,3) fork_source[OF f assms(1)] in \<open>auto simp: pt_maps_entry fork_state_def\<close>)
qed

text \<open>The witness: a parent with one area of two pages.\<close>

lemma demo_parent:
  "\<exists>(ms :: MemorySet) s. pt_ok (s :: machine) (page_table ms) \<and> (\<forall>area\<in>set (areas ms). area_ok area) \<and>
    distinct (map fst (user_pages (areas ms))) \<and> length (user_pages (areas ms)) = 2 \<and>
    (\<forall>v\<in>set (map fst (user_pages (areas ms))). source_ok s (page_table ms) v) \<and>
    3 * length (user_pages (areas ms)) + 3 \<le> fa_avail (FRAME_ALLOCATOR s)"
proof -
  let ?ms = "\<lparr>page_table = demo_pt, areas = []\<rparr>" and ?a = "VirtAddr 0x1000" and ?b = "VirtAddr 0x3000"
  let ?vs = "touched_pages ?a ?b"
  have vs: "?vs = [VirtPageNum 1, VirtPageNum 2]"
    by (simp add: touched_pages_def va_floor_def va_ceil_def PAGE_SIZE_def vpn_range_iter_def vpn_range_from.simps vpn_step_def)
  have va: "va_0 ?a \<le> va_0 ?b" "unat (va_0 ?b) \<le> 2 ^ 39 - 4096" by (simp_all add: word_le_nat_alt)
  have av: "3 * ((unat (va_0 ?b) + 4095) div 4096 - unat (va_0 ?a) div 4096) \<le> fa_avail (FRAME_ALLOCATOR demo_machine)" using demo_ok(4) by simp
  have ok: "pt_ok demo_machine (page_table ?ms)" using demo_ok(1) by simp
  have none: "pt_maps demo_machine (page_table ?ms) v = None" for v using demo_ok(2) by simp
  obtain ms :: MemorySet and s fs where m: "all_mapped demo_machine (page_table ?ms) ?vs MP_R s (page_table ms) fs"
    and ar: "areas ms = areas ?ms @ [\<lparr>vpn_range = \<lparr>vr_l = va_floor ?a, vr_r = va_ceil ?b\<rparr>,
      data_frames = zip ?vs fs, map_type = Framed, map_perm = MP_R\<rparr>]"
    using insert_framed_area_run[OF ok va none av, of MP_R] by blast
  have up: "user_pages (areas ms) = [(VirtPageNum 1, MP_R), (VirtPageNum 2, MP_R)]"
    using vs by (simp add: ar user_pages_def area_pages_def touched_pages_def)
  have src: "source_ok s (page_table ms) v" if v: "v \<in> set ?vs" for v
  proof -
    have "length fs = length ?vs" using m by (simp add: all_mapped_def)
    then obtain f where z: "(v, f) \<in> set (zip ?vs fs)" using v by (metis in_set_impl_in_set_zip1)
    then have e: "pt_entry s (page_table ms) v = pte_new f (MP_R OR PTE_V)" using m unfolding all_mapped_def by blast
    have fr: "f \<in> fa_used (FRAME_ALLOCATOR s)" using set_zip_rightD[OF z] m by (auto simp: all_mapped_def as_grows_def)
    moreover have "pt_ok s (page_table ms)" using m by (simp add: all_mapped_def)
    ultimately have "ppn_ok f" using pt_okD(1) fa_used_ok by blast
    then show ?thesis using e fr by (simp add: source_ok_def)
  qed
  have "fa_avail (FRAME_ALLOCATOR demo_machine) \<le> fa_avail (FRAME_ALLOCATOR s) + 3 * length ?vs" "pt_ok s (page_table ms)"
    using m by (simp_all add: all_mapped_def)
  moreover have "\<forall>area\<in>set (areas ms). area_ok area"
    by (simp add: ar area_ok_def va_floor_def va_ceil_def PAGE_SIZE_def)
  ultimately show ?thesis using src demo_ok(4) vs by (intro exI[of _ ms] exI[of _ s]) (simp add: up)
qed

theorem from_existed_user_copies_witness:
  "\<exists>(ms :: MemorySet) (s :: machine) ms' s' gs. MemorySet_from_existed_user 0x80201000 ms s = Inr (ms', s') \<and> length gs = 2 \<and> distinct gs \<and>
    (\<forall>i<2. pt_maps s' (page_table ms') (fst (user_pages (areas ms) ! i)) =
         Some (pte_new (gs ! i) (snd (user_pages (areas ms) ! i) OR PTE_V)) \<and>
       same_contents (mem s') (gs ! i) (mem s) (pte_ppn (pt_entry s (page_table ms) (fst (user_pages (areas ms) ! i)))))"
proof -
  obtain ms :: MemorySet and s where p: "pt_ok (s :: machine) (page_table ms)" "\<forall>area\<in>set (areas ms). area_ok area"
    "distinct (map fst (user_pages (areas ms)))" "\<forall>v\<in>set (map fst (user_pages (areas ms))). source_ok s (page_table ms) v"
    "3 * length (user_pages (areas ms)) + 3 \<le> fa_avail (FRAME_ALLOCATOR s)" and len: "length (user_pages (areas ms)) = 2"
    using demo_parent by blast
  have t: "unat (0x80201000 :: usize) mod 4096 = 0" by simp
  from from_existed_user_copies[OF p(1-4) t p(5)] show ?thesis unfolding len by (elim exE conjE) metis
qed

end
