(* ===== verification/Codec.thy ===== *)
theory Codec
  imports Prelude
begin

text \<open>
  Arrays of machine words in memory: the in-place views \<^verbatim>\<open>[u64; 64]\<close> and \<^verbatim>\<open>[u32; 128]\<close> that the
  file system takes of a 512-byte block, as a decoder and an encoder that are inverse to each other.
\<close>

definition words_of_bytes :: "nat \<Rightarrow> nat \<Rightarrow> byte list \<Rightarrow> 'a::len word list" where
  "words_of_bytes n c bs = map (\<lambda>i. bytes_le_word (slice (n * i) n bs)) [0..<c]"

definition bytes_of_words :: "nat \<Rightarrow> 'a::len word list \<Rightarrow> byte list" where
  "bytes_of_words n ws = concat (map (word_le_bytes n) ws)"

lemma length_words_of_bytes [simp]: "length (words_of_bytes n c bs) = c"
  by (simp add: words_of_bytes_def)

lemma nth_words_of_bytes [simp]: "i < c \<Longrightarrow> words_of_bytes n c bs ! i = bytes_le_word (slice (n * i) n bs)"
  by (simp add: words_of_bytes_def)

lemma length_bytes_of_words [simp]: "length (bytes_of_words n ws) = n * length ws"
  by (induction ws) (simp_all add: bytes_of_words_def)

lemma slice_bytes_of_words:
  "i < length ws \<Longrightarrow> slice (n * i) n (bytes_of_words n ws) = word_le_bytes n (ws ! i)"
proof (induction ws arbitrary: i)
  case Nil
  then show ?case by simp
next
  case (Cons w ws)
  show ?case
  proof (cases i)
    case 0
    then show ?thesis by (simp add: bytes_of_words_def slice_def)
  next
    case (Suc j)
    then have "slice (n * i) n (bytes_of_words n (w # ws)) = slice (n * j) n (bytes_of_words n ws)"
      by (simp add: bytes_of_words_def slice_def)
    then show ?thesis using Cons Suc by simp
  qed
qed

lemma words_of_bytes_of_words [simp]:
  assumes "LENGTH('a) = 8 * n" and "c = length ws"
  shows "words_of_bytes n c (bytes_of_words n (ws :: 'a::len word list)) = ws"
  using assms by (intro nth_equalityI) (simp_all add: slice_bytes_of_words)

lemma div_mult_less: "(k :: nat) < n * c \<Longrightarrow> k div n < c"
  by (simp add: less_mult_imp_div_less mult.commute)

lemma bytes_of_words_of_bytes [simp]:
  assumes "LENGTH('a::len) = 8 * n" and "length bs = n * c"
  shows "bytes_of_words n (words_of_bytes n c bs :: 'a word list) = bs"
proof (rule nth_equalityI)
  show "length (bytes_of_words n (words_of_bytes n c bs :: 'a word list)) = length bs"
    using assms by simp
  fix k assume "k < length (bytes_of_words n (words_of_bytes n c bs :: 'a word list))"
  then have k: "k < n * c" by simp
  then have n: "0 < n" by (cases n) auto
  define i where "i = k div n"
  have i: "i < c" "n * i + k mod n = k" "k mod n < n"
    using k n by (simp_all add: i_def div_mult_less)
  have le: "n * i + n \<le> n * c"
    using i(1) by (metis Suc_leI add.commute mult_Suc_right mult_le_mono2)
  have "bytes_of_words n (words_of_bytes n c bs :: 'a word list) ! k =
      slice (n * i) n (bytes_of_words n (words_of_bytes n c bs :: 'a word list)) ! (k mod n)"
    using i le by (subst nth_slice) simp_all
  also have "\<dots> = slice (n * i) n bs ! (k mod n)"
    using i(1) le assms by (simp add: slice_bytes_of_words)
  also have "\<dots> = bs ! k"
    using i le assms(2) by (simp add: nth_slice)
  finally show "bytes_of_words n (words_of_bytes n c bs :: 'a word list) ! k = bs ! k" .
qed

end
