(* ===== verification/Block_Cache.thy ===== *)
theory Block_Cache
  imports Prelude
begin

text \<open>
  The block layer of the file system: \<^verbatim>\<open>easy-fs/src/block_dev.rs\<close> and
  \<^verbatim>\<open>easy-fs/src/block_cache.rs\<close>. A block device is a record of its two operations over a device
  state. The cache manager's queue, the device state and the list of cached blocks that are locked
  right now are the state of every file-system program. A closure passed to \<^verbatim>\<open>read\<close> or \<^verbatim>\<open>modify\<close>
  runs while its block is locked and its \<^verbatim>\<open>Arc\<close> is alive: the block cannot be evicted, and asking
  for it again is a deadlock of the spin lock.
\<close>

section \<open>Devices and cached blocks\<close>

definition BLOCK_SZ :: nat where "BLOCK_SZ = 512"

definition BLOCK_CACHE_SIZE :: nat where "BLOCK_CACHE_SIZE = 16"

record 'd BlockDevice =
  read_block :: "nat \<Rightarrow> ('d, byte list) prog"
  write_block :: "nat \<Rightarrow> byte list \<Rightarrow> ('d, unit) prog"

record BlockCache =
  bc_cache :: "byte list"
  bc_block_id :: nat
  bc_modified :: bool

type_synonym cache_queue = "(nat \<times> BlockCache) list"

record 'd cache_state =
  device :: 'd
  queue :: cache_queue
  held :: "nat list"

definition on_device :: "('d, 'a) prog \<Rightarrow> (('d, 'z) cache_state_scheme, 'a) prog" where
  "on_device p s = (case p (device s) of Inl e \<Rightarrow> Inl e | Inr (x, d) \<Rightarrow> Inr (x, s\<lparr>device := d\<rparr>))"

definition BlockCache_new :: "'d BlockDevice \<Rightarrow> nat \<Rightarrow> ('d, BlockCache) prog" where
  "BlockCache_new bd block_id =
     andthen (read_block bd block_id) (\<lambda>cache.
       ret \<lparr>bc_cache = cache, bc_block_id = block_id, bc_modified = False\<rparr>)"

definition BlockCache_sync :: "'d BlockDevice \<Rightarrow> BlockCache \<Rightarrow> ('d, BlockCache) prog" where
  "BlockCache_sync bd bc =
     (if bc_modified bc
      then andthen (write_block bd (bc_block_id bc) (bc_cache bc)) (\<lambda>_. ret (bc\<lparr>bc_modified := False\<rparr>))
      else ret bc)"

section \<open>The manager\<close>

text \<open>
  \<^verbatim>\<open>get_block_cache\<close>. An entry whose block is not locked has reference count one; dropping the
  evicted entry writes it back.
\<close>

definition evict :: "'d BlockDevice \<Rightarrow> (('d, 'z) cache_state_scheme, unit) prog" where
  "evict bd =
     andthen (gets (\<lambda>s. (queue s, position (\<lambda>pair. fst pair \<notin> set (held s)) (queue s)))) (\<lambda>(q, r).
       case r of
         Some idx \<Rightarrow>
           andthen (on_device (BlockCache_sync bd (snd (q ! idx)))) (\<lambda>_.
           modifies (\<lambda>s. s\<lparr>queue := take idx (queue s) @ drop (Suc idx) (queue s)\<rparr>))
       | None \<Rightarrow> throw ExplicitPanic)"

definition get_block_cache :: "'d BlockDevice \<Rightarrow> nat \<Rightarrow> (('d, 'z) cache_state_scheme, unit) prog" where
  "get_block_cache bd block_id =
     andthen (gets queue) (\<lambda>q.
       if map_of q block_id \<noteq> None then ret ()
       else
         andthen (if length q = BLOCK_CACHE_SIZE then evict bd else ret ()) (\<lambda>_.
         andthen (on_device (BlockCache_new bd block_id)) (\<lambda>bc.
         modifies (\<lambda>s. s\<lparr>queue := queue s @ [(block_id, bc)]\<rparr>))))"

fun sync_queue :: "'d BlockDevice \<Rightarrow> nat list \<Rightarrow> cache_queue \<Rightarrow> ('d, cache_queue) prog" where
  "sync_queue bd locked [] = ret []"
| "sync_queue bd locked ((i, bc) # q) =
     (if i \<in> set locked then throw Deadlock
      else andthen (BlockCache_sync bd bc) (\<lambda>bc'.
           andthen (sync_queue bd locked q) (\<lambda>q'. ret ((i, bc') # q'))))"

definition block_cache_sync_all :: "'d BlockDevice \<Rightarrow> (('d, 'z) cache_state_scheme, unit) prog" where
  "block_cache_sync_all bd =
     andthen (gets (\<lambda>s. (held s, queue s))) (\<lambda>(locked, q).
     andthen (on_device (sync_queue bd locked q)) (\<lambda>q'.
     modifies (\<lambda>s. s\<lparr>queue := q'\<rparr>)))"

section \<open>Access to a locked block\<close>

definition with_lock :: "nat \<Rightarrow> (('d, 'z) cache_state_scheme, 'a) prog \<Rightarrow> (('d, 'z) cache_state_scheme, 'a) prog" where
  "with_lock block_id body =
     andthen (gets held) (\<lambda>locked.
       if block_id \<in> set locked then throw Deadlock
       else
         andthen (modifies (\<lambda>s. s\<lparr>held := block_id # locked\<rparr>)) (\<lambda>_.
         andthen body (\<lambda>r.
         andthen (modifies (\<lambda>s. s\<lparr>held := locked\<rparr>)) (\<lambda>_. ret r))))"

definition cached :: "nat \<Rightarrow> cache_queue \<Rightarrow> byte list" where
  "cached block_id q = (case map_of q block_id of None \<Rightarrow> [] | Some bc \<Rightarrow> bc_cache bc)"

fun update_cached :: "nat \<Rightarrow> (BlockCache \<Rightarrow> BlockCache) \<Rightarrow> cache_queue \<Rightarrow> cache_queue" where
  "update_cached block_id f [] = []"
| "update_cached block_id f ((i, bc) # q) =
     (if i = block_id then (i, f bc) # q else (i, bc) # update_cached block_id f q)"

text \<open>
  \<^verbatim>\<open>get_block_cache(id).lock().read(offset, f)\<close> and \<^verbatim>\<open>...modify(offset, f)\<close>. The type parameter
  \<^verbatim>\<open>T\<close> of \<^verbatim>\<open>get_ref\<close> and \<^verbatim>\<open>get_mut\<close> is a size with a decoder from bytes and, for \<^verbatim>\<open>modify\<close>, an encoder,
  which also gets the old bytes because a field-wise update leaves padding alone. The bytes the
  closure leaves in \<^verbatim>\<open>*T\<close> and the \<^verbatim>\<open>modified\<close> mark are stored when it returns; no other code can
  observe them earlier, because the block is locked and a locked block is neither evicted nor
  written back.
\<close>

definition cache_read ::
    "'d BlockDevice \<Rightarrow> nat \<Rightarrow> nat \<Rightarrow> nat \<Rightarrow> (byte list \<Rightarrow> 't res) \<Rightarrow>
     ('t \<Rightarrow> (('d, 'z) cache_state_scheme, 'v) prog) \<Rightarrow> (('d, 'z) cache_state_scheme, 'v) prog" where
  "cache_read bd block_id off sz dec f =
     andthen (get_block_cache bd block_id) (\<lambda>_.
     with_lock block_id (
       andthen (assert_that (off + sz \<le> BLOCK_SZ)) (\<lambda>_.
       andthen (gets (\<lambda>s. cached block_id (queue s))) (\<lambda>bytes.
       andthen (lift_res (dec (slice off sz bytes))) f))))"

definition cache_modify ::
    "'d BlockDevice \<Rightarrow> nat \<Rightarrow> nat \<Rightarrow> nat \<Rightarrow> (byte list \<Rightarrow> 't res) \<Rightarrow> (byte list \<Rightarrow> 't \<Rightarrow> byte list) \<Rightarrow>
     ('t \<Rightarrow> (('d, 'z) cache_state_scheme, 'v \<times> 't) prog) \<Rightarrow> (('d, 'z) cache_state_scheme, 'v) prog" where
  "cache_modify bd block_id off sz dec enc f =
     andthen (get_block_cache bd block_id) (\<lambda>_.
     with_lock block_id (
       andthen (assert_that (off + sz \<le> BLOCK_SZ)) (\<lambda>_.
       andthen (gets (\<lambda>s. cached block_id (queue s))) (\<lambda>bytes.
       andthen (lift_res (dec (slice off sz bytes))) (\<lambda>t.
       andthen (f t) (\<lambda>(v, t').
       andthen (modifies (\<lambda>s. s\<lparr>queue := update_cached block_id
           (\<lambda>bc. bc\<lparr>bc_cache := overwrite off (enc (slice off sz (bc_cache bc)) t') (bc_cache bc), bc_modified := True\<rparr>)
           (queue s)\<rparr>)) (\<lambda>_.
       ret v)))))))"

end
