(* ===== verification/Block_View.thy ===== *)
theory Block_View
  imports Block_Cache
begin

text \<open>
  What the block cache promises. \<open>block_device\<close> is the contract of a device: blocks of 512 bytes
  that can be read and written. \<open>disk_view\<close> is the disk the file system sees through the cache.
  \<open>vspec\<close> states what a program does to this view; its rules say that cache hits, loads and
  evictions never change the view and that \<^verbatim>\<open>modify\<close> changes exactly one block, so the theories
  above never look at the queue again.
\<close>

locale block_device =
  fixes bd :: "'d BlockDevice"
    and disk :: "'d \<Rightarrow> nat \<Rightarrow> byte list"
    and ids :: "nat set"
    and dinv :: "'d \<Rightarrow> bool"
  assumes read_ok: "dinv d \<Longrightarrow> i \<in> ids \<Longrightarrow>
      \<exists>d'. read_block bd i d = Inr (disk d i, d') \<and> dinv d' \<and> disk d' = disk d"
    and write_ok: "dinv d \<Longrightarrow> i \<in> ids \<Longrightarrow> length b = BLOCK_SZ \<Longrightarrow>
      \<exists>d'. write_block bd i b d = Inr ((), d') \<and> dinv d' \<and> disk d' = (disk d)(i := b)"
    and block_length: "dinv d \<Longrightarrow> i \<in> ids \<Longrightarrow> length (disk d i) = BLOCK_SZ"

definition disk_view :: "('d \<Rightarrow> nat \<Rightarrow> byte list) \<Rightarrow> ('d, 'z) cache_state_scheme \<Rightarrow> nat \<Rightarrow> byte list" where
  "disk_view disk s i = (case map_of (queue s) i of None \<Rightarrow> disk (device s) i | Some bc \<Rightarrow> bc_cache bc)"

definition entry_inv :: "('d \<Rightarrow> nat \<Rightarrow> byte list) \<Rightarrow> nat set \<Rightarrow> 'd \<Rightarrow> nat \<times> BlockCache \<Rightarrow> bool" where
  "entry_inv disk ids d p \<longleftrightarrow> bc_block_id (snd p) = fst p \<and> fst p \<in> ids \<and>
     length (bc_cache (snd p)) = BLOCK_SZ \<and>
     (\<not> bc_modified (snd p) \<longrightarrow> bc_cache (snd p) = disk d (fst p))"

definition cache_inv ::
    "('d \<Rightarrow> nat \<Rightarrow> byte list) \<Rightarrow> nat set \<Rightarrow> ('d \<Rightarrow> bool) \<Rightarrow> ('d, 'z) cache_state_scheme \<Rightarrow> bool" where
  "cache_inv disk ids dinv s \<longleftrightarrow> dinv (device s) \<and> distinct (map fst (queue s)) \<and>
     length (queue s) \<le> BLOCK_CACHE_SIZE \<and> (\<forall>p\<in>set (queue s). entry_inv disk ids (device s) p) \<and>
     distinct (held s) \<and> set (held s) \<subseteq> fst ` set (queue s)"

definition vspec ::
    "('d \<Rightarrow> nat \<Rightarrow> byte list) \<Rightarrow> nat set \<Rightarrow> ('d \<Rightarrow> bool) \<Rightarrow> nat list \<Rightarrow> (nat \<Rightarrow> byte list) \<Rightarrow>
     (('d, 'z) cache_state_scheme, 'a) prog \<Rightarrow> ('a \<Rightarrow> (nat \<Rightarrow> byte list) \<Rightarrow> bool) \<Rightarrow> bool" where
  "vspec disk ids dinv H V p Q \<longleftrightarrow>
     (\<forall>s. cache_inv disk ids dinv s \<longrightarrow> held s = H \<longrightarrow> disk_view disk s = V \<longrightarrow>
        wp p (\<lambda>r s'. cache_inv disk ids dinv s' \<and> held s' = H \<and>
          cache_state.more s' = cache_state.more s \<and> Q r (disk_view disk s')) s)"

text \<open>The error paths: started on this view, the program panics with \<open>e\<close>.\<close>

definition vpanic ::
    "('d \<Rightarrow> nat \<Rightarrow> byte list) \<Rightarrow> nat set \<Rightarrow> ('d \<Rightarrow> bool) \<Rightarrow> nat list \<Rightarrow> (nat \<Rightarrow> byte list) \<Rightarrow>
     (('d, 'z) cache_state_scheme, 'a) prog \<Rightarrow> panic \<Rightarrow> bool" where
  "vpanic disk ids dinv H V p e \<longleftrightarrow>
     (\<forall>s. cache_inv disk ids dinv s \<longrightarrow> held s = H \<longrightarrow> disk_view disk s = V \<longrightarrow> p s = Inl e)"

lemma vspec_run:
  assumes "vspec disk ids dinv (held s) (disk_view disk s) p Q" and "cache_inv disk ids dinv s"
  shows "\<exists>r s'. p s = Inr (r, s') \<and> cache_inv disk ids dinv s' \<and> held s' = held s \<and>
    cache_state.more s' = cache_state.more s \<and> Q r (disk_view disk s')"
  using assms unfolding vspec_def by (auto simp: wp_runs)

lemma wp_on_device: "wp (on_device p) Q s = wp p (\<lambda>x d. Q x (s\<lparr>device := d\<rparr>)) (device s)"
  by (simp add: on_device_def wp_def split: sum.splits prod.splits)

lemma keys_update_cached [simp]: "map fst (update_cached i f q) = map fst q"
  by (induction i f q rule: update_cached.induct) auto

lemma map_of_update_cached:
  "map_of (update_cached i f q) j = (if j = i then map_option f (map_of q i) else map_of q j)"
  by (induction i f q rule: update_cached.induct) auto

lemma length_update_cached [simp]: "length (update_cached i f q) = length q"
  using keys_update_cached[of i f q] by (metis length_map)

lemma set_update_cached:
  "p \<in> set (update_cached i f q) \<Longrightarrow> p \<in> set q \<or> (\<exists>bc. (i, bc) \<in> set q \<and> p = (i, f bc))"
  by (induction i f q rule: update_cached.induct) (auto split: if_splits)

lemma disk_view_held [simp]: "disk_view disk (s\<lparr>held := h\<rparr>) = disk_view disk s"
  by (simp add: disk_view_def fun_eq_iff split: option.split)

lemma map_of_apsnd: "map_of (map (apsnd f) xs) i = map_option f (map_of xs i)"
  by (induction xs) auto

context block_device
begin

lemma sync_entry:
  assumes "dinv d" and "entry_inv disk ids d p"
  shows "wp (BlockCache_sync bd (snd p)) (\<lambda>bc d'. dinv d' \<and> disk d' = (disk d)(fst p := bc_cache (snd p)) \<and>
     bc = (snd p)\<lparr>bc_modified := False\<rparr>) d"
proof (cases "bc_modified (snd p)")
  case True
  then show ?thesis
    using write_ok[OF assms(1), of "fst p" "bc_cache (snd p)"] assms(2)
    by (auto simp: BlockCache_sync_def entry_inv_def wp_def prog_defs)
next
  case False
  then show ?thesis
    using assms by (auto simp: BlockCache_sync_def entry_inv_def)
qed

lemma entry_inv_other:
  "entry_inv disk ids d p \<Longrightarrow> disk d' (fst p) = disk d (fst p) \<Longrightarrow> entry_inv disk ids d' p"
  by (simp add: entry_inv_def)

lemma evict_ok:
  assumes inv: "cache_inv disk ids dinv s" and len: "length (held s) < BLOCK_CACHE_SIZE"
    and full: "length (queue s) = BLOCK_CACHE_SIZE"
  shows "wp (evict bd) (\<lambda>_ s'. cache_inv disk ids dinv s' \<and> held s' = held s \<and>
     cache_state.more s' = cache_state.more s \<and> disk_view disk s' = disk_view disk s \<and>
     length (queue s') < BLOCK_CACHE_SIZE \<and> fst ` set (queue s') \<subseteq> fst ` set (queue s)) s"
proof -
  have "\<exists>pair\<in>set (queue s). fst pair \<notin> set (held s)"
  proof (rule ccontr)
    assume "\<not> ?thesis"
    then have "fst ` set (queue s) \<subseteq> set (held s)" by auto
    then have "card (set (map fst (queue s))) \<le> card (set (held s))"
      by (intro card_mono) auto
    then show False
      using inv len full by (simp add: cache_inv_def distinct_card del: set_map)
  qed
  then obtain idx where idx: "position (\<lambda>pair. fst pair \<notin> set (held s)) (queue s) = Some idx"
    using position_None by (metis (mono_tags, lifting) option.exhaust)
  then have i: "idx < length (queue s)" "fst (queue s ! idx) \<notin> set (held s)"
    unfolding position_Some by auto
  define p where "p = queue s ! idx"
  obtain a b where ab: "a = take idx (queue s)" "b = drop (Suc idx) (queue s)" by blast
  have q: "queue s = a @ p # b"
    using i by (simp add: p_def ab id_take_nth_drop)
  have d: "dinv (device s)" and ent: "\<forall>x\<in>set a \<union> set b. entry_inv disk ids (device s) x"
    and p: "entry_inv disk ids (device s) p" and dist: "distinct (map fst (a @ p # b))"
    and held: "distinct (held s)" "set (held s) \<subseteq> insert (fst p) (fst ` (set a \<union> set b))"
    using inv unfolding cache_inv_def q by auto
  have notin: "fst p \<notin> fst ` (set a \<union> set b)"
    using dist by auto
  have none: "map_of a (fst p) = None" "map_of b (fst p) = None"
    using notin by (auto simp: map_of_eq_None_iff)
  have mo: "map_of (queue s) i = (if i = fst p then Some (snd p) else map_of (a @ b) i)" for i
    using none by (cases p) (auto simp: q map_add_def split: option.splits)
  define Q where "Q s' \<longleftrightarrow> cache_inv disk ids dinv s' \<and> held s' = held s \<and>
     cache_state.more s' = cache_state.more s \<and> disk_view disk s' = disk_view disk s \<and>
     length (queue s') < BLOCK_CACHE_SIZE \<and> fst ` set (queue s') \<subseteq> fst ` set (queue s)" for s'
  have post: "Q s'"
    if d': "dinv d'" "disk d' = (disk (device s))(fst p := bc_cache (snd p))"
      and s': "s' = s\<lparr>device := d', queue := a @ b\<rparr>" for d' s'
  proof -
    have "entry_inv disk ids d' x" if "x \<in> set a \<union> set b" for x
    proof -
      have "fst x \<noteq> fst p" using that notin by (metis imageI)
      then show ?thesis using that ent d'(2) by (intro entry_inv_other[of "device s" x d']) auto
    qed
    moreover have "distinct (map fst (a @ b))" "length (a @ b) < BLOCK_CACHE_SIZE"
      "set (held s) \<subseteq> fst ` set (a @ b)"
      using dist full held(2) i(2)[folded p_def] unfolding q by auto
    ultimately have "cache_inv disk ids dinv s'"
      using held(1) d'(1) by (simp add: cache_inv_def s')
    moreover have "disk_view disk s' = disk_view disk s"
    proof
      fix i
      have "map_of (a @ b) (fst p) = None" using none by simp
      then show "disk_view disk s' i = disk_view disk s i"
        by (cases "i = fst p") (simp_all add: disk_view_def s' mo d'(2) del: map_of_append split: option.split)
    qed
    ultimately show ?thesis
      using full by (auto simp add: Q_def s' q)
  qed
  show ?thesis
    unfolding evict_def Q_def[symmetric]
    by (simp add: idx wp_on_device flip: ab p_def)
      (rule wp_mono[OF sync_entry[OF d p]], elim conjE, erule (1) post[OF _ _ refl])
qed

lemma get_block_cache_ok:
  assumes inv: "cache_inv disk ids dinv s" and i: "i \<in> ids" and len: "length (held s) < BLOCK_CACHE_SIZE"
  shows "wp (get_block_cache bd i) (\<lambda>_ s'. cache_inv disk ids dinv s' \<and> held s' = held s \<and>
     cache_state.more s' = cache_state.more s \<and> disk_view disk s' = disk_view disk s \<and>
     i \<in> fst ` set (queue s')) s"
proof (cases "map_of (queue s) i")
  case (Some bc)
  then have "i \<in> fst ` set (queue s)"
    by (auto dest!: map_of_SomeD intro: rev_image_eqI)
  then show ?thesis
    using inv Some by (simp add: get_block_cache_def)
next
  case None
  have load: "wp (on_device (BlockCache_new bd i)) (\<lambda>bc s'.
      cache_inv disk ids dinv (s'\<lparr>queue := queue s' @ [(i, bc)]\<rparr>) \<and> held s' = held s1 \<and>
      cache_state.more s' = cache_state.more s1 \<and>
      disk_view disk (s'\<lparr>queue := queue s' @ [(i, bc)]\<rparr>) = disk_view disk s1) s1"
    if s1: "cache_inv disk ids dinv s1" "length (queue s1) < BLOCK_CACHE_SIZE" "i \<notin> fst ` set (queue s1)" for s1
  proof -
    have d: "dinv (device s1)" using s1 by (simp add: cache_inv_def)
    obtain d' where d': "read_block bd i (device s1) = Inr (disk (device s1) i, d')" "dinv d'"
      "disk d' = disk (device s1)"
      using read_ok[OF d i] by blast
    let ?bc = "\<lparr>bc_cache = disk (device s1) i, bc_block_id = i, bc_modified = False\<rparr>"
    have "on_device (BlockCache_new bd i) s1 = Inr (?bc, s1\<lparr>device := d'\<rparr>)"
      by (simp add: on_device_def BlockCache_new_def prog_defs d')
    moreover have "entry_inv disk ids d' p" if "p \<in> set (queue s1)" for p
    proof -
      have "entry_inv disk ids (device s1) p" using that s1(1) by (simp add: cache_inv_def)
      then show ?thesis by (simp add: entry_inv_def d'(3))
    qed
    moreover have "entry_inv disk ids d' (i, ?bc)"
      using i d'(3) block_length[OF d i] by (simp add: entry_inv_def)
    moreover have "disk_view disk (s1\<lparr>device := d', queue := queue s1 @ [(i, ?bc)]\<rparr>) = disk_view disk s1"
    proof
      fix j
      have "map_of (queue s1) i = None" using s1(3) by (simp add: map_of_eq_None_iff)
      then show "disk_view disk (s1\<lparr>device := d', queue := queue s1 @ [(i, ?bc)]\<rparr>) j = disk_view disk s1 j"
        by (cases "map_of (queue s1) j") (auto simp: disk_view_def map_add_def d'(3))
    qed
    ultimately show ?thesis
      using s1 d'(2) by (auto simp: wp_def cache_inv_def)
  qed
  have i': "i \<notin> fst ` set (queue s)" using None by (simp add: map_of_eq_None_iff)
  show ?thesis
  proof (cases "length (queue s) = BLOCK_CACHE_SIZE")
    case True
    have "wp (evict bd) (\<lambda>_. wp (on_device (BlockCache_new bd i)) (\<lambda>bc s'.
      cache_inv disk ids dinv (s'\<lparr>queue := queue s' @ [(i, bc)]\<rparr>) \<and> held s' = held s \<and>
      cache_state.more s' = cache_state.more s \<and>
      disk_view disk (s'\<lparr>queue := queue s' @ [(i, bc)]\<rparr>) = disk_view disk s)) s"
      using evict_ok[OF inv len True] i'
    proof (elim wp_mono, goal_cases)
      case (1 u s1)
      then have s1: "cache_inv disk ids dinv s1" "length (queue s1) < BLOCK_CACHE_SIZE" "i \<notin> fst ` set (queue s1)"
        by blast+
      from load[OF this] 1 show ?case by (elim wp_mono) simp
    qed
    then show ?thesis
      using True None by (simp add: get_block_cache_def image_iff) (elim wp_mono, auto elim!: wp_mono)
  next
    case False
    then have "length (queue s) < BLOCK_CACHE_SIZE" using inv by (simp add: cache_inv_def)
    from load[OF inv this i'] show ?thesis
      using False None by (simp add: get_block_cache_def) (elim wp_mono, auto)
  qed
qed

abbreviation vs where "vs H V p Q \<equiv> vspec disk ids dinv H V p Q"

lemma vs_ret: "Q r V \<Longrightarrow> vs H V (ret r) Q"
  by (simp add: vspec_def)

lemma vs_andthen:
  fixes p :: "(('d, 'z) cache_state_scheme, 'a) prog"
  assumes "vs H V p (\<lambda>r V'. vs H V' (f r) Q)"
  shows "vs H V (andthen p f) Q"
  unfolding vspec_def
proof (intro allI impI)
  fix s :: "('d, 'z) cache_state_scheme"
  assume "cache_inv disk ids dinv s" "held s = H" "disk_view disk s = V"
  with assms have "wp p (\<lambda>r s'. cache_inv disk ids dinv s' \<and> held s' = H \<and>
      cache_state.more s' = cache_state.more s \<and> vs H (disk_view disk s') (f r) Q) s"
    by (simp add: vspec_def)
  then show "wp (andthen p f) (\<lambda>r s'. cache_inv disk ids dinv s' \<and> held s' = H \<and>
      cache_state.more s' = cache_state.more s \<and> Q r (disk_view disk s')) s"
    unfolding wp_andthen
    by (elim wp_mono) (auto simp: vspec_def elim!: wp_mono)
qed

lemma vs_mono: "vs H V p P \<Longrightarrow> (\<And>r V'. P r V' \<Longrightarrow> Q r V') \<Longrightarrow> vs H V p Q"
  unfolding vspec_def by (blast intro: wp_mono)

lemma vs_assert_that: "b \<Longrightarrow> Q () V \<Longrightarrow> vs H V (assert_that b) Q"
  by (simp add: vspec_def)

lemma vs_unwrap: "r = Some x \<Longrightarrow> Q x V \<Longrightarrow> vs H V (unwrap r) Q"
  by (simp add: vspec_def)

lemma vs_lift_res: "r = Inr x \<Longrightarrow> Q x V \<Longrightarrow> vs H V (lift_res r) Q"
  by (simp add: vspec_def)

lemma view_length: "cache_inv disk ids dinv s \<Longrightarrow> i \<in> ids \<Longrightarrow> length (disk_view disk s i) = BLOCK_SZ"
  by (auto simp: disk_view_def cache_inv_def entry_inv_def block_length split: option.splits
      dest!: map_of_SomeD)

text \<open>Every view has blocks of the right size; the rules may use this.\<close>

lemma vs_sized:
  assumes "(\<And>i. i \<in> ids \<Longrightarrow> length (V i) = BLOCK_SZ) \<Longrightarrow> vs H V p Q"
  shows "vs H V p Q"
  using assms view_length unfolding vspec_def by blast

lemma cached_view: "i \<in> fst ` set (queue s) \<Longrightarrow> cached i (queue s) = disk_view disk s i"
  by (auto simp: cached_def disk_view_def map_of_eq_None_iff split: option.splits)

text \<open>Rules for a locked block.\<close>

lemma vs_cached:
  fixes Q :: "byte list \<Rightarrow> (nat \<Rightarrow> byte list) \<Rightarrow> bool"
  assumes "i \<in> set H" and "Q (V i) V"
  shows "vs H V (gets (\<lambda>s :: ('d, 'z) cache_state_scheme. cached i (queue s))) Q"
  unfolding vspec_def
proof (intro allI impI)
  fix s :: "('d, 'z) cache_state_scheme"
  assume s: "cache_inv disk ids dinv s" "held s = H" "disk_view disk s = V"
  then have "i \<in> fst ` set (queue s)" using assms(1) by (auto simp: cache_inv_def)
  then show "wp (gets (\<lambda>s. cached i (queue s))) (\<lambda>r s'. cache_inv disk ids dinv s' \<and> held s' = H \<and>
      cache_state.more s' = cache_state.more s \<and> Q r (disk_view disk s')) s"
    using s assms(2) by (simp add: cached_view)
qed

lemma vs_update_cached:
  assumes "i \<in> set H" and "length (g (V i)) = BLOCK_SZ" and "Q () (V(i := g (V i)))"
  shows "vs H V (modifies (\<lambda>s. s\<lparr>queue := update_cached i
     (\<lambda>bc. bc\<lparr>bc_cache := g (bc_cache bc), bc_modified := True\<rparr>) (queue s)\<rparr>)) Q"
proof -
  have view: "disk_view disk (s\<lparr>queue := update_cached i f (queue s)\<rparr>) =
      (disk_view disk s)(i := g (disk_view disk s i))"
    if "i \<in> fst ` set (queue s)" and "\<And>bc. bc_cache (f bc) = g (bc_cache bc)" for s f
  proof -
    have "map_of (queue s) i \<noteq> None" using that(1) by (simp add: map_of_eq_None_iff)
    then show ?thesis
      using that(2) by (auto simp: disk_view_def map_of_update_cached fun_eq_iff split: option.splits)
  qed
  have inv: "cache_inv disk ids dinv (s\<lparr>queue := update_cached i
      (\<lambda>bc. bc\<lparr>bc_cache := g (bc_cache bc), bc_modified := True\<rparr>) (queue s)\<rparr>)"
    if s: "cache_inv disk ids dinv s" "length (g (disk_view disk s i)) = BLOCK_SZ" for s
  proof -
    have ent: "entry_inv disk ids (device s) p"
      if "p \<in> set (update_cached i (\<lambda>bc. bc\<lparr>bc_cache := g (bc_cache bc), bc_modified := True\<rparr>) (queue s))" for p
      using set_update_cached[OF that]
    proof (elim disjE exE conjE)
      fix bc assume bc: "(i, bc) \<in> set (queue s)"
        and p: "p = (i, bc\<lparr>bc_cache := g (bc_cache bc), bc_modified := True\<rparr>)"
      have "map_of (queue s) i = Some bc"
        using s(1) bc by (simp add: cache_inv_def)
      then show ?thesis
        using s bc by (auto simp: p cache_inv_def entry_inv_def disk_view_def)
    qed (use s(1) in \<open>simp add: cache_inv_def\<close>)
    have "fst ` set (update_cached i f (queue s)) = fst ` set (queue s)" for f
      by (metis keys_update_cached set_map)
    with ent show ?thesis using s(1) by (simp add: cache_inv_def)
  qed
  have key: "i \<in> fst ` set (queue s)" if "cache_inv disk ids dinv s" "held s = H" for s
    using that assms(1) by (auto simp: cache_inv_def)
  show ?thesis
    unfolding vspec_def using assms(2,3) by (auto simp: inv view key)
qed

lemma vs_locked:
  fixes body :: "(('d, 'z) cache_state_scheme, 'v) prog"
  assumes i: "i \<in> ids" "i \<notin> set H" "length H < BLOCK_CACHE_SIZE" and body: "vs (i # H) V body Q"
  shows "vs H V (andthen (get_block_cache bd i) (\<lambda>_. with_lock i body)) Q"
  unfolding vspec_def
proof (intro allI impI)
  fix s :: "('d, 'z) cache_state_scheme"
  assume s: "cache_inv disk ids dinv s" "held s = H" "disk_view disk s = V"
  have run: "wp body (\<lambda>r s2. cache_inv disk ids dinv (s2\<lparr>held := H\<rparr>) \<and>
      cache_state.more s2 = cache_state.more s \<and> Q r (disk_view disk s2)) (s1\<lparr>held := i # H\<rparr>)"
    if s1: "cache_inv disk ids dinv s1" "held s1 = H" "disk_view disk s1 = V" "i \<in> fst ` set (queue s1)"
      "cache_state.more s1 = cache_state.more s" for s1
  proof -
    have "cache_inv disk ids dinv (s1\<lparr>held := i # H\<rparr>)"
      using s1 i by (simp add: cache_inv_def)
    then have "wp body (\<lambda>r s2. cache_inv disk ids dinv s2 \<and> held s2 = i # H \<and>
        cache_state.more s2 = cache_state.more s \<and> Q r (disk_view disk s2)) (s1\<lparr>held := i # H\<rparr>)"
      using body[unfolded vspec_def, rule_format, of "s1\<lparr>held := i # H\<rparr>"] s1(3,5) by simp
    then show ?thesis
      by (elim wp_mono) (auto simp: cache_inv_def)
  qed
  have "wp (get_block_cache bd i) (\<lambda>_ s1. cache_inv disk ids dinv s1 \<and> held s1 = H \<and>
      cache_state.more s1 = cache_state.more s \<and> disk_view disk s1 = V \<and> i \<in> fst ` set (queue s1)) s"
    using get_block_cache_ok[OF s(1) i(1)] s i(3) by simp
  then show "wp (andthen (get_block_cache bd i) (\<lambda>_. with_lock i body)) (\<lambda>r s'. cache_inv disk ids dinv s' \<and>
      held s' = H \<and> cache_state.more s' = cache_state.more s \<and> Q r (disk_view disk s')) s"
    unfolding wp_andthen
  proof (elim wp_mono conjE, goal_cases)
    case (1 u s1)
    then show ?case
      using run[of s1] i(2) by (auto simp: with_lock_def elim!: wp_mono)
  qed
qed

lemma vs_cache_read:
  assumes i: "i \<in> ids" "i \<notin> set H" "length H < BLOCK_CACHE_SIZE" and off: "off + sz \<le> BLOCK_SZ"
    and dec: "dec (slice off sz (V i)) = Inr t" and f: "vs (i # H) V (f t) Q"
  shows "vs H V (cache_read bd i off sz dec f) Q"
  unfolding cache_read_def
  by (intro vs_locked[OF i] vs_andthen vs_assert_that vs_cached) (simp_all add: off dec f vs_lift_res)

lemma vs_cache_modify:
  assumes i: "i \<in> ids" "i \<notin> set H" "length H < BLOCK_CACHE_SIZE" and off: "off + sz \<le> BLOCK_SZ"
    and dec: "dec (slice off sz (V i)) = Inr t"
    and f: "vs (i # H) V (f t) (\<lambda>(r, t') V'. length (enc (slice off sz (V' i)) t') = sz \<and>
        (length (V' i) = BLOCK_SZ \<longrightarrow> Q r (V'(i := overwrite off (enc (slice off sz (V' i)) t') (V' i)))))"
  shows "vs H V (cache_modify bd i off sz dec enc f) Q"
proof -
  have upd: "vs (i # H) V' (andthen (modifies (\<lambda>s. s\<lparr>queue := update_cached i (\<lambda>bc. bc\<lparr>bc_cache :=
        overwrite off (enc (slice off sz (bc_cache bc)) t') (bc_cache bc), bc_modified := True\<rparr>) (queue s)\<rparr>)) (\<lambda>_. ret r)) Q"
    if l: "length (enc (slice off sz (V' i)) t') = sz"
      and q: "length (V' i) = BLOCK_SZ \<longrightarrow> Q r (V'(i := overwrite off (enc (slice off sz (V' i)) t') (V' i)))" for V' r t'
  proof (rule vs_sized)
    assume sz: "\<And>j. j \<in> ids \<Longrightarrow> length (V' j) = BLOCK_SZ"
    show ?thesis
      using l q sz[OF i(1)] off
      by (intro vs_andthen vs_update_cached[where g = "\<lambda>b. overwrite off (enc (slice off sz b) t') b"])
        (auto intro: vs_ret)
  qed
  show ?thesis
    unfolding cache_modify_def
    by (intro vs_locked[OF i] vs_andthen vs_assert_that vs_cached)
      (auto simp: off dec intro!: vs_lift_res vs_andthen[OF vs_mono[OF f]] upd)
qed

lemma sync_queue_ok:
  assumes "dinv d" and "distinct (map fst q)" and "\<forall>p\<in>set q. entry_inv disk ids d p"
    and "set locked \<inter> fst ` set q = {}"
  shows "wp (sync_queue bd locked q) (\<lambda>q' d'. dinv d' \<and> q' = map (apsnd (bc_modified_update (\<lambda>_. False))) q \<and>
     disk d' = (\<lambda>i. case map_of q i of None \<Rightarrow> disk d i | Some bc \<Rightarrow> bc_cache bc)) d"
  using assms
proof (induction q arbitrary: d)
  case Nil
  then show ?case by simp
next
  case (Cons p q)
  obtain i bc where p: "p = (i, bc)" by (cases p)
  have rest: "wp (sync_queue bd locked q) (\<lambda>q' d2. dinv d2 \<and>
      q' = map (apsnd (bc_modified_update (\<lambda>_. False))) q \<and>
      disk d2 = (\<lambda>j. case map_of (p # q) j of None \<Rightarrow> disk d j | Some bc \<Rightarrow> bc_cache bc)) d1"
    if d1: "dinv d1" "disk d1 = (disk d)(i := bc_cache bc)" for d1
  proof -
    have none: "map_of q i = None"
      using Cons.prems(2) p by (simp add: map_of_eq_None_iff)
    have "entry_inv disk ids d1 x" if "x \<in> set q" for x
    proof -
      have "fst x \<noteq> i" using Cons.prems(2) that p by (auto simp: rev_image_eqI)
      then show ?thesis
        using Cons.prems(3) that d1(2) by (simp add: entry_inv_def)
    qed
    then have "wp (sync_queue bd locked q) (\<lambda>q' d'. dinv d' \<and>
        q' = map (apsnd (bc_modified_update (\<lambda>_. False))) q \<and>
        disk d' = (\<lambda>i. case map_of q i of None \<Rightarrow> disk d1 i | Some bc \<Rightarrow> bc_cache bc)) d1"
      using Cons.prems d1 by (intro Cons.IH) auto
    then show ?thesis
      by (elim wp_mono) (auto simp: p d1 none fun_eq_iff split: option.splits)
  qed
  have "wp (BlockCache_sync bd bc) (\<lambda>bc' d1. dinv d1 \<and> disk d1 = (disk d)(i := bc_cache bc) \<and>
      bc' = bc\<lparr>bc_modified := False\<rparr>) d"
    using sync_entry[OF Cons.prems(1), of p] Cons.prems(3) p by simp
  moreover have "i \<notin> set locked" using Cons.prems(4) p by auto
  ultimately show ?case
    by (auto simp: p elim!: wp_mono intro!: wp_mono[OF rest])
qed

lemma sync_all_ok:
  assumes inv: "cache_inv disk ids dinv s" and free: "held s = []"
  shows "wp (block_cache_sync_all bd) (\<lambda>_ s'. cache_inv disk ids dinv s' \<and> held s' = [] \<and>
     cache_state.more s' = cache_state.more s \<and> disk_view disk s' = disk_view disk s \<and>
     disk (device s') = disk_view disk s \<and> (\<forall>p\<in>set (queue s'). \<not> bc_modified (snd p))) s"
proof -
  have fin: "cache_inv disk ids dinv s' \<and> disk_view disk s' = disk_view disk s \<and> disk d' = disk_view disk s"
    if d': "dinv d'" "disk d' = (\<lambda>i. case map_of (queue s) i of None \<Rightarrow> disk (device s) i | Some bc \<Rightarrow> bc_cache bc)"
      and s': "s' = s\<lparr>device := d', queue := map (apsnd (bc_modified_update (\<lambda>_. False))) (queue s)\<rparr>" for d' s'
  proof -
    have view: "disk d' = disk_view disk s"
      by (simp add: d'(2) disk_view_def fun_eq_iff)
    have "disk_view disk s' = disk_view disk s"
      by (auto simp: disk_view_def fun_eq_iff s' d'(2) map_of_apsnd split: option.splits)
    moreover have "entry_inv disk ids d' p" if "p \<in> set (queue s')" for p
    proof -
      have "p \<in> apsnd (bc_modified_update (\<lambda>_. False)) ` set (queue s)"
        using that by (simp add: s')
      then obtain x where x: "x \<in> set (queue s)" "p = apsnd (bc_modified_update (\<lambda>_. False)) x" ..
      have "map_of (queue s) (fst x) = Some (snd x)"
        using x inv by (simp add: cache_inv_def)
      then have "disk d' (fst x) = bc_cache (snd x)" unfolding d'(2) by simp
      then show ?thesis
        using inv x by (simp add: cache_inv_def entry_inv_def)
    qed
    moreover have "map fst (queue s') = map fst (queue s)" by (simp add: s')
    ultimately show ?thesis
      using inv view free d'(1) by (simp add: cache_inv_def s')
  qed
  have "wp (sync_queue bd [] (queue s)) (\<lambda>q' d'. dinv d' \<and>
      q' = map (apsnd (bc_modified_update (\<lambda>_. False))) (queue s) \<and>
      disk d' = (\<lambda>i. case map_of (queue s) i of None \<Rightarrow> disk (device s) i | Some bc \<Rightarrow> bc_cache bc)) (device s)"
    using inv free by (intro sync_queue_ok) (auto simp: cache_inv_def)
  then show ?thesis
    unfolding block_cache_sync_all_def
    by (simp add: free wp_on_device) (elim wp_mono, use fin[OF _ _ refl] free in auto)
qed

lemma vs_sync_all: "Q () V \<Longrightarrow> vs [] V (block_cache_sync_all bd) Q"
  unfolding vspec_def by (intro allI impI, rule wp_mono[OF sync_all_ok]) auto

abbreviation vp where "vp H V p e \<equiv> vpanic disk ids dinv H V p e"

lemma vp_sized:
  assumes "(\<And>i. i \<in> ids \<Longrightarrow> length (V i) = BLOCK_SZ) \<Longrightarrow> vp H V p e"
  shows "vp H V p e"
  using assms view_length unfolding vpanic_def by blast

lemma vp_throw: "vp H V (throw e) e"
  by (simp add: vpanic_def throw_def)

lemma vp_first: "vp H V p e \<Longrightarrow> vp H V (andthen p f) e"
  by (simp add: vpanic_def andthen_def)

lemma vp_assert_that: "\<not> b \<Longrightarrow> vp H V (assert_that b) AssertFailed"
  by (simp add: vpanic_def assert_that_def throw_def)

lemma vp_andthen:
  assumes "vs H V p (\<lambda>r V'. vp H V' (f r) e)"
  shows "vp H V (andthen p f) e"
  using assms unfolding vspec_def vpanic_def wp_runs by (force simp: andthen_def)

lemma vp_locked:
  fixes body :: "(('d, 'z) cache_state_scheme, 'v) prog"
  assumes i: "i \<in> ids" "i \<notin> set H" "length H < BLOCK_CACHE_SIZE" and body: "vp (i # H) V body e"
  shows "vp H V (andthen (get_block_cache bd i) (\<lambda>_. with_lock i body)) e"
  unfolding vpanic_def
proof (intro allI impI)
  fix s :: "('d, 'z) cache_state_scheme"
  assume s: "cache_inv disk ids dinv s" "held s = H" "disk_view disk s = V"
  obtain s1 where s1: "get_block_cache bd i s = Inr ((), s1)" "cache_inv disk ids dinv s1" "held s1 = H"
    "disk_view disk s1 = V" "i \<in> fst ` set (queue s1)"
    using get_block_cache_ok[OF s(1) i(1)] i(3) s by (auto simp: wp_runs)
  have "cache_inv disk ids dinv (s1\<lparr>held := i # H\<rparr>)"
    using s1 i by (simp add: cache_inv_def)
  then have "body (s1\<lparr>held := i # H\<rparr>) = Inl e"
    using body s1(4) by (simp add: vpanic_def)
  then show "andthen (get_block_cache bd i) (\<lambda>_. with_lock i body) s = Inl e"
    using s1 i by (simp add: with_lock_def prog_defs)
qed

lemma vp_cache_read:
  assumes i: "i \<in> ids" "i \<notin> set H" "length H < BLOCK_CACHE_SIZE" and off: "off + sz \<le> BLOCK_SZ"
    and dec: "dec (slice off sz (V i)) = Inr t" and f: "vp (i # H) V (f t) e"
  shows "vp H V (cache_read bd i off sz dec f) e"
  unfolding cache_read_def
  by (intro vp_locked[OF i] vp_andthen vs_assert_that vs_cached) (simp_all add: off dec f vs_lift_res)

lemma vp_cache_modify:
  assumes i: "i \<in> ids" "i \<notin> set H" "length H < BLOCK_CACHE_SIZE" and off: "off + sz \<le> BLOCK_SZ"
    and dec: "dec (slice off sz (V i)) = Inr t" and f: "vp (i # H) V (f t) e"
  shows "vp H V (cache_modify bd i off sz dec enc f) e"
  unfolding cache_modify_def
  by (intro vp_locked[OF i] vp_andthen vs_assert_that vs_cached)
    (auto simp: off dec intro!: vs_lift_res vp_first f)

end

end
