(* ===== verification/Block_File.thy ===== *)
theory Block_File
  imports Block_View
begin

text \<open>
  \<^verbatim>\<open>BlockFile\<close> of \<^verbatim>\<open>easy-fs-fuse/src/main.rs\<close>, the block device the image is packed on: a host
  file addressed in units of a block. Its state is the file's bytes. A read past the end of the
  file comes back short, a write past the end fills the gap with zeros, as on the host. It keeps
  the contract \<open>block_device\<close> for the blocks inside the file.
\<close>

definition BlockFile_read_block :: "nat \<Rightarrow> (byte list, byte list) prog" where
  "BlockFile_read_block block_id =
     andthen (gets (\<lambda>file. slice (block_id * 512) 512 file)) (\<lambda>buf.
     andthen (assert_that (length buf = 512)) (\<lambda>_. ret buf))"

definition BlockFile_write_block :: "nat \<Rightarrow> byte list \<Rightarrow> (byte list, unit) prog" where
  "BlockFile_write_block block_id buf =
     andthen (modifies (\<lambda>file. overwrite (block_id * 512) buf
         (file @ replicate (block_id * 512 + length buf - length file) 0))) (\<lambda>_.
     assert_that (length buf = 512))"

definition BlockFile :: "byte list BlockDevice" where
  "BlockFile = \<lparr>read_block = BlockFile_read_block, write_block = BlockFile_write_block\<rparr>"

definition file_block :: "byte list \<Rightarrow> nat \<Rightarrow> byte list" where
  "file_block file i = slice (i * 512) 512 file"

lemma file_block_overwrite:
  assumes "length b = 512" and "i < n" and "length file = n * 512"
  shows "file_block (overwrite (i * 512) b file) = (file_block file)(i := b)"
proof
  fix j
  have le: "i * 512 + 512 \<le> length file"
    using assms(2,3) by simp
  show "file_block (overwrite (i * 512) b file) j = ((file_block file)(i := b)) j"
  proof (cases "j < n")
    case True
    then have "j * 512 + 512 \<le> length file" using assms(3) by simp
    then show ?thesis
      using le assms(1) by (cases "j = i") (auto simp: file_block_def intro!: slice_overwrite_other)
  next
    case False
    then show ?thesis
      using le assms by (auto simp: file_block_def slice_def)
  qed
qed

interpretation bf: block_device BlockFile file_block "{..<n}" "\<lambda>file. length file = n * 512" for n
proof unfold_locales
  fix d b :: "byte list" and i
  assume d: "length d = n * 512" and i: "i \<in> {..<n}"
  then have le: "i * 512 + 512 \<le> length d" by simp
  show "\<exists>d'. read_block BlockFile i d = Inr (file_block d i, d') \<and> length d' = n * 512 \<and> file_block d' = file_block d"
    using d le by (simp add: BlockFile_def BlockFile_read_block_def prog_defs file_block_def)
  show "length (file_block d i) = BLOCK_SZ"
    using le by (simp add: file_block_def BLOCK_SZ_def)
  assume b: "length b = BLOCK_SZ"
  then show "\<exists>d'. write_block BlockFile i b d = Inr ((), d') \<and> length d' = n * 512 \<and>
      file_block d' = (file_block d)(i := b)"
    using d i le file_block_overwrite[of b i n d]
    by (simp add: BlockFile_def BlockFile_write_block_def prog_defs BLOCK_SZ_def)
qed

section \<open>Properties of the cache\<close>

text \<open>An empty cache over an image of \<open>n\<close> zeroed blocks.\<close>

definition fresh_image :: "nat \<Rightarrow> byte list cache_state" where
  "fresh_image n = \<lparr>device = replicate (n * 512) 0, queue = [], held = []\<rparr>"

lemma fresh_image_inv: "cache_inv file_block {..<n} (\<lambda>f. length f = n * 512) (fresh_image n)"
  by (simp add: cache_inv_def fresh_image_def)

text \<open>
  C10: the cache is transparent. On any device that keeps its contract, getting a block that is not
  locked succeeds while fewer than 16 blocks are locked, whatever has to be evicted and written back,
  and the disk seen through the cache does not change.
\<close>

theorem get_block_cache_transparent:
  assumes "block_device bd disk ids dinv" and "cache_inv disk ids dinv s" and "i \<in> ids"
    and "length (held s) < BLOCK_CACHE_SIZE"
  shows "\<exists>s'. get_block_cache bd i s = Inr ((), s') \<and> cache_inv disk ids dinv s' \<and> held s' = held s \<and>
    disk_view disk s' = disk_view disk s \<and> map_of (queue s') i \<noteq> None"
  using block_device.get_block_cache_ok[OF assms]
  by (auto simp: wp_runs map_of_eq_None_iff)

theorem get_block_cache_transparent_witness:
  "block_device BlockFile file_block {..<32} (\<lambda>f. length f = 32 * 512) \<and>
   cache_inv file_block {..<32} (\<lambda>f. length f = 32 * 512) (fresh_image 32) \<and>
   length (held (fresh_image 32)) < BLOCK_CACHE_SIZE \<and>
   (\<exists>s'. get_block_cache BlockFile 3 (fresh_image 32) = Inr ((), s') \<and>
      disk_view file_block s' = disk_view file_block (fresh_image 32))"
  using get_block_cache_transparent[OF bf.block_device_axioms fresh_image_inv, of 3 32]
    bf.block_device_axioms[of 32] fresh_image_inv[of 32]
  by (auto simp: fresh_image_def BLOCK_CACHE_SIZE_def)

text \<open>
  C11: \<^verbatim>\<open>block_cache_sync_all\<close> makes the file system durable: when no block is locked it succeeds, every
  block on the device is what the cache showed, nothing is left marked as modified, and the disk seen
  through the cache is unchanged.
\<close>

theorem block_cache_sync_all_durable:
  assumes "block_device bd disk ids dinv" and "cache_inv disk ids dinv s" and "held s = []"
  shows "\<exists>s'. block_cache_sync_all bd s = Inr ((), s') \<and> cache_inv disk ids dinv s' \<and>
    disk_view disk s' = disk_view disk s \<and> disk (device s') = disk_view disk s \<and>
    (\<forall>p\<in>set (queue s'). \<not> bc_modified (snd p))"
  using block_device.sync_all_ok[OF assms] by (auto simp: wp_runs)

theorem block_cache_sync_all_durable_witness:
  "block_device BlockFile file_block {..<32} (\<lambda>f. length f = 32 * 512) \<and>
   cache_inv file_block {..<32} (\<lambda>f. length f = 32 * 512) (fresh_image 32) \<and> held (fresh_image 32) = [] \<and>
   (\<exists>s'. block_cache_sync_all BlockFile (fresh_image 32) = Inr ((), s') \<and>
      file_block (device s') = disk_view file_block (fresh_image 32))"
  using block_cache_sync_all_durable[OF bf.block_device_axioms fresh_image_inv, of 32]
    bf.block_device_axioms[of 32] fresh_image_inv[of 32]
  by (auto simp: fresh_image_def)

end
