(* ===== verification/Bitmap.thy ===== *)
theory Bitmap
  imports Codec Block_File
begin

unbundle bit_operations_syntax

text \<open>
  The allocation bitmaps: \<^verbatim>\<open>easy-fs/src/bitmap.rs\<close>. A bitmap is a run of blocks seen as arrays of 64
  words. \<open>bitmap_bit\<close> is bit \<open>k\<close> of the whole bitmap; \<^verbatim>\<open>alloc\<close> sets the lowest clear bit and
  nothing else, \<^verbatim>\<open>dealloc\<close> clears one set bit and nothing else.
\<close>

section \<open>Model\<close>

definition BLOCK_BITS :: nat where "BLOCK_BITS = BLOCK_SZ * 8"

record Bitmap =
  start_block_id :: nat
  bm_blocks :: nat

definition Bitmap_new :: "nat \<Rightarrow> nat \<Rightarrow> Bitmap" where
  "Bitmap_new start blocks = \<lparr>start_block_id = start, bm_blocks = blocks\<rparr>"

definition decomposition :: "nat \<Rightarrow> nat \<times> nat \<times> nat" where
  "decomposition k = (k div BLOCK_BITS, k mod BLOCK_BITS div 64, k mod BLOCK_BITS mod 64)"

definition trailing_ones :: "u64 \<Rightarrow> nat" where
  "trailing_ones w = length (takeWhile (bit w) [0..<64])"

definition decode_bitmap_block :: "byte list \<Rightarrow> u64 list res" where
  "decode_bitmap_block bs = Inr (words_of_bytes 8 64 bs)"

definition encode_bitmap_block :: "byte list \<Rightarrow> u64 list \<Rightarrow> byte list" where
  "encode_bitmap_block old ws = bytes_of_words 8 ws"

definition alloc_in_block :: "nat \<Rightarrow> u64 list \<Rightarrow> nat option \<times> u64 list" where
  "alloc_in_block block_id ws =
     (case position (\<lambda>bits64. bits64 \<noteq> - 1) ws of
        Some bits64_pos \<Rightarrow>
          let inner_pos = trailing_ones (ws ! bits64_pos) in
          (Some (block_id * BLOCK_BITS + bits64_pos * 64 + inner_pos),
           ws[bits64_pos := ws ! bits64_pos OR push_bit inner_pos 1])
      | None \<Rightarrow> (None, ws))"

fun Bitmap_alloc_loop :: "'d BlockDevice \<Rightarrow> Bitmap \<Rightarrow> nat list \<Rightarrow> (('d, 'z) cache_state_scheme, nat option) prog" where
  "Bitmap_alloc_loop bd bm [] = ret None"
| "Bitmap_alloc_loop bd bm (block_id # block_ids) =
     andthen (cache_modify bd (block_id + start_block_id bm) 0 BLOCK_SZ decode_bitmap_block encode_bitmap_block
       (\<lambda>bitmap_block. ret (alloc_in_block block_id bitmap_block))) (\<lambda>pos.
     if pos \<noteq> None then ret pos else Bitmap_alloc_loop bd bm block_ids)"

definition Bitmap_alloc :: "'d BlockDevice \<Rightarrow> Bitmap \<Rightarrow> (('d, 'z) cache_state_scheme, nat option) prog" where
  "Bitmap_alloc bd bm = Bitmap_alloc_loop bd bm [0..<bm_blocks bm]"

definition Bitmap_dealloc :: "'d BlockDevice \<Rightarrow> Bitmap \<Rightarrow> nat \<Rightarrow> (('d, 'z) cache_state_scheme, unit) prog" where
  "Bitmap_dealloc bd bm k =
     (case decomposition k of (block_pos, bits64_pos, inner_pos) \<Rightarrow>
       cache_modify bd (block_pos + start_block_id bm) 0 BLOCK_SZ decode_bitmap_block encode_bitmap_block
         (\<lambda>bitmap_block.
           andthen (assert_that (bitmap_block ! bits64_pos AND push_bit inner_pos 1 > 0)) (\<lambda>_.
           ret ((), bitmap_block[bits64_pos := bitmap_block ! bits64_pos - push_bit inner_pos 1]))))"

definition Bitmap_maximum :: "Bitmap \<Rightarrow> nat" where
  "Bitmap_maximum bm = bm_blocks bm * BLOCK_BITS"

section \<open>Words\<close>

lemma trailing_ones_bit:
  assumes "w \<noteq> - 1"
  shows "trailing_ones w < 64" and "\<not> bit w (trailing_ones w)" and "\<And>i. i < trailing_ones w \<Longrightarrow> bit w i"
proof -
  let ?t = "takeWhile (bit w) [0..<64]"
  have "\<exists>n<64. \<not> bit w n"
  proof (rule ccontr)
    assume "\<not> ?thesis"
    then have "w = - 1" by (intro bit_word_eqI) simp
    with assms show False ..
  qed
  then have "?t \<noteq> [0..<64]"
    by (metis (mono_tags, lifting) atLeastLessThan_iff set_upt takeWhile_eq_all_conv zero_le)
  then have len: "length ?t < 64"
    using length_takeWhile_le[of "bit w" "[0..<64]"] takeWhile_eq_take[of "bit w" "[0..<64]"]
    by (cases "length ?t = 64") auto
  then show "trailing_ones w < 64" by (simp add: trailing_ones_def)
  show "\<not> bit w (trailing_ones w)"
    using nth_length_takeWhile[of "bit w" "[0..<64]"] len by (simp add: trailing_ones_def)
  show "bit w i" if "i < trailing_ones w" for i
    using that len takeWhile_nth[of i "bit w" "[0..<64]"] nth_mem[of i ?t] set_takeWhileD
    by (fastforce simp: trailing_ones_def)
qed

lemma bit_set: "n < 64 \<Longrightarrow> bit ((w :: u64) OR push_bit n 1) i \<longleftrightarrow> bit w i \<or> i = n"
  by (auto simp: bit_simps)

lemma bit_test: "(w :: u64) AND push_bit n 1 > 0 \<longleftrightarrow> bit w n"
  by (simp add: bit_iff_and_push_bit_not_eq_0 word_neq_0_conv)

lemma bit_clear:
  assumes "bit (w :: u64) n"
  shows "bit (w - push_bit n 1) i \<longleftrightarrow> bit w i \<and> i \<noteq> n"
proof -
  have n: "n < 64" using bit_imp_le_length[OF assms] by simp
  have "(unset_bit n w) AND push_bit n 1 = 0"
    by (rule bit_word_eqI) (auto simp: bit_simps)
  then have "unset_bit n w + push_bit n 1 = unset_bit n w OR push_bit n 1"
    by (rule disjunctive_add_eq_or)
  also have "\<dots> = w"
    using assms n by (intro bit_word_eqI) (auto simp: bit_simps)
  finally have "w - push_bit n 1 = unset_bit n w"
    by (metis add_diff_cancel_right')
  then show ?thesis by (simp add: bit_simps) blast
qed

lemmas bit_words = bit_set[unfolded push_bit_of_1] bit_test[unfolded push_bit_of_1] bit_clear[unfolded push_bit_of_1]

section \<open>Bits of a bitmap\<close>

definition block_bit :: "u64 list \<Rightarrow> nat \<Rightarrow> bool" where
  "block_bit ws j = bit (ws ! (j div 64)) (j mod 64)"

definition bitmap_bit :: "(nat \<Rightarrow> byte list) \<Rightarrow> Bitmap \<Rightarrow> nat \<Rightarrow> bool" where
  "bitmap_bit V bm k =
     block_bit (words_of_bytes 8 64 (V (k div BLOCK_BITS + start_block_id bm))) (k mod BLOCK_BITS)"

lemma div64_less: "(j :: nat) < 4096 \<Longrightarrow> j div 64 < 64"
  by simp

lemma block_bit_update:
  assumes "length ws = 64" and "p < 64" and "j < 4096"
  shows "block_bit (ws[p := w]) j = (if j div 64 = p then bit w (j mod 64) else block_bit ws j)"
  using assms by (simp add: block_bit_def nth_list_update)

lemma alloc_in_block_None:
  assumes "length ws = 64" and "alloc_in_block b ws = (None, ws')"
  shows "ws' = ws \<and> (\<forall>j<4096. block_bit ws j)"
proof -
  have none: "position (\<lambda>w. w \<noteq> - 1) ws = None" "ws' = ws"
    using assms(2) by (auto simp: alloc_in_block_def Let_def split: option.splits)
  have "bit (ws ! (j div 64)) (j mod 64)" if "j < 4096" for j
  proof -
    have "ws ! (j div 64) = - 1"
      using none(1)[unfolded position_None, rule_format, of "ws ! (j div 64)"] that assms(1) by simp
    then show ?thesis by simp
  qed
  then show ?thesis using none(2) by (simp add: block_bit_def)
qed

lemma alloc_in_block_Some:
  assumes "length ws = 64" and "alloc_in_block b ws = (Some k, ws')"
  shows "\<exists>j<4096. k = b * BLOCK_BITS + j \<and> \<not> block_bit ws j \<and> (\<forall>i<j. block_bit ws i) \<and>
    length ws' = 64 \<and> (\<forall>i<4096. block_bit ws' i \<longleftrightarrow> block_bit ws i \<or> i = j)"
proof -
  obtain p where p: "position (\<lambda>w. w \<noteq> - 1) ws = Some p"
    using assms(2) by (auto simp: alloc_in_block_def split: option.splits)
  let ?n = "trailing_ones (ws ! p)"
  have ws': "ws' = ws[p := ws ! p OR push_bit ?n 1]" and k: "k = b * BLOCK_BITS + (p * 64 + ?n)"
    using assms(2) p by (auto simp: alloc_in_block_def Let_def)
  have p': "p < 64" "ws ! p \<noteq> - 1" "\<And>i. i < p \<Longrightarrow> ws ! i = - 1"
    using p assms(1) unfolding position_Some by auto
  note n = trailing_ones_bit[OF p'(2)]
  let ?j = "p * 64 + ?n"
  have j: "?j < 4096" "?j div 64 = p" "?j mod 64 = ?n"
    using p'(1) n(1) by simp_all
  have low: "block_bit ws i" if "i < ?j" for i
  proof (cases "i div 64 = p")
    case True
    then have "i mod 64 < ?n" using that by (metis add_less_cancel_left div_mult_mod_eq mult.commute)
    then show ?thesis using True n(3) by (simp add: block_bit_def)
  next
    case False
    then have "i div 64 < p" using that n(1) by simp
    then show ?thesis using p'(3) by (simp add: block_bit_def)
  qed
  have "block_bit ws' i \<longleftrightarrow> block_bit ws i \<or> i = ?j" if i: "i < 4096" for i
  proof (cases "i div 64 = p")
    case True
    then have "i = ?j \<longleftrightarrow> i mod 64 = ?n" by (metis div_mult_mod_eq j(2,3))
    then show ?thesis
      using True i assms(1) p'(1) n(1) by (simp add: ws' block_bit_update bit_words) (simp add: block_bit_def)
  next
    case False
    then show ?thesis
      using i assms(1) p'(1) j(2) by (auto simp: ws' block_bit_update)
  qed
  then show ?thesis
    using j n(2) low k assms(1) by (intro exI[of _ ?j]) (auto simp: block_bit_def ws')
qed

lemma clear_in_block:
  assumes "length ws = 64" and "j < 4096" and "k < 4096" and "block_bit ws k"
  shows "block_bit (ws[k div 64 := ws ! (k div 64) - 2 ^ (k mod 64)]) j \<longleftrightarrow> block_bit ws j \<and> j \<noteq> k"
proof (cases "j div 64 = k div 64")
  case True
  then have "j = k \<longleftrightarrow> j mod 64 = k mod 64" by (metis div_mult_mod_eq)
  then show ?thesis
    using True assms bit_words(3)[OF assms(4)[unfolded block_bit_def], of "j mod 64"]
    by (simp add: block_bit_update) (simp add: block_bit_def)
next
  case False
  then show ?thesis using assms by (auto simp: block_bit_update)
qed

section \<open>alloc and dealloc\<close>

lemma BLOCK_BITS_eq [simp]: "BLOCK_BITS = 4096"
  by (simp add: BLOCK_BITS_def BLOCK_SZ_def)

definition alloc_post ::
    "Bitmap \<Rightarrow> nat \<Rightarrow> (nat \<Rightarrow> byte list) \<Rightarrow> nat option \<Rightarrow> (nat \<Rightarrow> byte list) \<Rightarrow> bool" where
  "alloc_post bm a V r V' = (case r of
     None \<Rightarrow> V' = V \<and> (\<forall>k. a \<le> k \<and> k < Bitmap_maximum bm \<longrightarrow> bitmap_bit V bm k)
   | Some k \<Rightarrow> a \<le> k \<and> k < Bitmap_maximum bm \<and> \<not> bitmap_bit V bm k \<and>
       (\<forall>j. a \<le> j \<and> j < k \<longrightarrow> bitmap_bit V bm j) \<and>
       (\<forall>j<Bitmap_maximum bm. bitmap_bit V' bm j \<longleftrightarrow> bitmap_bit V bm j \<or> j = k) \<and>
       (\<forall>i. i \<noteq> k div BLOCK_BITS + start_block_id bm \<longrightarrow> V' i = V i))"

lemma alloc_post_0:
  "alloc_post bm 0 V r V' = (case r of
     None \<Rightarrow> V' = V \<and> (\<forall>k<Bitmap_maximum bm. bitmap_bit V bm k)
   | Some k \<Rightarrow> k < Bitmap_maximum bm \<and> \<not> bitmap_bit V bm k \<and> (\<forall>j<k. bitmap_bit V bm j) \<and>
       (\<forall>j<Bitmap_maximum bm. bitmap_bit V' bm j \<longleftrightarrow> bitmap_bit V bm j \<or> j = k) \<and>
       (\<forall>i. i \<noteq> k div BLOCK_BITS + start_block_id bm \<longrightarrow> V' i = V i))"
  by (simp add: alloc_post_def split: option.split)

lemma bitmap_bit_cong:
  "V' (k div BLOCK_BITS + start_block_id bm) = V (k div BLOCK_BITS + start_block_id bm) \<Longrightarrow>
   bitmap_bit V' bm k = bitmap_bit V bm k"
  by (simp add: bitmap_bit_def)

lemma bitmap_bit_upd:
  assumes "length ws = 64"
  shows "bitmap_bit (V(b + start_block_id bm := bytes_of_words 8 ws)) bm k =
    (if k div BLOCK_BITS = b then block_bit ws (k mod BLOCK_BITS) else bitmap_bit V bm k)"
  using assms by (simp add: bitmap_bit_def)

lemma alloc_post_found:
  assumes "alloc_in_block b (words_of_bytes 8 64 (V (b + start_block_id bm))) = (Some k, ws')"
    and "b < bm_blocks bm"
  shows "alloc_post bm (b * BLOCK_BITS) V (Some k) (V(b + start_block_id bm := bytes_of_words 8 ws'))"
proof -
  let ?ws = "words_of_bytes 8 64 (V (b + start_block_id bm)) :: u64 list"
  obtain j where j: "j < 4096" "k = b * 4096 + j" "\<not> block_bit ?ws j" "\<forall>i<j. block_bit ?ws i"
    "length ws' = 64" "\<forall>i<4096. block_bit ws' i \<longleftrightarrow> block_bit ?ws i \<or> i = j"
    using alloc_in_block_Some[OF _ assms(1)] by auto
  have k: "k div 4096 = b" "k mod 4096 = j"
    using j by simp_all
  have less: "k < bm_blocks bm * 4096"
    using j(1,2) assms(2) by (simp add: add.commute less_le_trans[OF add_strict_left_mono[OF j(1)]])
  have low: "bitmap_bit V bm i" if "b * 4096 \<le> i" "i < k" for i
  proof -
    obtain d where d: "i = b * 4096 + d" using \<open>b * 4096 \<le> i\<close> le_Suc_ex by blast
    then have "d < j" using that j(2) by simp
    then show ?thesis using j(1,4) by (simp add: d bitmap_bit_def)
  qed
  have set: "bitmap_bit (V(b + start_block_id bm := bytes_of_words 8 ws')) bm i \<longleftrightarrow> bitmap_bit V bm i \<or> i = k" for i
  proof (cases "i div 4096 = b")
    case True
    then have "i = k \<longleftrightarrow> i mod 4096 = j" by (metis div_mult_mod_eq k)
    then show ?thesis
      using True j(5,6) by (simp add: bitmap_bit_upd) (simp add: bitmap_bit_def)
  next
    case False
    then show ?thesis using j(5) k by (auto simp: bitmap_bit_upd)
  qed
  show ?thesis
    using less low set j k by (auto simp: alloc_post_def Bitmap_maximum_def bitmap_bit_def)
qed

lemma alloc_post_skip:
  assumes "alloc_in_block b (words_of_bytes 8 64 (V (b + start_block_id bm))) = (None, ws')"
    and "alloc_post bm (Suc b * BLOCK_BITS) V r V'"
  shows "alloc_post bm (b * BLOCK_BITS) V r V'"
proof -
  have all: "\<forall>j<4096. block_bit (words_of_bytes 8 64 (V (b + start_block_id bm))) j"
    using alloc_in_block_None[OF _ assms(1)] by simp
  have "bitmap_bit V bm k" if "b * 4096 \<le> k" "k < Suc b * 4096" for k
  proof -
    have "k div 4096 = b" using that by (simp add: div_nat_eqI)
    then show ?thesis using all by (simp add: bitmap_bit_def)
  qed
  then show ?thesis
    using assms(2) by (auto simp: alloc_post_def split: option.splits) (metis linorder_not_le)+
qed

definition bitmap_on :: "nat set \<Rightarrow> nat list \<Rightarrow> Bitmap \<Rightarrow> bool" where
  "bitmap_on ids H bm \<longleftrightarrow> (\<forall>b<bm_blocks bm. b + start_block_id bm \<in> ids \<and> b + start_block_id bm \<notin> set H) \<and>
     length H < BLOCK_CACHE_SIZE"

context block_device
begin

lemma vs_Bitmap_alloc_loop:
  assumes "bitmap_on ids H bm" and "b \<le> bm_blocks bm"
  shows "vs H V (Bitmap_alloc_loop bd bm [b..<bm_blocks bm] :: (('d, 'z) cache_state_scheme, nat option) prog)
     (alloc_post bm (b * BLOCK_BITS) V)"
  using assms(2)
proof (induction "bm_blocks bm - b" arbitrary: b)
  case 0
  then show ?case by (simp, intro vs_ret) (auto simp: alloc_post_def Bitmap_maximum_def)
next
  case (Suc n)
  then have b: "b < bm_blocks bm" and upt: "[b..<bm_blocks bm] = b # [Suc b..<bm_blocks bm]"
    by (simp_all add: upt_conv_Cons)
  let ?i = "b + start_block_id bm"
  let ?ws = "words_of_bytes 8 64 (V ?i) :: u64 list"
  obtain r ws' where r: "alloc_in_block b ?ws = (r, ws')" by fastforce
  have i: "?i \<in> ids" "?i \<notin> set H" "length H < BLOCK_CACHE_SIZE"
    using assms(1) b by (auto simp: bitmap_on_def)
  have len: "length ws' = 64"
    using alloc_in_block_None[of ?ws b ws'] alloc_in_block_Some[of ?ws b] r by (cases r) auto
  show ?case
    unfolding upt Bitmap_alloc_loop.simps
  proof (rule vs_sized, intro vs_andthen vs_cache_modify[OF i, where t = ?ws], goal_cases)
    case 1
    then show ?case by simp
  next
    case 2
    then show ?case using i(1) by (simp add: decode_bitmap_block_def slice_def BLOCK_SZ_def)
  next
    case 3
    then have sz: "length (V ?i) = 512" using i(1) by (simp add: BLOCK_SZ_def)
    have sl: "slice 0 512 (V ?i) = V ?i" using sz by (simp add: slice_def)
    have next_block: "vs H V (Bitmap_alloc_loop bd bm [Suc b..<bm_blocks bm] ::
        (('d, 'z) cache_state_scheme, nat option) prog) (alloc_post bm (b * BLOCK_BITS) V)"
      if "r = None"
    proof -
      have "vs H V (Bitmap_alloc_loop bd bm [Suc b..<bm_blocks bm] ::
        (('d, 'z) cache_state_scheme, nat option) prog) (alloc_post bm (Suc b * BLOCK_BITS) V)"
        using Suc(2) b by (intro Suc(1)) auto
      then show ?thesis
        using alloc_post_skip r that by (blast intro: vs_mono)
    qed
    have over: "overwrite 0 (bytes_of_words 8 ws') (V ?i) = bytes_of_words 8 ws'"
      using sz len by (simp add: overwrite_def)
    have none: "V(?i := bytes_of_words 8 ws') = V" if "r = None"
      using alloc_in_block_None[of ?ws b ws'] r that sz by simp
    have found: "alloc_post bm (b * BLOCK_BITS) V r (V(?i := bytes_of_words 8 ws'))" if "r \<noteq> None"
      using that r b alloc_post_found by auto
    show ?case
    proof (cases "r = None")
      case True
      then show ?thesis
        using r len next_block none by (intro vs_ret) (simp add: encode_bitmap_block_def BLOCK_SZ_def sl over)
    next
      case False
      then show ?thesis
        using r len found
        by (intro vs_ret) (auto intro!: vs_ret simp: encode_bitmap_block_def BLOCK_SZ_def sl over)
    qed
  qed
qed

lemma vs_Bitmap_alloc:
  assumes "bitmap_on ids H bm"
  shows "vs H V (Bitmap_alloc bd bm) (alloc_post bm 0 V)"
  using vs_Bitmap_alloc_loop[OF assms, of 0 V] by (simp add: Bitmap_alloc_def)

lemma vs_Bitmap_dealloc:
  assumes on: "bitmap_on ids H bm" and k: "k < Bitmap_maximum bm" "bitmap_bit V bm k"
  shows "vs H V (Bitmap_dealloc bd bm k) (\<lambda>_ V'.
     (\<forall>j<Bitmap_maximum bm. bitmap_bit V' bm j \<longleftrightarrow> bitmap_bit V bm j \<and> j \<noteq> k) \<and>
     (\<forall>i. i \<noteq> k div BLOCK_BITS + start_block_id bm \<longrightarrow> V' i = V i))"
proof (rule vs_sized)
  assume sized: "\<And>i. i \<in> ids \<Longrightarrow> length (V i) = BLOCK_SZ"
  let ?b = "k div 4096" let ?i = "?b + start_block_id bm"
  let ?ws = "words_of_bytes 8 64 (V ?i) :: u64 list"
  let ?p = "k mod 4096 div 64" and ?n = "k mod 4096 mod 64"
  let ?w = "?ws ! ?p - 2 ^ ?n"
  have "?b < bm_blocks bm" using k(1) by (simp add: Bitmap_maximum_def div_mult_less mult.commute)
  then have i: "?i \<in> ids" "?i \<notin> set H" "length H < BLOCK_CACHE_SIZE"
    using on by (auto simp: bitmap_on_def)
  have sz: "length (V ?i) = 512" using sized[OF i(1)] by (simp add: BLOCK_SZ_def)
  have over: "overwrite 0 (bytes_of_words 8 (?ws[?p := ?w])) (V ?i) = bytes_of_words 8 (?ws[?p := ?w])"
    using sz by (simp add: overwrite_def)
  have set: "bit (?ws ! ?p) ?n"
    using k(2) by (simp add: bitmap_bit_def block_bit_def)
  have upd: "bitmap_bit (V(?i := bytes_of_words 8 (?ws[?p := ?w]))) bm j \<longleftrightarrow> bitmap_bit V bm j \<and> j \<noteq> k" for j
  proof (cases "j div 4096 = ?b")
    case True
    have "j = k \<longleftrightarrow> j mod 4096 = k mod 4096"
      using True by (metis div_mult_mod_eq)
    moreover have "bitmap_bit V bm j = block_bit ?ws (j mod 4096)"
      by (simp only: bitmap_bit_def True BLOCK_BITS_eq)
    ultimately show ?thesis
      using True clear_in_block[of ?ws "j mod 4096" "k mod 4096"] k(2)
      by (simp add: bitmap_bit_upd) (simp add: bitmap_bit_def)
  next
    case False
    then show ?thesis by (auto simp: bitmap_bit_upd)
  qed
  show "vs H V (Bitmap_dealloc bd bm k) (\<lambda>_ V'.
     (\<forall>j<Bitmap_maximum bm. bitmap_bit V' bm j \<longleftrightarrow> bitmap_bit V bm j \<and> j \<noteq> k) \<and>
     (\<forall>i. i \<noteq> k div BLOCK_BITS + start_block_id bm \<longrightarrow> V' i = V i))"
    unfolding Bitmap_dealloc_def decomposition_def prod.case BLOCK_BITS_eq
    by (intro vs_cache_modify[OF i, where t = ?ws] vs_andthen vs_assert_that vs_ret)
      (use sz set over upd in \<open>simp_all add: decode_bitmap_block_def encode_bitmap_block_def BLOCK_SZ_def bit_words slice_def\<close>)
qed

lemma vp_Bitmap_dealloc:
  assumes on: "bitmap_on ids H bm" and k: "k < Bitmap_maximum bm" "\<not> bitmap_bit V bm k"
  shows "vp H V (Bitmap_dealloc bd bm k) AssertFailed"
proof -
  let ?i = "k div 4096 + start_block_id bm"
  have "k div 4096 < bm_blocks bm" using k(1) by (simp add: Bitmap_maximum_def div_mult_less mult.commute)
  then have i: "?i \<in> ids" "?i \<notin> set H" "length H < BLOCK_CACHE_SIZE"
    using on by (auto simp: bitmap_on_def)
  show ?thesis
  proof (rule vp_sized)
    assume "\<And>i. i \<in> ids \<Longrightarrow> length (V i) = BLOCK_SZ"
    then have sz: "length (V ?i) = 512" using i(1) by (simp add: BLOCK_SZ_def)
    show "vp H V (Bitmap_dealloc bd bm k) AssertFailed"
      unfolding Bitmap_dealloc_def decomposition_def prod.case BLOCK_BITS_eq
      by (intro vp_cache_modify[OF i, where t = "words_of_bytes 8 64 (V ?i)"] vp_first vp_assert_that)
        (use k sz in \<open>simp_all add: decode_bitmap_block_def BLOCK_SZ_def bit_words bitmap_bit_def block_bit_def
          slice_def\<close>)
  qed
qed

end

section \<open>Properties\<close>

text \<open>
  C12: \<^verbatim>\<open>Bitmap::alloc\<close> returns the lowest clear bit and sets it, changing no other bit of the bitmap
  and no other block; it returns \<^verbatim>\<open>None\<close> only when every bit is set, and then changes nothing.
\<close>

theorem Bitmap_alloc_lowest_clear:
  assumes "block_device bd disk ids dinv" and "cache_inv disk ids dinv s" and "bitmap_on ids (held s) bm"
  shows "\<exists>r s'. Bitmap_alloc bd bm s = Inr (r, s') \<and> cache_inv disk ids dinv s' \<and> held s' = held s \<and>
    (case r of
       None \<Rightarrow> disk_view disk s' = disk_view disk s \<and>
         (\<forall>k<Bitmap_maximum bm. bitmap_bit (disk_view disk s) bm k)
     | Some k \<Rightarrow> k < Bitmap_maximum bm \<and> \<not> bitmap_bit (disk_view disk s) bm k \<and>
         (\<forall>j<k. bitmap_bit (disk_view disk s) bm j) \<and>
         (\<forall>j<Bitmap_maximum bm. bitmap_bit (disk_view disk s') bm j \<longleftrightarrow> bitmap_bit (disk_view disk s) bm j \<or> j = k) \<and>
         (\<forall>i. i \<noteq> k div BLOCK_BITS + start_block_id bm \<longrightarrow> disk_view disk s' i = disk_view disk s i))"
  using vspec_run[OF block_device.vs_Bitmap_alloc[OF assms(1,3)] assms(2)]
  unfolding alloc_post_0 by blast

theorem Bitmap_alloc_lowest_clear_witness:
  "block_device BlockFile file_block {..<32} (\<lambda>f. length f = 32 * 512) \<and>
   cache_inv file_block {..<32} (\<lambda>f. length f = 32 * 512) (fresh_image 32) \<and>
   bitmap_on {..<32} (held (fresh_image 32)) (Bitmap_new 1 2) \<and>
   (\<exists>r s'. Bitmap_alloc BlockFile (Bitmap_new 1 2) (fresh_image 32) = Inr (r, s') \<and> held s' = [])"
proof -
  have "bitmap_on {..<32} (held (fresh_image 32)) (Bitmap_new 1 2)"
    by (simp add: bitmap_on_def Bitmap_new_def fresh_image_def BLOCK_CACHE_SIZE_def)
  then show ?thesis
    using Bitmap_alloc_lowest_clear[OF bf.block_device_axioms fresh_image_inv, of 32 "Bitmap_new 1 2"]
      bf.block_device_axioms[of 32] fresh_image_inv[of 32]
    by (auto simp: fresh_image_def)
qed

text \<open>
  C13: \<^verbatim>\<open>Bitmap::dealloc\<close> of a set bit clears exactly this bit; of a clear bit it trips its assertion.
\<close>

theorem Bitmap_dealloc_exact:
  assumes "block_device bd disk ids dinv" and "cache_inv disk ids dinv s" and "bitmap_on ids (held s) bm"
    and "k < Bitmap_maximum bm"
  shows "if bitmap_bit (disk_view disk s) bm k
    then \<exists>s'. Bitmap_dealloc bd bm k s = Inr ((), s') \<and> cache_inv disk ids dinv s' \<and> held s' = held s \<and>
      (\<forall>j<Bitmap_maximum bm. bitmap_bit (disk_view disk s') bm j \<longleftrightarrow> bitmap_bit (disk_view disk s) bm j \<and> j \<noteq> k) \<and>
      (\<forall>i. i \<noteq> k div BLOCK_BITS + start_block_id bm \<longrightarrow> disk_view disk s' i = disk_view disk s i)
    else Bitmap_dealloc bd bm k s = Inl AssertFailed"
  using vspec_run[OF block_device.vs_Bitmap_dealloc[OF assms(1,3,4)] assms(2)]
    block_device.vp_Bitmap_dealloc[OF assms(1,3,4)] assms(2)
  by (auto simp: vpanic_def)

theorem Bitmap_dealloc_exact_witness:
  "block_device BlockFile file_block {..<32} (\<lambda>f. length f = 32 * 512) \<and>
   cache_inv file_block {..<32} (\<lambda>f. length f = 32 * 512) (fresh_image 32) \<and>
   bitmap_on {..<32} (held (fresh_image 32)) (Bitmap_new 1 2) \<and>
   \<not> bitmap_bit (disk_view file_block (fresh_image 32)) (Bitmap_new 1 2) 7 \<and>
   Bitmap_dealloc BlockFile (Bitmap_new 1 2) 7 (fresh_image 32) = Inl AssertFailed"
proof -
  have on: "bitmap_on {..<32} (held (fresh_image 32)) (Bitmap_new 1 2)"
    by (simp add: bitmap_on_def Bitmap_new_def fresh_image_def BLOCK_CACHE_SIZE_def)
  have "slice 0 8 (slice 512 512 (replicate 16384 0)) = replicate 8 (0 :: byte)"
    by (simp add: slice_def)
  then have "\<not> bitmap_bit (disk_view file_block (fresh_image 32)) (Bitmap_new 1 2) 7"
    by (simp add: bitmap_bit_def block_bit_def disk_view_def fresh_image_def file_block_def Bitmap_new_def
        bit_bytes_le_word)
  then show ?thesis
    using Bitmap_dealloc_exact[OF bf.block_device_axioms fresh_image_inv on, of 7]
      bf.block_device_axioms[of 32] fresh_image_inv[of 32] on
    by (simp add: Bitmap_maximum_def Bitmap_new_def)
qed

end
