(* ===== verification/Layout.thy ===== *)
theory Layout
  imports Bitmap
begin

unbundle bit_operations_syntax

text \<open>
  The on-disk structures of the file system: \<^verbatim>\<open>easy-fs/src/layout.rs\<close>. Fields that the code
  declares as \<^verbatim>\<open>u32\<close> are 32-bit words, and arithmetic on them wraps as in a release build; values of
  type \<^verbatim>\<open>usize\<close> are natural numbers, reduced modulo \<open>2 ^ 64\<close> where a caller's offset enters. Each
  structure has a decoder from and an encoder to its \<^verbatim>\<open>repr(C)\<close> bytes. Loops that fill or drain block
  lists are recursions over the list iterator; the copying loops recurse with the distance to their
  end as measure. A directory name is its UTF-8 bytes.
\<close>

section \<open>Constants\<close>

definition EFS_MAGIC :: u32 where "EFS_MAGIC = 0x3b800001"
definition INODE_DIRECT_COUNT :: nat where "INODE_DIRECT_COUNT = 28"
definition NAME_LENGTH_LIMIT :: nat where "NAME_LENGTH_LIMIT = 27"
definition INODE_INDIRECT1_COUNT :: nat where "INODE_INDIRECT1_COUNT = BLOCK_SZ div 4"
definition INODE_INDIRECT2_COUNT :: nat where
  "INODE_INDIRECT2_COUNT = INODE_INDIRECT1_COUNT * INODE_INDIRECT1_COUNT"
definition DIRECT_BOUND :: nat where "DIRECT_BOUND = INODE_DIRECT_COUNT"
definition INDIRECT1_BOUND :: nat where "INDIRECT1_BOUND = DIRECT_BOUND + INODE_INDIRECT1_COUNT"
definition INDIRECT2_BOUND :: nat where "INDIRECT2_BOUND = INDIRECT1_BOUND + INODE_INDIRECT2_COUNT"
definition DIRENT_SZ :: nat where "DIRENT_SZ = 32"

lemmas layout_consts = INODE_DIRECT_COUNT_def NAME_LENGTH_LIMIT_def INODE_INDIRECT1_COUNT_def
  INODE_INDIRECT2_COUNT_def DIRECT_BOUND_def INDIRECT1_BOUND_def INDIRECT2_BOUND_def DIRENT_SZ_def
  BLOCK_SZ_def

section \<open>SuperBlock\<close>

record SuperBlock =
  sb_magic :: u32
  sb_total_blocks :: u32
  sb_inode_bitmap_blocks :: u32
  sb_inode_area_blocks :: u32
  sb_data_bitmap_blocks :: u32
  sb_data_area_blocks :: u32

definition SuperBlock_initialize :: "u32 \<Rightarrow> u32 \<Rightarrow> u32 \<Rightarrow> u32 \<Rightarrow> u32 \<Rightarrow> SuperBlock" where
  "SuperBlock_initialize total_blks inode_bitmap inode_area data_bitmap data_area =
     \<lparr>sb_magic = EFS_MAGIC, sb_total_blocks = total_blks, sb_inode_bitmap_blocks = inode_bitmap,
      sb_inode_area_blocks = inode_area, sb_data_bitmap_blocks = data_bitmap,
      sb_data_area_blocks = data_area\<rparr>"

definition SuperBlock_is_valid :: "SuperBlock \<Rightarrow> bool" where
  "SuperBlock_is_valid sb \<longleftrightarrow> sb_magic sb = EFS_MAGIC"

definition decode_super_block :: "byte list \<Rightarrow> SuperBlock res" where
  "decode_super_block bs =
     (let w = words_of_bytes 4 6 bs in
      Inr \<lparr>sb_magic = w ! 0, sb_total_blocks = w ! 1, sb_inode_bitmap_blocks = w ! 2,
           sb_inode_area_blocks = w ! 3, sb_data_bitmap_blocks = w ! 4, sb_data_area_blocks = w ! 5\<rparr>)"

definition encode_super_block :: "byte list \<Rightarrow> SuperBlock \<Rightarrow> byte list" where
  "encode_super_block old sb =
     bytes_of_words 4 [sb_magic sb, sb_total_blocks sb, sb_inode_bitmap_blocks sb,
       sb_inode_area_blocks sb, sb_data_bitmap_blocks sb, sb_data_area_blocks sb]"

section \<open>DiskInode\<close>

datatype DiskInodeType = File | Directory

record DiskInode =
  di_size :: u32
  di_direct :: "u32 list"
  di_indirect1 :: u32
  di_indirect2 :: u32
  di_type :: DiskInodeType

text \<open>
  128 bytes: the words, the type byte, three bytes of padding. A type byte that is neither 0 nor 1
  is not a value of the enumeration.
\<close>

definition decode_disk_inode :: "byte list \<Rightarrow> DiskInode res" where
  "decode_disk_inode bs =
     (let w = words_of_bytes 4 31 bs in
      if bs ! 124 \<noteq> 0 \<and> bs ! 124 \<noteq> 1 then Inl InvalidValue
      else Inr \<lparr>di_size = w ! 0, di_direct = slice 1 28 w, di_indirect1 = w ! 29, di_indirect2 = w ! 30,
                di_type = (if bs ! 124 = 0 then File else Directory)\<rparr>)"

definition encode_disk_inode :: "byte list \<Rightarrow> DiskInode \<Rightarrow> byte list" where
  "encode_disk_inode old di =
     bytes_of_words 4 (di_size di # di_direct di @ [di_indirect1 di, di_indirect2 di]) @
     (case di_type di of File \<Rightarrow> 0 | Directory \<Rightarrow> 1) # drop 125 old"

definition DISK_INODE_SZ :: nat where "DISK_INODE_SZ = 128"

definition DiskInode_initialize :: "DiskInodeType \<Rightarrow> DiskInode \<Rightarrow> DiskInode" where
  "DiskInode_initialize type di =
     di\<lparr>di_size := 0, di_direct := map (\<lambda>_. 0) (di_direct di), di_indirect1 := 0, di_indirect2 := 0,
        di_type := type\<rparr>"

definition is_dir :: "DiskInode \<Rightarrow> bool" where
  "is_dir di \<longleftrightarrow> di_type di = Directory"

definition is_file :: "DiskInode \<Rightarrow> bool" where
  "is_file di \<longleftrightarrow> di_type di = File"

definition data_blocks_of :: "u32 \<Rightarrow> u32" where
  "data_blocks_of sz = (sz + of_nat BLOCK_SZ - 1) div of_nat BLOCK_SZ"

definition data_blocks :: "DiskInode \<Rightarrow> u32" where
  "data_blocks di = data_blocks_of (di_size di)"

definition total_blocks :: "u32 \<Rightarrow> u32" where
  "total_blocks sz =
     (let data = unat (data_blocks_of sz);
          total1 = (if data > INODE_DIRECT_COUNT then data + 1 else data);
          total2 = (if data > INDIRECT1_BOUND
            then total1 + 1 + (data - INDIRECT1_BOUND + INODE_INDIRECT1_COUNT - 1) div INODE_INDIRECT1_COUNT
            else total1)
      in of_nat total2)"

definition blocks_num_needed :: "DiskInode \<Rightarrow> u32 \<Rightarrow> u32 res" where
  "blocks_num_needed di new_size =
     (if new_size \<ge> di_size di then Inr (total_blocks new_size - total_blocks (di_size di))
      else Inl AssertFailed)"

text \<open>The views \<^verbatim>\<open>IndirectBlock\<close> and \<^verbatim>\<open>DataBlock\<close> of a block, and array indexing.\<close>

definition decode_indirect :: "byte list \<Rightarrow> u32 list res" where
  "decode_indirect bs = Inr (words_of_bytes 4 128 bs)"

definition encode_indirect :: "byte list \<Rightarrow> u32 list \<Rightarrow> byte list" where
  "encode_indirect old ws = bytes_of_words 4 ws"

definition decode_data :: "byte list \<Rightarrow> byte list res" where
  "decode_data bs = Inr bs"

definition encode_data :: "byte list \<Rightarrow> byte list \<Rightarrow> byte list" where
  "encode_data old bs = bs"

definition index_at :: "'a list \<Rightarrow> nat \<Rightarrow> ('s, 'a) prog" where
  "index_at xs i = (if i < length xs then ret (xs ! i) else throw IndexOutOfRange)"

definition set_index :: "'a list \<Rightarrow> nat \<Rightarrow> 'a \<Rightarrow> ('s, 'a list) prog" where
  "set_index xs i x = (if i < length xs then ret (xs[i := x]) else throw IndexOutOfRange)"

definition read_indirect :: "'d BlockDevice \<Rightarrow> u32 \<Rightarrow> nat \<Rightarrow> (('d, 'z) cache_state_scheme, u32) prog" where
  "read_indirect bd block_id i =
     cache_read bd (unat block_id) 0 BLOCK_SZ decode_indirect (\<lambda>indirect. index_at indirect i)"

definition get_block_id :: "'d BlockDevice \<Rightarrow> DiskInode \<Rightarrow> u32 \<Rightarrow> (('d, 'z) cache_state_scheme, u32) prog" where
  "get_block_id bd di inner =
     (let inner_id = unat inner in
      if inner_id < INODE_DIRECT_COUNT then index_at (di_direct di) inner_id
      else if inner_id < INDIRECT1_BOUND then read_indirect bd (di_indirect1 di) (inner_id - INODE_DIRECT_COUNT)
      else
        let last = inner_id - INDIRECT1_BOUND in
        andthen (read_indirect bd (di_indirect2 di) (last div INODE_INDIRECT1_COUNT)) (\<lambda>indirect1.
        read_indirect bd indirect1 (last mod INODE_INDIRECT1_COUNT)))"

section \<open>Growing and clearing an inode\<close>

text \<open>\<^verbatim>\<open>while current < limit { array[current] = new_blocks.next().unwrap(); current += 1; }\<close>\<close>

fun fill_blocks :: "nat \<Rightarrow> nat \<Rightarrow> u32 list \<Rightarrow> u32 list \<Rightarrow> ('s, nat \<times> u32 list \<times> u32 list) prog" where
  "fill_blocks current limit array [] = (if current < limit then throw UnwrapNone else ret (current, array, []))"
| "fill_blocks current limit array (b # new_blocks) =
     (if current < limit
      then andthen (set_index array current b) (\<lambda>array'. fill_blocks (current + 1) limit array' new_blocks)
      else ret (current, array, b # new_blocks))"

definition next_block :: "u32 list \<Rightarrow> ('s, u32 \<times> u32 list) prog" where
  "next_block new_blocks = (case new_blocks of [] \<Rightarrow> throw UnwrapNone | b # bs \<Rightarrow> ret (b, bs))"

text \<open>
  The loop over the second-level table, from \<^verbatim>\<open>(a0, b0)\<close> to \<^verbatim>\<open>(a1, b1)\<close>: one or two blocks are taken per
  round. \<open>fuel\<close> bounds the rounds; the caller passes more than the list has blocks, so the loop ends or
  panics on the exhausted list first.
\<close>

fun fill_indirect2 ::
    "nat \<Rightarrow> 'd BlockDevice \<Rightarrow> nat \<Rightarrow> nat \<Rightarrow> nat \<Rightarrow> nat \<Rightarrow> u32 list \<Rightarrow> u32 list \<Rightarrow>
     (('d, 'z) cache_state_scheme, u32 list) prog" where
  "fill_indirect2 0 bd a0 b0 a1 b1 indirect2 new_blocks = throw UnwrapNone"
| "fill_indirect2 (Suc fuel) bd a0 b0 a1 b1 indirect2 new_blocks =
     (if a0 < a1 \<or> (a0 = a1 \<and> b0 < b1) then
        andthen (if b0 = 0
                 then andthen (next_block new_blocks) (\<lambda>(b, rest).
                      andthen (set_index indirect2 a0 b) (\<lambda>indirect2'. ret (indirect2', rest)))
                 else ret (indirect2, new_blocks)) (\<lambda>(indirect2', new_blocks1).
        andthen (index_at indirect2' a0) (\<lambda>block_id.
        andthen (cache_modify bd (unat block_id) 0 BLOCK_SZ decode_indirect encode_indirect (\<lambda>indirect1.
            andthen (next_block new_blocks1) (\<lambda>(b, rest).
            andthen (set_index indirect1 b0 b) (\<lambda>indirect1'. ret (rest, indirect1'))))) (\<lambda>new_blocks2.
        if b0 + 1 = INODE_INDIRECT1_COUNT
        then fill_indirect2 fuel bd (a0 + 1) 0 a1 b1 indirect2' new_blocks2
        else fill_indirect2 fuel bd a0 (b0 + 1) a1 b1 indirect2' new_blocks2)))
      else ret indirect2)"

text \<open>
  The counters \<^verbatim>\<open>current_blocks\<close> and \<^verbatim>\<open>total_blocks\<close> are \<^verbatim>\<open>u32\<close>; the subtractions below never go under zero,
  because a phase is only left with \<^verbatim>\<open>current_blocks\<close> at its bound.
\<close>

definition increase_indirect2 ::
    "'d BlockDevice \<Rightarrow> nat \<Rightarrow> nat \<Rightarrow> DiskInode \<Rightarrow> u32 list \<Rightarrow> (('d, 'z) cache_state_scheme, DiskInode) prog" where
  "increase_indirect2 bd current_blks total_blks di new_blocks =
     (if total_blks > INODE_INDIRECT1_COUNT then
        andthen (if current_blks = INODE_INDIRECT1_COUNT
                 then andthen (next_block new_blocks) (\<lambda>(b, rest). ret (di\<lparr>di_indirect2 := b\<rparr>, rest))
                 else ret (di, new_blocks)) (\<lambda>(di', nb).
        let current' = current_blks - INODE_INDIRECT1_COUNT; total' = total_blks - INODE_INDIRECT1_COUNT;
            a0 = current' div INODE_INDIRECT1_COUNT; b0 = current' mod INODE_INDIRECT1_COUNT;
            a1 = total' div INODE_INDIRECT1_COUNT; b1 = total' mod INODE_INDIRECT1_COUNT in
        andthen (cache_modify bd (unat (di_indirect2 di')) 0 BLOCK_SZ decode_indirect encode_indirect
            (\<lambda>indirect2. andthen (fill_indirect2 (Suc (Suc (length nb))) bd a0 b0 a1 b1 indirect2 nb)
              (\<lambda>indirect2'. ret ((), indirect2')))) (\<lambda>_.
        ret di'))
      else ret di)"

definition increase_indirect1 ::
    "'d BlockDevice \<Rightarrow> nat \<Rightarrow> nat \<Rightarrow> DiskInode \<Rightarrow> u32 list \<Rightarrow> (('d, 'z) cache_state_scheme, DiskInode) prog" where
  "increase_indirect1 bd current_blks total_blks di new_blocks =
     (if total_blks > INODE_DIRECT_COUNT then
        andthen (if current_blks = INODE_DIRECT_COUNT
                 then andthen (next_block new_blocks) (\<lambda>(b, rest). ret (di\<lparr>di_indirect1 := b\<rparr>, rest))
                 else ret (di, new_blocks)) (\<lambda>(di', nb).
        let current' = current_blks - INODE_DIRECT_COUNT; total' = total_blks - INODE_DIRECT_COUNT in
        andthen (cache_modify bd (unat (di_indirect1 di')) 0 BLOCK_SZ decode_indirect encode_indirect
            (\<lambda>indirect1. andthen (fill_blocks current' (min total' INODE_INDIRECT1_COUNT) indirect1 nb)
              (\<lambda>(current'', indirect1', nb'). ret ((current'', nb'), indirect1')))) (\<lambda>(current'', nb').
        increase_indirect2 bd current'' total' di' nb'))
      else ret di)"

definition DiskInode_increase_size ::
    "'d BlockDevice \<Rightarrow> DiskInode \<Rightarrow> u32 \<Rightarrow> u32 list \<Rightarrow> (('d, 'z) cache_state_scheme, DiskInode) prog" where
  "DiskInode_increase_size bd di new_size new_blocks =
     (let current_blks = unat (data_blocks di);
          di1 = di\<lparr>di_size := new_size\<rparr>;
          total_blks = unat (data_blocks di1) in
      andthen (fill_blocks current_blks (min total_blks INODE_DIRECT_COUNT) (di_direct di1) new_blocks)
        (\<lambda>(current', direct', nb).
      increase_indirect1 bd current' total_blks (di1\<lparr>di_direct := direct'\<rparr>) nb))"

text \<open>
  \<^verbatim>\<open>clear_size\<close>. The index blocks are only read, although the code opens them with \<^verbatim>\<open>modify\<close>: \<^verbatim>\<open>v\<close>
  collects the ids in order.
\<close>

fun clear_direct :: "nat \<Rightarrow> nat \<Rightarrow> u32 list \<Rightarrow> u32 list \<Rightarrow> u32 list \<times> u32 list" where
  "clear_direct current 0 direct v = (direct, v)"
| "clear_direct current (Suc n) direct v =
     clear_direct (current + 1) n (direct[current := 0]) (v @ [direct ! current])"

definition collect_indirect ::
    "'d BlockDevice \<Rightarrow> u32 \<Rightarrow> nat \<Rightarrow> u32 list \<Rightarrow> (('d, 'z) cache_state_scheme, u32 list) prog" where
  "collect_indirect bd block_id n v =
     cache_modify bd (unat block_id) 0 BLOCK_SZ decode_indirect encode_indirect
       (\<lambda>indirect. ret (v @ take n indirect, indirect))"

fun collect_entries ::
    "'d BlockDevice \<Rightarrow> u32 list \<Rightarrow> u32 list \<Rightarrow> (('d, 'z) cache_state_scheme, u32 list) prog" where
  "collect_entries bd [] v = ret v"
| "collect_entries bd (entry # entries) v =
     andthen (collect_indirect bd entry INODE_INDIRECT1_COUNT (v @ [entry])) (\<lambda>v'. collect_entries bd entries v')"

definition DiskInode_clear_size ::
    "'d BlockDevice \<Rightarrow> DiskInode \<Rightarrow> (('d, 'z) cache_state_scheme, u32 list \<times> DiskInode) prog" where
  "DiskInode_clear_size bd di =
     (let data = unat (data_blocks di);
          (direct', v1) = clear_direct 0 (min data INODE_DIRECT_COUNT) (di_direct di) [];
          di1 = di\<lparr>di_size := 0, di_direct := direct'\<rparr> in
      if data > INODE_DIRECT_COUNT then
        let data2 = data - INODE_DIRECT_COUNT in
        andthen (collect_indirect bd (di_indirect1 di) (min data2 INODE_INDIRECT1_COUNT) (v1 @ [di_indirect1 di])) (\<lambda>v2.
        let di2 = di1\<lparr>di_indirect1 := 0\<rparr> in
        if data2 > INODE_INDIRECT1_COUNT then
          let data3 = data2 - INODE_INDIRECT1_COUNT in
          andthen (assert_that (data3 \<le> INODE_INDIRECT2_COUNT)) (\<lambda>_.
          let a1 = data3 div INODE_INDIRECT1_COUNT; b1 = data3 mod INODE_INDIRECT1_COUNT in
          andthen (cache_modify bd (unat (di_indirect2 di)) 0 BLOCK_SZ decode_indirect encode_indirect (\<lambda>indirect2.
              andthen (collect_entries bd (take a1 indirect2) (v2 @ [di_indirect2 di])) (\<lambda>v3.
              if b1 > 0
              then andthen (index_at indirect2 a1) (\<lambda>entry.
                   andthen (collect_indirect bd entry b1 (v3 @ [entry])) (\<lambda>v4. ret (v4, indirect2)))
              else ret (v3, indirect2)))) (\<lambda>v4.
          ret (v4, di2\<lparr>di_indirect2 := 0\<rparr>)))
        else ret (v2, di2))
      else ret (v1, di1))"

section \<open>Reading and writing data\<close>

definition end_current_block :: "nat \<Rightarrow> nat \<Rightarrow> nat" where
  "end_current_block start end = min ((start div BLOCK_SZ + 1) * BLOCK_SZ) end"

lemma end_current_block_progress:
  "end_current_block start end \<noteq> end \<Longrightarrow> start < end_current_block start end \<and> end_current_block start end < end"
  by (auto simp: end_current_block_def min_def BLOCK_SZ_def split: if_splits)

function read_at_loop ::
    "'d BlockDevice \<Rightarrow> DiskInode \<Rightarrow> nat \<Rightarrow> nat \<Rightarrow> nat \<Rightarrow> nat \<Rightarrow> byte list \<Rightarrow>
     (('d, 'z) cache_state_scheme, nat \<times> byte list) prog" where
  "read_at_loop bd di start end start_block read_size buf =
     (let block_end = end_current_block start end;
          block_read_size = block_end - start in
      andthen (if read_size + block_read_size \<le> length buf then ret () else throw IndexOutOfRange) (\<lambda>_.
      andthen (get_block_id bd di (of_nat start_block)) (\<lambda>block_id.
      andthen (cache_read bd (unat block_id) 0 BLOCK_SZ decode_data
          (\<lambda>data_block. ret (slice (start mod BLOCK_SZ) block_read_size data_block))) (\<lambda>src.
      if block_end = end then ret (read_size + block_read_size, overwrite read_size src buf)
      else read_at_loop bd di block_end end (start_block + 1) (read_size + block_read_size)
             (overwrite read_size src buf)))))"
  by pat_completeness auto
termination
  by (relation "measure (\<lambda>(bd, di, start, end, _). end - start)")
    (auto dest!: end_current_block_progress)

definition DiskInode_read_at ::
    "'d BlockDevice \<Rightarrow> DiskInode \<Rightarrow> nat \<Rightarrow> byte list \<Rightarrow> (('d, 'z) cache_state_scheme, nat \<times> byte list) prog" where
  "DiskInode_read_at bd di offset buf =
     (let end = min ((offset + length buf) mod 2 ^ 64) (unat (di_size di)) in
      if offset \<ge> end then ret (0, buf)
      else read_at_loop bd di offset end (offset div BLOCK_SZ) 0 buf)"

function write_at_loop ::
    "'d BlockDevice \<Rightarrow> DiskInode \<Rightarrow> nat \<Rightarrow> nat \<Rightarrow> nat \<Rightarrow> nat \<Rightarrow> byte list \<Rightarrow>
     (('d, 'z) cache_state_scheme, nat) prog" where
  "write_at_loop bd di start end start_block write_size buf =
     (let block_end = end_current_block start end;
          block_write_size = block_end - start in
      andthen (get_block_id bd di (of_nat start_block)) (\<lambda>block_id.
      andthen (cache_modify bd (unat block_id) 0 BLOCK_SZ decode_data encode_data (\<lambda>data_block.
          if write_size + block_write_size \<le> length buf
          then ret ((), overwrite (start mod BLOCK_SZ) (slice write_size block_write_size buf) data_block)
          else throw IndexOutOfRange)) (\<lambda>_.
      if block_end = end then ret (write_size + block_write_size)
      else write_at_loop bd di block_end end (start_block + 1) (write_size + block_write_size) buf)))"
  by pat_completeness auto
termination
  by (relation "measure (\<lambda>(bd, di, start, end, _). end - start)")
    (auto dest!: end_current_block_progress)

definition DiskInode_write_at ::
    "'d BlockDevice \<Rightarrow> DiskInode \<Rightarrow> nat \<Rightarrow> byte list \<Rightarrow> (('d, 'z) cache_state_scheme, nat) prog" where
  "DiskInode_write_at bd di offset buf =
     (let end = min ((offset + length buf) mod 2 ^ 64) (unat (di_size di)) in
      andthen (assert_that (offset \<le> end)) (\<lambda>_.
      write_at_loop bd di offset end (offset div BLOCK_SZ) 0 buf))"

declare read_at_loop.simps [simp del] write_at_loop.simps [simp del]

section \<open>DirEntry\<close>

record DirEntry =
  de_name :: "byte list"
  de_inode_number :: u32

definition DirEntry_empty :: DirEntry where
  "DirEntry_empty = \<lparr>de_name = replicate 28 0, de_inode_number = 0\<rparr>"

text \<open>\<^verbatim>\<open>new\<close> copies the name into a zeroed array; a name longer than the array panics.\<close>

definition DirEntry_new :: "byte list \<Rightarrow> u32 \<Rightarrow> DirEntry res" where
  "DirEntry_new name inode_number =
     (if length name \<le> NAME_LENGTH_LIMIT + 1
      then Inr \<lparr>de_name = overwrite 0 name (replicate (NAME_LENGTH_LIMIT + 1) 0), de_inode_number = inode_number\<rparr>
      else Inl IndexOutOfRange)"

definition DirEntry_as_bytes :: "DirEntry \<Rightarrow> byte list" where
  "DirEntry_as_bytes de = de_name de @ word_le_bytes 4 (de_inode_number de)"

definition DirEntry_of_bytes :: "byte list \<Rightarrow> DirEntry" where
  "DirEntry_of_bytes bs = \<lparr>de_name = take 28 bs, de_inode_number = bytes_le_word (slice 28 4 bs)\<rparr>"

text \<open>The validity test of \<^verbatim>\<open>core::str::from_utf8\<close>.\<close>

definition continuation :: "byte \<Rightarrow> bool" where
  "continuation b \<longleftrightarrow> 0x80 \<le> b \<and> b \<le> 0xBF"

fun valid_utf8 :: "byte list \<Rightarrow> bool" where
  "valid_utf8 [] = True"
| "valid_utf8 (a # bs) =
     (if a \<le> 0x7F then valid_utf8 bs
      else if 0xC2 \<le> a \<and> a \<le> 0xDF then
        (case bs of b # bs' \<Rightarrow> continuation b \<and> valid_utf8 bs' | _ \<Rightarrow> False)
      else if 0xE0 \<le> a \<and> a \<le> 0xEF then
        (case bs of b # c # bs' \<Rightarrow>
           continuation b \<and> continuation c \<and> (a = 0xE0 \<longrightarrow> 0xA0 \<le> b) \<and> (a = 0xED \<longrightarrow> b \<le> 0x9F) \<and> valid_utf8 bs'
         | _ \<Rightarrow> False)
      else if 0xF0 \<le> a \<and> a \<le> 0xF4 then
        (case bs of b # c # d # bs' \<Rightarrow>
           continuation b \<and> continuation c \<and> continuation d \<and>
           (a = 0xF0 \<longrightarrow> 0x90 \<le> b) \<and> (a = 0xF4 \<longrightarrow> b \<le> 0x8F) \<and> valid_utf8 bs'
         | _ \<Rightarrow> False)
      else False)"

text \<open>\<^verbatim>\<open>name\<close> scans for the first zero byte; without one, the scan runs off the array.\<close>

definition DirEntry_name :: "DirEntry \<Rightarrow> byte list res" where
  "DirEntry_name de =
     (case position (\<lambda>b. b = 0) (de_name de) of
        None \<Rightarrow> Inl IndexOutOfRange
      | Some len \<Rightarrow> if valid_utf8 (take len (de_name de)) then Inr (take len (de_name de)) else Inl UnwrapNone)"

end
