(* ===== verification/Layout_Inv.thy ===== *)
theory Layout_Inv
  imports Layout
begin

unbundle bit_operations_syntax

text \<open>
  What the on-disk structures mean: encodings and their round trips, the map from a file's block
  numbers to disk blocks that \<^verbatim>\<open>get_block_id\<close> computes, the bytes of a file, and that \<^verbatim>\<open>read_at\<close> and
  \<^verbatim>\<open>write_at\<close> read and overwrite exactly these bytes.
\<close>

section \<open>Round trips\<close>

lemma length_encode_super_block [simp]: "length (encode_super_block old sb) = 24"
  by (simp add: encode_super_block_def)

lemma decode_encode_super_block [simp]: "decode_super_block (encode_super_block old sb) = Inr sb"
  by (simp add: decode_super_block_def encode_super_block_def)

lemma length_encode_disk_inode [simp]:
  "length (di_direct di) = 28 \<Longrightarrow> length old = 128 \<Longrightarrow> length (encode_disk_inode old di) = 128"
  by (simp add: encode_disk_inode_def)

lemma words_of_bytes_append:
  "n * c \<le> length xs \<Longrightarrow> words_of_bytes n c (xs @ ys) = words_of_bytes n c xs"
proof (rule nth_equalityI)
  fix i assume le: "n * c \<le> length xs" and "i < length (words_of_bytes n c (xs @ ys))"
  then have i: "i < c" by simp
  then have "n * i + n \<le> n * c" by (metis Suc_leI add.commute mult_Suc_right mult_le_mono2)
  then have "n * i + n \<le> length xs" using le by simp
  then show "words_of_bytes n c (xs @ ys) ! i = words_of_bytes n c xs ! i"
    using i by (simp add: slice_def)
qed simp

lemma decode_encode_disk_inode [simp]:
  assumes "length (di_direct di) = 28" and "length old = 128"
  shows "decode_disk_inode (encode_disk_inode old di) = Inr di"
proof -
  let ?ws = "di_size di # di_direct di @ [di_indirect1 di, di_indirect2 di]"
  let ?t = "(case di_type di of File \<Rightarrow> 0 | Directory \<Rightarrow> 1) :: byte"
  have len: "length ?ws = 31" using assms by simp
  have "words_of_bytes 4 31 (encode_disk_inode old di) = words_of_bytes 4 31 (bytes_of_words 4 ?ws)"
    unfolding encode_disk_inode_def using len by (intro words_of_bytes_append) simp
  also have "\<dots> = ?ws" using len by (intro words_of_bytes_of_words) simp_all
  finally have w: "words_of_bytes 4 31 (encode_disk_inode old di) = ?ws" .
  have "encode_disk_inode old di ! 124 = ?t"
    unfolding encode_disk_inode_def using len by (simp add: nth_append)
  then show ?thesis
    using w assms(1) by (cases "di_type di")
      (simp_all add: decode_disk_inode_def Let_def slice_def nth_append numeral_eq_Suc)
qed

lemma length_DirEntry_as_bytes [simp]: "length (de_name de) = 28 \<Longrightarrow> length (DirEntry_as_bytes de) = DIRENT_SZ"
  by (simp add: DirEntry_as_bytes_def DIRENT_SZ_def)

lemma DirEntry_of_as_bytes [simp]:
  "length (de_name de) = 28 \<Longrightarrow> DirEntry_of_bytes (DirEntry_as_bytes de) = de"
  by (simp add: DirEntry_of_bytes_def DirEntry_as_bytes_def slice_def)

lemma position_append_replicate:
  "0 \<notin> set xs \<Longrightarrow> 0 < n \<Longrightarrow> position (\<lambda>b. b = 0) (xs @ replicate n (0 :: byte)) = Some (length xs)"
  by (induction xs) (auto simp: gr0_conv_Suc)

lemma DirEntry_new_name:
  assumes "DirEntry_new name ino = Inr de" and "0 \<notin> set name" and "length name \<le> 27"
  shows "DirEntry_name de = (if valid_utf8 name then Inr name else Inl UnwrapNone)"
proof -
  have "de_name de = name @ replicate (28 - length name) 0"
    using assms by (auto simp: DirEntry_new_def layout_consts overwrite_def split: if_splits)
  then show ?thesis
    using position_append_replicate[of name "28 - length name"] assms by (simp add: DirEntry_name_def)
qed

section \<open>Sizes\<close>

lemma unat_data_blocks_of:
  assumes "unat sz + 511 < 2 ^ 32"
  shows "unat (data_blocks_of sz) = (unat sz + 511) div 512"
proof -
  have d: "data_blocks_of sz = (sz + 511) div 512"
    by (simp add: data_blocks_of_def BLOCK_SZ_def add.commute)
  have "unat (sz + 511) = unat sz + 511"
    using assms by (subst unat_add_lem[THEN iffD1]) simp_all
  then show ?thesis unfolding d unat_div by simp
qed

text \<open>The number of blocks a file of \<open>n\<close> data blocks takes with its index blocks.\<close>

definition blocks_for :: "nat \<Rightarrow> nat" where
  "blocks_for n = n + (if 28 < n then 1 else 0) + (if 156 < n then 1 + (n - 156 + 127) div 128 else 0)"

lemma unat_total_blocks:
  assumes "unat sz + 511 < 2 ^ 32"
  shows "unat (total_blocks sz) = blocks_for (unat (data_blocks_of sz))"
proof -
  let ?n = "unat (data_blocks_of sz)"
  have "?n < 2 ^ 23" using assms by (simp add: unat_data_blocks_of)
  then have "blocks_for ?n < 2 ^ 32"
    using div_le_dividend[of "?n - 156 + 127" 128] unfolding blocks_for_def by (auto split: if_splits)
  moreover have "total_blocks sz = of_nat (blocks_for ?n)"
    by (auto simp: total_blocks_def blocks_for_def layout_consts Let_def)
  ultimately show ?thesis by (simp add: unsigned_of_nat take_bit_nat_eq_self)
qed

section \<open>The blocks of a file\<close>

definition table_entry :: "(nat \<Rightarrow> byte list) \<Rightarrow> u32 \<Rightarrow> nat \<Rightarrow> u32" where
  "table_entry V b i = words_of_bytes 4 128 (V (unat b)) ! i"

definition block_of :: "(nat \<Rightarrow> byte list) \<Rightarrow> DiskInode \<Rightarrow> nat \<Rightarrow> u32" where
  "block_of V di k =
     (if k < 28 then di_direct di ! k
      else if k < 156 then table_entry V (di_indirect1 di) (k - 28)
      else table_entry V (table_entry V (di_indirect2 di) ((k - 156) div 128)) ((k - 156) mod 128))"

text \<open>The index blocks that a file of \<open>n\<close> blocks uses, and its data blocks.\<close>

definition table_ids :: "(nat \<Rightarrow> byte list) \<Rightarrow> DiskInode \<Rightarrow> nat \<Rightarrow> nat list" where
  "table_ids V di n =
     (if 28 < n then [unat (di_indirect1 di)] else []) @
     (if 156 < n
      then unat (di_indirect2 di) # map (\<lambda>a. unat (table_entry V (di_indirect2 di) a)) [0..<(n - 156 + 127) div 128]
      else [])"

definition data_ids :: "(nat \<Rightarrow> byte list) \<Rightarrow> DiskInode \<Rightarrow> nat \<Rightarrow> nat list" where
  "data_ids V di n = map (\<lambda>k. unat (block_of V di k)) [0..<n]"

definition inode_ok :: "nat set \<Rightarrow> (nat \<Rightarrow> byte list) \<Rightarrow> DiskInode \<Rightarrow> nat \<Rightarrow> bool" where
  "inode_ok A V di n \<longleftrightarrow> length (di_direct di) = 28 \<and> n \<le> 16540 \<and>
     distinct (table_ids V di n @ data_ids V di n) \<and> set (table_ids V di n @ data_ids V di n) \<subseteq> A"

lemma table_ids_mem:
  "28 < n \<Longrightarrow> unat (di_indirect1 di) \<in> set (table_ids V di n)"
  "156 < n \<Longrightarrow> unat (di_indirect2 di) \<in> set (table_ids V di n)"
  "156 + 128 * a < n \<Longrightarrow> unat (table_entry V (di_indirect2 di) a) \<in> set (table_ids V di n)"
proof -
  show "28 < n \<Longrightarrow> unat (di_indirect1 di) \<in> set (table_ids V di n)"
    "156 < n \<Longrightarrow> unat (di_indirect2 di) \<in> set (table_ids V di n)"
    by (simp_all add: table_ids_def)
  assume "156 + 128 * a < n"
  then have "a < (n - 156 + 127) div 128" "156 < n" by linarith+
  then show "unat (table_entry V (di_indirect2 di) a) \<in> set (table_ids V di n)"
    by (simp add: table_ids_def)
qed

lemma data_ids_mem: "k < n \<Longrightarrow> unat (block_of V di k) \<in> set (data_ids V di n)"
  by (auto simp: data_ids_def)

lemma inode_ok_data: "inode_ok A V di n \<Longrightarrow> k < n \<Longrightarrow> unat (block_of V di k) \<in> A"
  unfolding inode_ok_def set_append by (blast dest: data_ids_mem)

lemma length_table_ids: "length (table_ids V di n) + n = blocks_for n"
  by (simp add: table_ids_def blocks_for_def)

text \<open>Which block a file block is depends only on the index blocks.\<close>

lemma same_tables:
  assumes "\<And>i. i \<in> set (table_ids V di n) \<Longrightarrow> V' i = V i"
  shows block_of_cong: "k < n \<Longrightarrow> block_of V' di k = block_of V di k"
    and table_ids_cong: "table_ids V' di n = table_ids V di n"
    and data_ids_cong: "data_ids V' di n = data_ids V di n"
proof -
  note mem = table_ids_mem[where V = V and di = di and n = n]
  have t2: "table_entry V' (di_indirect2 di) a = table_entry V (di_indirect2 di) a" if "156 < n" for a
    using assms[OF mem(2)[OF that]] by (simp add: table_entry_def)
  show b: "block_of V' di k = block_of V di k" if "k < n" for k
  proof (cases "k < 156")
    case True
    then show ?thesis
      using assms mem(1) that by (simp add: block_of_def table_entry_def)
  next
    case False
    then have "156 + 128 * ((k - 156) div 128) < n" "156 < n" using that by linarith+
    then show ?thesis
      using False assms[OF mem(3)] t2 by (simp add: block_of_def table_entry_def)
  qed
  show "table_ids V' di n = table_ids V di n"
    using t2 by (simp add: table_ids_def)
  show "data_ids V' di n = data_ids V di n"
    using b by (simp add: data_ids_def)
qed

definition byte_at :: "(nat \<Rightarrow> byte list) \<Rightarrow> DiskInode \<Rightarrow> nat \<Rightarrow> byte" where
  "byte_at V di x = V (unat (block_of V di (x div 512))) ! (x mod 512)"

definition file_bytes :: "(nat \<Rightarrow> byte list) \<Rightarrow> DiskInode \<Rightarrow> byte list" where
  "file_bytes V di = map (byte_at V di) [0..<unat (di_size di)]"

context block_device
begin

lemma vs_index_at: "i < length xs \<Longrightarrow> Q (xs ! i) V \<Longrightarrow> vs H V (index_at xs i) Q"
  by (simp add: index_at_def vs_ret)

lemma vs_read_indirect:
  assumes "unat b \<in> ids" "unat b \<notin> set H" "length H < BLOCK_CACHE_SIZE" "i < 128" and "Q (table_entry V b i) V"
  shows "vs H V (read_indirect bd b i) Q"
proof (rule vs_sized)
  assume "\<And>i. i \<in> ids \<Longrightarrow> length (V i) = BLOCK_SZ"
  then have sl: "slice 0 BLOCK_SZ (V (unat b)) = V (unat b)" using assms(1) by (simp add: slice_def)
  show ?thesis
    unfolding read_indirect_def
    by (rule vs_cache_read[OF assms(1-3), where t = "words_of_bytes 4 128 (V (unat b))"])
      (use assms(4,5) sl in \<open>auto simp: decode_indirect_def table_entry_def intro!: vs_index_at\<close>)
qed

lemma vs_get_block_id:
  assumes ok: "inode_ok (ids - set H) V di n" and k: "unat inner < n" and H: "length H < BLOCK_CACHE_SIZE"
    and Q: "Q (block_of V di (unat inner)) V"
  shows "vs H V (get_block_id bd di inner) Q"
proof -
  have sub: "\<And>i. i \<in> set (table_ids V di n) \<Longrightarrow> i \<in> ids \<and> i \<notin> set H" and n: "n \<le> 16540"
    and len: "length (di_direct di) = 28"
    using ok by (auto simp: inode_ok_def)
  let ?k = "unat inner"
  consider "?k < 28" | "28 \<le> ?k" "?k < 156" | "156 \<le> ?k" by linarith
  then show ?thesis
  proof cases
    case 1
    then show ?thesis
      using Q len by (simp add: get_block_id_def layout_consts block_of_def vs_index_at)
  next
    case 2
    then have "unat (di_indirect1 di) \<in> ids \<and> unat (di_indirect1 di) \<notin> set H"
      using k by (intro sub table_ids_mem) simp
    then show ?thesis
      using 2 Q H by (simp add: get_block_id_def layout_consts block_of_def vs_read_indirect)
  next
    case 3
    let ?a = "(?k - 156) div 128" and ?b = "(?k - 156) mod 128"
    let ?e = "table_entry V (di_indirect2 di) ?a"
    have a: "156 + 128 * ?a < n" "?a < 128" "156 < n"
      using 3 k n by (simp_all add: less_mult_imp_div_less)
    have i2: "unat (di_indirect2 di) \<in> ids" "unat (di_indirect2 di) \<notin> set H"
      and i1: "unat ?e \<in> ids" "unat ?e \<notin> set H"
      using sub[OF table_ids_mem(2)[OF a(3)]] sub[OF table_ids_mem(3)[OF a(1)]] by auto
    show ?thesis
      using 3 Q H a i1 i2
      by (auto simp: get_block_id_def layout_consts block_of_def Let_def intro!: vs_andthen vs_read_indirect)
  qed
qed

end

end
