(* ===== verification/File_Data.thy ===== *)
theory File_Data
  imports Layout_Inv
begin

text \<open>
  \<^verbatim>\<open>DiskInode::read_at\<close> and \<^verbatim>\<open>DiskInode::write_at\<close> against the bytes of a file: a read returns the
  slice of \<open>file_bytes\<close> it asks for, a write overwrites that slice and changes nothing else.
\<close>

lemma end_current_block_cases:
  assumes "start < end"
  defines "e \<equiv> end_current_block start end"
  shows "start < e" and "e \<le> end" and "start mod 512 + (e - start) \<le> 512"
    and "\<And>x. start \<le> x \<Longrightarrow> x < e \<Longrightarrow> x div 512 = start div 512 \<and> x mod 512 = start mod 512 + (x - start)"
    and "e \<noteq> end \<Longrightarrow> e div 512 = Suc (start div 512)"
proof -
  obtain q r where q: "start div 512 = q" "start mod 512 = r" and r: "r < 512" and s: "start = 512 * q + r"
    by (metis mod_less_divisor mult_div_mod_eq zero_less_numeral)
  have e: "e = min (512 * q + 512) end"
    by (simp add: e_def end_current_block_def BLOCK_SZ_def q algebra_simps)
  show "start < e" "e \<le> end" "start mod 512 + (e - start) \<le> 512"
    unfolding e q(2) using assms(1) r by (auto simp: s min_def)
  show "e \<noteq> end \<Longrightarrow> e div 512 = Suc (start div 512)"
    unfolding e q(1) by (auto simp: min_def split: if_splits)
  show "x div 512 = start div 512 \<and> x mod 512 = start mod 512 + (x - start)" if x: "start \<le> x" "x < e" for x
  proof -
    obtain d where d: "x = start + d" using le_Suc_ex[OF x(1)] ..
    have "r + d < 512" using x(2) unfolding e d s by simp
    moreover have "x = 512 * q + (r + d)" using d s by simp
    moreover have "(512 * q + c) div 512 = q \<and> (512 * q + c) mod 512 = c" if "c < 512" for c :: nat
      using that by simp
    ultimately show ?thesis by (metis d q add_diff_cancel_left')
  qed
qed

lemma overwrite_overwrite:
  assumes "r + length xs + length ys \<le> length buf" and "k = r + length xs"
  shows "overwrite k ys (overwrite r xs buf) = overwrite r (xs @ ys) buf"
  using assms by (intro nth_equalityI) (auto simp: nth_overwrite nth_append)

lemma map_upt_overwrite:
  assumes "start \<le> e" "e \<le> end" "r + (end - start) \<le> length buf"
  shows "overwrite (r + (e - start)) (map f [e..<end]) (overwrite r (map f [start..<e]) buf) =
    overwrite r (map f [start..<end]) buf"
proof -
  have upt: "[start..<end] = [start..<e] @ [e..<end]"
    using assms(1,2) by (metis le_Suc_ex upt_add_eq_append)
  show ?thesis
    unfolding upt map_append using assms by (intro overwrite_overwrite) auto
qed

lemma slice_add: "slice w (m + n) buf = slice w m buf @ slice (w + m) n buf"
  by (simp add: slice_def take_add add.commute)

lemma slice_block_bytes:
  assumes "length (V (unat (block_of V di b))) = 512" and "start mod 512 + n \<le> 512"
    and "\<And>x. start \<le> x \<Longrightarrow> x < start + n \<Longrightarrow> x div 512 = b \<and> x mod 512 = start mod 512 + (x - start)"
  shows "slice (start mod 512) n (V (unat (block_of V di b))) = map (byte_at V di) [start..<start + n]"
proof (rule nth_equalityI)
  show "length (slice (start mod 512) n (V (unat (block_of V di b)))) = length (map (byte_at V di) [start..<start + n])"
    using assms(1,2) by simp
  fix j assume "j < length (slice (start mod 512) n (V (unat (block_of V di b))))"
  then have j: "j < n" using assms(1,2) by simp
  then have "byte_at V di (start + j) = V (unat (block_of V di b)) ! (start mod 512 + j)"
    using assms(3)[of "start + j"] by (simp add: byte_at_def)
  then show "slice (start mod 512) n (V (unat (block_of V di b))) ! j = map (byte_at V di) [start..<start + n] ! j"
    using j assms(1,2) by (simp add: nth_slice)
qed

definition inode_wf :: "nat set \<Rightarrow> (nat \<Rightarrow> byte list) \<Rightarrow> DiskInode \<Rightarrow> bool" where
  "inode_wf A V di \<longleftrightarrow> inode_ok A V di (unat (data_blocks di)) \<and> unat (di_size di) + 511 < 2 ^ 32"

lemma inode_wf_size:
  assumes "inode_wf A V di"
  shows "unat (di_size di) \<le> unat (data_blocks di) * 512" and "unat (data_blocks di) < 2 ^ 32"
  using assms by (auto simp: inode_wf_def data_blocks_def unat_data_blocks_of inode_ok_def)

lemma length_file_bytes [simp]: "length (file_bytes V di) = unat (di_size di)"
  by (simp add: file_bytes_def)

lemma slice_file_bytes:
  "off + k \<le> unat (di_size di) \<Longrightarrow> slice off k (file_bytes V di) = map (byte_at V di) [off..<off + k]"
  by (intro nth_equalityI) (auto simp: file_bytes_def nth_slice)

section \<open>Changing a data block\<close>

lemma inode_ok_distinct:
  assumes "inode_ok A V di n" "j < n" "k < n" "unat (block_of V di j) = unat (block_of V di k)"
  shows "j = k"
proof -
  have "distinct (map (\<lambda>k. unat (block_of V di k)) [0..<n])"
    using assms(1) by (simp add: inode_ok_def data_ids_def)
  then show ?thesis
    using assms(2-4) by (auto simp: distinct_map inj_on_def)
qed

lemma inode_ok_table_data:
  "inode_ok A V di n \<Longrightarrow> i \<in> set (table_ids V di n) \<Longrightarrow> i \<notin> set (data_ids V di n)"
  by (auto simp: inode_ok_def)

lemma inode_ok_cong:
  assumes "inode_ok A V di n" and "\<And>i. i \<in> set (table_ids V di n) \<Longrightarrow> V' i = V i"
  shows "inode_ok A V' di n"
  using assms(1) table_ids_cong[OF assms(2)] data_ids_cong[OF assms(2)] by (simp add: inode_ok_def)

definition data_changed ::
    "(nat \<Rightarrow> byte list) \<Rightarrow> DiskInode \<Rightarrow> nat \<Rightarrow> nat \<Rightarrow> byte list \<Rightarrow> (nat \<Rightarrow> byte list) \<Rightarrow> bool" where
  "data_changed V di n start bs V' \<longleftrightarrow> (\<forall>i. i \<notin> set (data_ids V di n) \<longrightarrow> V' i = V i) \<and>
     (\<forall>x<n * 512. byte_at V' di x =
        (if start \<le> x \<and> x < start + length bs then bs ! (x - start) else byte_at V di x))"

lemma data_changed_tables:
  assumes "inode_ok A V di n" and "data_changed V di n start bs V'"
  shows "i \<in> set (table_ids V di n) \<Longrightarrow> V' i = V i"
  using assms inode_ok_table_data by (auto simp: data_changed_def)

lemma data_changed_trans:
  assumes ok: "inode_ok A V di n" and 1: "data_changed V di n start bs V1"
    and 2: "data_changed V1 di n (start + length bs) cs V2"
  shows "data_changed V di n start (bs @ cs) V2"
proof -
  have "data_ids V1 di n = data_ids V di n"
    using data_ids_cong[OF data_changed_tables[OF ok 1]] by simp
  then show ?thesis
    using 1 2 by (auto simp: data_changed_def nth_append)
qed

lemma data_changed_block:
  assumes ok: "inode_ok A V di n" and b: "start div 512 < n"
    and len: "length (V (unat (block_of V di (start div 512)))) = 512" "start mod 512 + length src \<le> 512"
  shows "data_changed V di n start src
    (V(unat (block_of V di (start div 512)) :=
       overwrite (start mod 512) src (V (unat (block_of V di (start div 512))))))"
proof -
  let ?i = "unat (block_of V di (start div 512))"
  let ?V = "V(?i := overwrite (start mod 512) src (V ?i))"
  have i: "?i \<in> set (data_ids V di n)" using b by (rule data_ids_mem)
  have tab: "?V j = V j" if "j \<in> set (table_ids V di n)" for j
    using inode_ok_table_data[OF ok that] i by auto
  have "byte_at ?V di x = (if start \<le> x \<and> x < start + length src then src ! (x - start) else byte_at V di x)"
    if x: "x < n * 512" for x
  proof -
    have xb: "x div 512 < n" using x by (simp add: less_mult_imp_div_less)
    have blk: "block_of ?V di (x div 512) = block_of V di (x div 512)"
      using block_of_cong[OF tab xb] .
    show ?thesis
    proof (cases "x div 512 = start div 512")
      case True
      have eqs: "x = 512 * (start div 512) + x mod 512" "start = 512 * (start div 512) + start mod 512"
        using True by (metis mult_div_mod_eq)+
      then have "start \<le> x \<longleftrightarrow> start mod 512 \<le> x mod 512"
        "x < start + length src \<longleftrightarrow> x mod 512 < start mod 512 + length src" "x - start = x mod 512 - start mod 512"
        by linarith+
      then show ?thesis
        using True len blk by (simp add: byte_at_def nth_overwrite)
    next
      case False
      then have "unat (block_of V di (x div 512)) \<noteq> ?i"
        using inode_ok_distinct[OF ok xb b] by auto
      moreover have "\<not> (start \<le> x \<and> x < start + length src)"
        using False len(2) div_nat_eqI[of 512 "start div 512" x] mult_div_mod_eq[of 512 start] by linarith
      ultimately show ?thesis using blk by (auto simp: byte_at_def)
    qed
  qed
  then show ?thesis using i by (auto simp: data_changed_def)
qed

context block_device
begin

lemma vs_read_at_loop:
  assumes ok: "inode_ok (ids - set H) V di n" and H: "length H < BLOCK_CACHE_SIZE"
    and se: "start < end" "end \<le> n * 512" and n: "n < 2 ^ 32" and r: "r + (end - start) \<le> length buf"
  shows "vs H V (read_at_loop bd di start end (start div 512) r buf :: (('d, 'z) cache_state_scheme, nat \<times> byte list) prog)
    (\<lambda>x V'. x = (r + (end - start), overwrite r (map (byte_at V di) [start..<end]) buf) \<and> V' = V)"
  using se r
proof (induction "end - start" arbitrary: start r buf rule: less_induct)
  case less
  let ?e = "end_current_block start end" and ?b = "start div 512"
  note e = end_current_block_cases[OF less.prems(1)]
  have b: "?b < n" using less.prems(1,2) by (simp add: less_mult_imp_div_less)
  then have inner: "unat (of_nat ?b :: u32) = ?b"
    using n by (simp add: unsigned_of_nat take_bit_nat_eq_self)
  let ?i = "unat (block_of V di ?b)"
  have i: "?i \<in> ids" "?i \<notin> set H"
    using inode_ok_data[OF ok b] by auto
  show ?case
  proof (rule vs_sized)
    assume sized: "\<And>i. i \<in> ids \<Longrightarrow> length (V i) = BLOCK_SZ"
    have len: "length (V ?i) = 512" using sized[OF i(1)] by (simp add: BLOCK_SZ_def)
    have src: "slice (start mod 512) (?e - start) (V ?i) = map (byte_at V di) [start..<?e]"
    proof -
      have "slice (start mod 512) (?e - start) (V ?i) = map (byte_at V di) [start..<start + (?e - start)]"
        by (rule slice_block_bytes[where V = V and di = di and b = ?b, OF len], rule e(3), rule e(4)) (use e(1) in auto)
      then show ?thesis using e(1) by simp
    qed
    have rest: "vs H V (read_at_loop bd di ?e end (Suc ?b) (r + (?e - start))
        (overwrite r (map (byte_at V di) [start..<?e]) buf) :: (('d, 'z) cache_state_scheme, nat \<times> byte list) prog)
        (\<lambda>x V'. x = (r + (end - start), overwrite r (map (byte_at V di) [start..<end]) buf) \<and> V' = V)"
      if "?e \<noteq> end"
    proof -
      have "?e < end" using e(2) that by simp
      then have "vs H V (read_at_loop bd di ?e end (?e div 512) (r + (?e - start))
          (overwrite r (map (byte_at V di) [start..<?e]) buf) :: (('d, 'z) cache_state_scheme, nat \<times> byte list) prog)
          (\<lambda>x V'. x = (r + (?e - start) + (end - ?e), overwrite (r + (?e - start)) (map (byte_at V di) [?e..<end])
             (overwrite r (map (byte_at V di) [start..<?e]) buf)) \<and> V' = V)"
        using less.prems e(1,2) by (intro less.hyps) auto
      moreover have "r + (?e - start) + (end - ?e) = r + (end - start)" using e(1,2) by simp
      ultimately show ?thesis
        using map_upt_overwrite[of start ?e "end" r buf "byte_at V di"] less.prems e(1,2,5) that by simp
    qed
    have fits: "r + (?e - start) \<le> length buf" using less.prems e(1,2) by linarith
    show "vs H V (read_at_loop bd di start end ?b r buf :: (('d, 'z) cache_state_scheme, nat \<times> byte list) prog)
      (\<lambda>x V'. x = (r + (end - start), overwrite r (map (byte_at V di) [start..<end]) buf) \<and> V' = V)"
      unfolding read_at_loop.simps[of bd di start "end" ?b r buf] Let_def if_P[OF fits]
    proof (intro vs_andthen vs_ret vs_get_block_id[OF ok _ H] vs_cache_read[where t = "V ?i"], unfold inner, goal_cases)
      case 7
      then show ?case
        using rest e(2) src by (auto simp: BLOCK_SZ_def intro!: vs_ret)
    qed (use b i H len in \<open>auto simp: decode_data_def BLOCK_SZ_def slice_def\<close>)
  qed
qed

lemma vs_write_at_loop:
  assumes ok: "inode_ok (ids - set H) V di n" and H: "length H < BLOCK_CACHE_SIZE"
    and se: "start < end" "end \<le> n * 512" and n: "n < 2 ^ 32" and w: "w + (end - start) \<le> length buf"
  shows "vs H V (write_at_loop bd di start end (start div 512) w buf :: (('d, 'z) cache_state_scheme, nat) prog)
    (\<lambda>x V'. x = w + (end - start) \<and> data_changed V di n start (slice w (end - start) buf) V')"
  using ok se w
proof (induction "end - start" arbitrary: start w V rule: less_induct)
  case less
  let ?e = "end_current_block start end" and ?b = "start div 512"
  note e = end_current_block_cases[OF less.prems(2)]
  note ok = less.prems(1)
  have b: "?b < n" using less.prems(2,3) by (simp add: less_mult_imp_div_less)
  then have inner: "unat (of_nat ?b :: u32) = ?b"
    using n by (simp add: unsigned_of_nat take_bit_nat_eq_self)
  let ?i = "unat (block_of V di ?b)"
  have i: "?i \<in> ids" "?i \<notin> set H"
    using inode_ok_data[OF ok b] by auto
  show ?case
  proof (rule vs_sized)
    assume sized: "\<And>i. i \<in> ids \<Longrightarrow> length (V i) = BLOCK_SZ"
    have len: "length (V ?i) = 512" using sized[OF i(1)] by (simp add: BLOCK_SZ_def)
    have fits: "w + (?e - start) \<le> length buf" using less.prems e(1,2) by linarith
    let ?src = "slice w (?e - start) buf"
    let ?V = "V(?i := overwrite (start mod 512) ?src (V ?i))"
    have ch: "data_changed V di n start ?src ?V"
      using data_changed_block[OF ok b len, of ?src] e(3) fits by simp
    have rest: "vs H ?V (write_at_loop bd di ?e end (Suc ?b) (w + (?e - start)) buf :: (('d, 'z) cache_state_scheme, nat) prog)
        (\<lambda>x V'. x = w + (end - start) \<and> data_changed V di n start (slice w (end - start) buf) V')"
      if ne: "?e \<noteq> end"
    proof -
      have "vs H ?V (write_at_loop bd di ?e end (?e div 512) (w + (?e - start)) buf :: (('d, 'z) cache_state_scheme, nat) prog)
          (\<lambda>x V'. x = w + (?e - start) + (end - ?e) \<and>
             data_changed ?V di n ?e (slice (w + (?e - start)) (end - ?e) buf) V')"
        using less.prems(2-4) e(1,2) ne
        by (intro less.hyps inode_ok_cong[OF ok data_changed_tables[OF ok ch]]) auto
      moreover have "w + (?e - start) + (end - ?e) = w + (end - start)" using e(1,2) by simp
      moreover have "data_changed V di n start (slice w (end - start) buf) V'"
        if "data_changed ?V di n ?e (slice (w + (?e - start)) (end - ?e) buf) V'" for V'
      proof -
        have "start + length ?src = ?e" using fits e(1) by simp
        moreover have "slice w (end - start) buf = ?src @ slice (w + (?e - start)) (end - ?e) buf"
          using slice_add[of w "?e - start" "end - ?e" buf] e(1,2) by simp
        ultimately show ?thesis using data_changed_trans[OF ok ch] that by simp
      qed
      ultimately show ?thesis
        using e(5) ne by (auto elim!: vs_mono)
    qed
    show "vs H V (write_at_loop bd di start end ?b w buf :: (('d, 'z) cache_state_scheme, nat) prog)
      (\<lambda>x V'. x = w + (end - start) \<and> data_changed V di n start (slice w (end - start) buf) V')"
      unfolding write_at_loop.simps[of bd di start "end" ?b w buf] Let_def if_P[OF fits]
    proof (intro vs_andthen vs_get_block_id[OF ok _ H] vs_cache_modify[where t = "V ?i"] vs_ret, unfold inner, goal_cases)
      case 7
      have over: "overwrite 0 ys (V ?i) = ys" if "length ys = 512" for ys
        using that len by (simp add: overwrite_def)
      show ?case
        using rest ch e(2,3) fits len by (auto simp: BLOCK_SZ_def encode_data_def over intro!: vs_ret)
    qed (use b i H len in \<open>auto simp: decode_data_def BLOCK_SZ_def slice_def\<close>)
  qed
qed

lemma vs_DiskInode_read_at:
  assumes wf: "inode_wf (ids - set H) V di" and H: "length H < BLOCK_CACHE_SIZE"
    and off: "offset + length buf < 2 ^ 64"
  defines "k \<equiv> min (offset + length buf) (unat (di_size di)) - offset"
  shows "vs H V (DiskInode_read_at bd di offset buf)
    (\<lambda>x V'. x = (k, overwrite 0 (slice offset k (file_bytes V di)) buf) \<and> V' = V)"
proof -
  let ?stop = "min (offset + length buf) (unat (di_size di))"
  have mod: "(offset + length buf) mod 2 ^ 64 = offset + length buf"
    using off by (rule mod_less)
  show ?thesis
  proof (cases "offset \<ge> ?stop")
    case True
    then have "k = 0" by (simp add: k_def)
    then show ?thesis
      unfolding DiskInode_read_at_def mod Let_def if_P[OF True]
      by (intro vs_ret) (simp add: slice_def overwrite_def)
  next
    case False
    have sl: "slice offset k (file_bytes V di) = map (byte_at V di) [offset..<?stop]"
      using False slice_file_bytes[of offset k di V] by (simp add: k_def)
    have "vs H V (read_at_loop bd di offset ?stop (offset div 512) 0 buf)
      (\<lambda>x V'. x = (0 + (?stop - offset), overwrite 0 (map (byte_at V di) [offset..<?stop]) buf) \<and> V' = V)"
      using wf False inode_wf_size[OF wf] by (intro vs_read_at_loop[OF _ H]) (auto simp: inode_wf_def)
    then show ?thesis
      unfolding DiskInode_read_at_def mod Let_def if_not_P[OF False] sl by (simp add: k_def BLOCK_SZ_def)
  qed
qed

lemma vs_DiskInode_write_at:
  assumes wf: "inode_wf (ids - set H) V di" and H: "length H < BLOCK_CACHE_SIZE"
    and off: "offset + length buf \<le> unat (di_size di)" and ne: "buf \<noteq> []"
  shows "vs H V (DiskInode_write_at bd di offset buf)
    (\<lambda>x V'. x = length buf \<and> data_changed V di (unat (data_blocks di)) offset buf V')"
proof -
  have "unat (di_size di) < 2 ^ 32" using wf by (simp add: inode_wf_def)
  then have "offset + length buf < 2 ^ 64" using off by simp
  then have e: "min ((offset + length buf) mod 2 ^ 64) (unat (di_size di)) = offset + length buf"
    using off by (simp add: min_def)
  have "vs H V (write_at_loop bd di offset (offset + length buf) (offset div 512) 0 buf)
    (\<lambda>x V'. x = 0 + (offset + length buf - offset) \<and>
       data_changed V di (unat (data_blocks di)) offset (slice 0 (offset + length buf - offset) buf) V')"
    using wf off ne inode_wf_size[OF wf] by (intro vs_write_at_loop[OF _ H]) (auto simp: inode_wf_def)
  then show ?thesis
    unfolding DiskInode_write_at_def e Let_def
    by (intro vs_andthen vs_assert_that) (simp_all add: BLOCK_SZ_def slice_def)
qed

end

lemma data_changed_file_bytes:
  assumes "inode_wf A V di" and "data_changed V di (unat (data_blocks di)) offset buf V'"
    and "offset + length buf \<le> unat (di_size di)"
  shows "file_bytes V' di = overwrite offset buf (file_bytes V di)"
  using assms inode_wf_size(1)[OF assms(1)]
  by (intro nth_equalityI) (auto simp: file_bytes_def nth_overwrite data_changed_def)

lemma data_changed_wf:
  assumes "inode_wf A V di" and "data_changed V di (unat (data_blocks di)) offset buf V'"
  shows "inode_wf A V' di"
proof -
  have ok: "inode_ok A V di (unat (data_blocks di))" using assms(1) by (simp add: inode_wf_def)
  show ?thesis
    using inode_ok_cong[OF ok data_changed_tables[OF ok assms(2)]] assms(1) by (simp add: inode_wf_def)
qed

section \<open>Properties\<close>

text \<open>A file of 600 bytes in blocks 20 and 21.\<close>

definition demo_inode :: DiskInode where
  "demo_inode = \<lparr>di_size = 600, di_direct = [20, 21] @ replicate 26 0, di_indirect1 = 0, di_indirect2 = 0, di_type = File\<rparr>"

lemma demo_inode_wf: "inode_wf {..<32} V demo_inode"
proof -
  have n: "unat (data_blocks demo_inode) = 2"
    by (simp add: data_blocks_def unat_data_blocks_of demo_inode_def)
  have "[0..<2] = [0, 1 :: nat]" by (simp add: upt_rec)
  then show ?thesis
    unfolding inode_wf_def inode_ok_def n
    by (simp add: demo_inode_def table_ids_def data_ids_def block_of_def)
qed

text \<open>
  C7: \<^verbatim>\<open>read_at\<close> returns the part of the file that lies in the requested range, cut off at the end of
  the file, leaves the rest of the buffer alone and does not change the disk.
\<close>

theorem DiskInode_read_at_correct:
  assumes "block_device bd disk ids dinv" and "cache_inv disk ids dinv s" and "length (held s) < BLOCK_CACHE_SIZE"
    and "inode_wf (ids - set (held s)) (disk_view disk s) di" and "offset + length buf < 2 ^ 64"
  shows "\<exists>k s'. k = min (offset + length buf) (unat (di_size di)) - offset \<and>
    DiskInode_read_at bd di offset buf s =
      Inr ((k, overwrite 0 (slice offset k (file_bytes (disk_view disk s) di)) buf), s') \<and>
    cache_inv disk ids dinv s' \<and> held s' = held s \<and> disk_view disk s' = disk_view disk s"
  using vspec_run[OF block_device.vs_DiskInode_read_at[OF assms(1,4,3,5)] assms(2)] by auto

theorem DiskInode_read_at_correct_witness:
  "block_device BlockFile file_block {..<32} (\<lambda>f. length f = 32 * 512) \<and>
   cache_inv file_block {..<32} (\<lambda>f. length f = 32 * 512) (fresh_image 32) \<and>
   inode_wf ({..<32} - set (held (fresh_image 32))) (disk_view file_block (fresh_image 32)) demo_inode \<and>
   (\<exists>b s'. DiskInode_read_at BlockFile demo_inode 500 (replicate 200 0) (fresh_image 32) = Inr ((100, b), s'))"
proof -
  have wf: "inode_wf ({..<32} - set (held (fresh_image 32))) (disk_view file_block (fresh_image 32)) demo_inode"
    using demo_inode_wf by (simp add: fresh_image_def)
  have len: "length (held (fresh_image 32)) < BLOCK_CACHE_SIZE"
    by (simp add: fresh_image_def BLOCK_CACHE_SIZE_def)
  have sz: "unat (di_size demo_inode) = 600" by (simp add: demo_inode_def)
  show ?thesis
    using DiskInode_read_at_correct[OF bf.block_device_axioms fresh_image_inv len wf, of 500 "replicate 200 0"]
      bf.block_device_axioms[of 32] fresh_image_inv[of 32] wf sz by auto
qed

text \<open>
  C6: data written with \<^verbatim>\<open>write_at\<close> inside a file is what \<^verbatim>\<open>read_at\<close> gives back, the rest of the file
  is unchanged, and no block that is not a data block of the file is touched.
\<close>

theorem DiskInode_write_read_back:
  assumes "block_device bd disk ids dinv" and "cache_inv disk ids dinv s" and "length (held s) < BLOCK_CACHE_SIZE"
    and "inode_wf (ids - set (held s)) (disk_view disk s) di"
    and "offset + length buf \<le> unat (di_size di)" and "buf \<noteq> []"
  shows "\<exists>s' s''. DiskInode_write_at bd di offset buf s = Inr (length buf, s') \<and> cache_inv disk ids dinv s' \<and>
    file_bytes (disk_view disk s') di = overwrite offset buf (file_bytes (disk_view disk s) di) \<and>
    (\<forall>i. i \<notin> set (data_ids (disk_view disk s) di (unat (data_blocks di))) \<longrightarrow> disk_view disk s' i = disk_view disk s i) \<and>
    DiskInode_read_at bd di offset (replicate (length buf) 0) s' = Inr ((length buf, buf), s'')"
proof -
  obtain s' where s': "DiskInode_write_at bd di offset buf s = Inr (length buf, s')" "cache_inv disk ids dinv s'"
    "held s' = held s" "data_changed (disk_view disk s) di (unat (data_blocks di)) offset buf (disk_view disk s')"
    using vspec_run[OF block_device.vs_DiskInode_write_at[OF assms(1,4,3,5,6)] assms(2)] by auto
  note fb = data_changed_file_bytes[OF assms(4) s'(4) assms(5)]
  have wf: "inode_wf (ids - set (held s')) (disk_view disk s') di"
    using data_changed_wf[OF assms(4) s'(4)] s'(3) by simp
  have small: "offset + length (replicate (length buf) (0 :: byte)) < 2 ^ 64"
    using assms(4,5) by (simp add: inode_wf_def)
  have len: "length (held s') < BLOCK_CACHE_SIZE" using assms(3) s'(3) by simp
  have sl: "slice offset (length buf) (file_bytes (disk_view disk s') di) = buf"
    using fb assms(5) by simp
  obtain s'' where "DiskInode_read_at bd di offset (replicate (length buf) 0) s' = Inr ((length buf, buf), s'')"
    using vspec_run[OF block_device.vs_DiskInode_read_at[OF assms(1) wf len small] s'(2)] sl assms(5)
    by (auto simp: min_def overwrite_def)
  then show ?thesis using s' fb by (auto simp: data_changed_def)
qed

theorem DiskInode_write_read_back_witness:
  "block_device BlockFile file_block {..<32} (\<lambda>f. length f = 32 * 512) \<and>
   cache_inv file_block {..<32} (\<lambda>f. length f = 32 * 512) (fresh_image 32) \<and>
   inode_wf ({..<32} - set (held (fresh_image 32))) (disk_view file_block (fresh_image 32)) demo_inode \<and>
   (\<exists>s' s''. DiskInode_write_at BlockFile demo_inode 510 [1, 2, 3] (fresh_image 32) = Inr (3, s') \<and>
      DiskInode_read_at BlockFile demo_inode 510 (replicate 3 0) s' = Inr ((3, [1, 2, 3]), s''))"
proof -
  have wf: "inode_wf ({..<32} - set (held (fresh_image 32))) (disk_view file_block (fresh_image 32)) demo_inode"
    using demo_inode_wf by (simp add: fresh_image_def)
  have len: "length (held (fresh_image 32)) < BLOCK_CACHE_SIZE"
    by (simp add: fresh_image_def BLOCK_CACHE_SIZE_def)
  have sz: "510 + length [1, 2, 3 :: byte] \<le> unat (di_size demo_inode)" by (simp add: demo_inode_def)
  have three: "length [1, 2, 3 :: byte] = 3" by simp
  show ?thesis
    using DiskInode_write_read_back[OF bf.block_device_axioms fresh_image_inv len wf sz, unfolded three]
      bf.block_device_axioms[of 32] fresh_image_inv[of 32] wf by blast
qed

text \<open>
  C14: a directory entry keeps a name of at most 27 bytes without zero bytes, and its inode number,
  through its 32-byte form; a name of exactly 28 bytes is stored but panics when it is read back, and a
  longer one panics at once.
\<close>

theorem DirEntry_name_round_trip:
  assumes "0 \<notin> set name" and "valid_utf8 name"
  shows "(length name \<le> 27 \<longrightarrow> (\<exists>de. DirEntry_new name ino = Inr de \<and> length (DirEntry_as_bytes de) = DIRENT_SZ \<and>
       DirEntry_name (DirEntry_of_bytes (DirEntry_as_bytes de)) = Inr name \<and>
       de_inode_number (DirEntry_of_bytes (DirEntry_as_bytes de)) = ino)) \<and>
    (length name = 28 \<longrightarrow> (\<exists>de. DirEntry_new name ino = Inr de \<and> DirEntry_name de = Inl IndexOutOfRange)) \<and>
    (length name > 28 \<longrightarrow> DirEntry_new name ino = Inl IndexOutOfRange)"
proof -
  have len: "length (de_name de) = 28" "de_inode_number de = ino" if "DirEntry_new name ino = Inr de" for de
    using that by (auto simp: DirEntry_new_def layout_consts split: if_splits)
  have ok: "\<exists>de. DirEntry_new name ino = Inr de" if "length name \<le> 28"
    using that by (simp add: DirEntry_new_def layout_consts)
  have full: "DirEntry_name de = Inl IndexOutOfRange" if "DirEntry_new name ino = Inr de" "length name = 28" for de
  proof -
    have "de_name de = name"
      using that by (auto simp: DirEntry_new_def layout_consts overwrite_def)
    moreover have "position (\<lambda>b. b = 0) name = None" using assms(1) by auto
    ultimately show ?thesis by (simp add: DirEntry_name_def del: position_None)
  qed
  show ?thesis
    using ok len full DirEntry_new_name[of name ino] assms
    by (auto simp: DirEntry_new_def layout_consts)
qed

theorem DirEntry_name_round_trip_witness:
  "0 \<notin> set ([102, 111, 111] :: byte list) \<and> valid_utf8 [102, 111, 111] \<and>
   (\<exists>de. DirEntry_new [102, 111, 111] 7 = Inr de \<and>
      DirEntry_name (DirEntry_of_bytes (DirEntry_as_bytes de)) = Inr [102, 111, 111])"
  using DirEntry_name_round_trip[of "[102, 111, 111]" 7] by auto

end
