(* ===== verification/Efs.thy ===== *)
theory Efs
  imports File_Data
begin

unbundle bit_operations_syntax

text \<open>
  The disk manager and the inode layer: \<^verbatim>\<open>easy-fs/src/efs.rs\<close> and \<^verbatim>\<open>easy-fs/src/vfs.rs\<close>. The
  \<^verbatim>\<open>Arc<Mutex<EasyFileSystem>>\<close> is a value: none of its fields changes after \<^verbatim>\<open>create\<close> or \<^verbatim>\<open>open\<close>, every
  method locks it once and no method calls another one that locks it. Closures over a disk inode
  are arguments of \<open>read_disk_inode\<close> and \<open>modify_disk_inode\<close>.
\<close>

section \<open>EasyFileSystem\<close>

record EasyFileSystem =
  inode_bitmap :: Bitmap
  data_bitmap :: Bitmap
  inode_area_start_block :: u32
  data_area_start_block :: u32

definition get_disk_inode_pos :: "EasyFileSystem \<Rightarrow> u32 \<Rightarrow> u32 \<times> nat" where
  "get_disk_inode_pos efs inode_id =
     (let inodes_per_block = of_nat (BLOCK_SZ div DISK_INODE_SZ);
          block_id = inode_area_start_block efs + inode_id div inodes_per_block
      in (block_id, unat (inode_id mod inodes_per_block) * DISK_INODE_SZ))"

definition get_data_block_id :: "EasyFileSystem \<Rightarrow> u32 \<Rightarrow> u32" where
  "get_data_block_id efs data_block_id = data_area_start_block efs + data_block_id"

definition alloc_inode :: "'d BlockDevice \<Rightarrow> EasyFileSystem \<Rightarrow> (('d, 'z) cache_state_scheme, u32) prog" where
  "alloc_inode bd efs =
     andthen (Bitmap_alloc bd (inode_bitmap efs)) (\<lambda>r. andthen (unwrap r) (\<lambda>k. ret (of_nat k)))"

definition alloc_data :: "'d BlockDevice \<Rightarrow> EasyFileSystem \<Rightarrow> (('d, 'z) cache_state_scheme, u32) prog" where
  "alloc_data bd efs =
     andthen (Bitmap_alloc bd (data_bitmap efs)) (\<lambda>r. andthen (unwrap r) (\<lambda>k.
       ret (of_nat k + data_area_start_block efs)))"

definition zero_block :: "'d BlockDevice \<Rightarrow> nat \<Rightarrow> (('d, 'z) cache_state_scheme, unit) prog" where
  "zero_block bd block_id =
     cache_modify bd block_id 0 BLOCK_SZ decode_data encode_data (\<lambda>data_block. ret ((), map (\<lambda>_. 0) data_block))"

definition dealloc_data :: "'d BlockDevice \<Rightarrow> EasyFileSystem \<Rightarrow> u32 \<Rightarrow> (('d, 'z) cache_state_scheme, unit) prog" where
  "dealloc_data bd efs block_id =
     andthen (zero_block bd (unat block_id)) (\<lambda>_.
     Bitmap_dealloc bd (data_bitmap efs) (unat (block_id - data_area_start_block efs)))"

text \<open>The layout that \<^verbatim>\<open>create\<close> computes from the sizes, and the super block that records it.\<close>

definition create_layout :: "u32 \<Rightarrow> u32 \<Rightarrow> EasyFileSystem \<times> SuperBlock" where
  "create_layout total_blks inode_bitmap_blocks =
     (let ibm = Bitmap_new 1 (unat inode_bitmap_blocks);
          inode_num = Bitmap_maximum ibm;
          inode_area_blocks = of_nat ((inode_num * DISK_INODE_SZ + BLOCK_SZ - 1) div BLOCK_SZ);
          inode_total_blocks = inode_bitmap_blocks + inode_area_blocks;
          data_total_blocks = total_blks - 1 - inode_total_blocks;
          data_bitmap_blocks = (data_total_blocks + 4096) div 4097;
          data_area_blocks = data_total_blocks - data_bitmap_blocks;
          dbm = Bitmap_new (unat (1 + inode_bitmap_blocks + inode_area_blocks)) (unat data_bitmap_blocks)
      in (\<lparr>inode_bitmap = ibm, data_bitmap = dbm, inode_area_start_block = 1 + inode_bitmap_blocks,
           data_area_start_block = 1 + inode_total_blocks + data_bitmap_blocks\<rparr>,
          SuperBlock_initialize total_blks inode_bitmap_blocks inode_area_blocks data_bitmap_blocks data_area_blocks))"

definition modify_inode_at ::
    "'d BlockDevice \<Rightarrow> u32 \<Rightarrow> nat \<Rightarrow> (DiskInode \<Rightarrow> (('d, 'z) cache_state_scheme, 'v \<times> DiskInode) prog) \<Rightarrow>
     (('d, 'z) cache_state_scheme, 'v) prog" where
  "modify_inode_at bd block_id off f =
     cache_modify bd (unat block_id) off DISK_INODE_SZ decode_disk_inode encode_disk_inode f"

definition EasyFileSystem_create ::
    "'d BlockDevice \<Rightarrow> u32 \<Rightarrow> u32 \<Rightarrow> (('d, 'z) cache_state_scheme, EasyFileSystem) prog" where
  "EasyFileSystem_create bd total_blks inode_bitmap_blocks =
     (case create_layout total_blks inode_bitmap_blocks of (efs, sb) \<Rightarrow>
     andthen (for_each [0..<unat total_blks] (zero_block bd)) (\<lambda>_.
     andthen (cache_modify bd 0 0 24 decode_super_block encode_super_block (\<lambda>_. ret ((), sb))) (\<lambda>_.
     andthen (alloc_inode bd efs) (\<lambda>root.
     andthen (assert_that (root = 0)) (\<lambda>_.
     case get_disk_inode_pos efs 0 of (root_inode_block_id, root_inode_offset) \<Rightarrow>
     andthen (modify_inode_at bd root_inode_block_id root_inode_offset
       (\<lambda>disk_inode. ret ((), DiskInode_initialize Directory disk_inode))) (\<lambda>_.
     andthen (block_cache_sync_all bd) (\<lambda>_. ret efs)))))))"

definition EasyFileSystem_open :: "'d BlockDevice \<Rightarrow> (('d, 'z) cache_state_scheme, EasyFileSystem) prog" where
  "EasyFileSystem_open bd =
     cache_read bd 0 0 24 decode_super_block (\<lambda>super_block.
       andthen (assert_that (SuperBlock_is_valid super_block)) (\<lambda>_.
       let inode_total_blocks = sb_inode_bitmap_blocks super_block + sb_inode_area_blocks super_block in
       ret \<lparr>inode_bitmap = Bitmap_new 1 (unat (sb_inode_bitmap_blocks super_block)),
            data_bitmap = Bitmap_new (unat (1 + inode_total_blocks)) (unat (sb_data_bitmap_blocks super_block)),
            inode_area_start_block = 1 + sb_inode_bitmap_blocks super_block,
            data_area_start_block = 1 + inode_total_blocks + sb_data_bitmap_blocks super_block\<rparr>))"

section \<open>Inode\<close>

record Inode =
  in_block_id :: nat
  in_block_offset :: nat

definition Inode_new :: "u32 \<Rightarrow> nat \<Rightarrow> Inode" where
  "Inode_new block_id block_offset = \<lparr>in_block_id = unat block_id, in_block_offset = block_offset\<rparr>"

definition root_inode :: "EasyFileSystem \<Rightarrow> Inode" where
  "root_inode efs = (case get_disk_inode_pos efs 0 of (block_id, block_offset) \<Rightarrow> Inode_new block_id block_offset)"

definition read_disk_inode ::
    "'d BlockDevice \<Rightarrow> Inode \<Rightarrow> (DiskInode \<Rightarrow> (('d, 'z) cache_state_scheme, 'v) prog) \<Rightarrow>
     (('d, 'z) cache_state_scheme, 'v) prog" where
  "read_disk_inode bd inode f =
     cache_read bd (in_block_id inode) (in_block_offset inode) DISK_INODE_SZ decode_disk_inode f"

definition modify_disk_inode ::
    "'d BlockDevice \<Rightarrow> Inode \<Rightarrow> (DiskInode \<Rightarrow> (('d, 'z) cache_state_scheme, 'v \<times> DiskInode) prog) \<Rightarrow>
     (('d, 'z) cache_state_scheme, 'v) prog" where
  "modify_disk_inode bd inode f =
     cache_modify bd (in_block_id inode) (in_block_offset inode) DISK_INODE_SZ decode_disk_inode encode_disk_inode f"

text \<open>The \<open>i\<close>-th directory entry; \<^verbatim>\<open>dirent\<close> is filled through \<^verbatim>\<open>as_bytes_mut\<close>.\<close>

definition read_dirent ::
    "'d BlockDevice \<Rightarrow> DiskInode \<Rightarrow> nat \<Rightarrow> byte list \<Rightarrow> (('d, 'z) cache_state_scheme, byte list) prog" where
  "read_dirent bd di i dirent =
     andthen (DiskInode_read_at bd di (DIRENT_SZ * i) dirent) (\<lambda>(n, dirent').
     andthen (assert_that (n = DIRENT_SZ)) (\<lambda>_. ret dirent'))"

fun find_inode_id_loop ::
    "'d BlockDevice \<Rightarrow> DiskInode \<Rightarrow> byte list \<Rightarrow> nat list \<Rightarrow> byte list \<Rightarrow>
     (('d, 'z) cache_state_scheme, u32 option) prog" where
  "find_inode_id_loop bd di name [] dirent = ret None"
| "find_inode_id_loop bd di name (i # is) dirent =
     andthen (read_dirent bd di i dirent) (\<lambda>dirent'.
     andthen (lift_res (DirEntry_name (DirEntry_of_bytes dirent'))) (\<lambda>entry_name.
     if entry_name = name then ret (Some (de_inode_number (DirEntry_of_bytes dirent')))
     else find_inode_id_loop bd di name is dirent'))"

definition find_inode_id ::
    "'d BlockDevice \<Rightarrow> byte list \<Rightarrow> DiskInode \<Rightarrow> (('d, 'z) cache_state_scheme, u32 option) prog" where
  "find_inode_id bd name di =
     andthen (assert_that (is_dir di)) (\<lambda>_.
     find_inode_id_loop bd di name [0..<unat (di_size di) div DIRENT_SZ] (DirEntry_as_bytes DirEntry_empty))"

definition Inode_find ::
    "'d BlockDevice \<Rightarrow> EasyFileSystem \<Rightarrow> Inode \<Rightarrow> byte list \<Rightarrow> (('d, 'z) cache_state_scheme, Inode option) prog" where
  "Inode_find bd efs inode name =
     read_disk_inode bd inode (\<lambda>disk_inode.
       andthen (find_inode_id bd name disk_inode) (\<lambda>r.
       ret (map_option (\<lambda>inode_id. case get_disk_inode_pos efs inode_id of
         (block_id, block_offset) \<Rightarrow> Inode_new block_id block_offset) r)))"

fun alloc_data_loop ::
    "'d BlockDevice \<Rightarrow> EasyFileSystem \<Rightarrow> nat \<Rightarrow> u32 list \<Rightarrow> (('d, 'z) cache_state_scheme, u32 list) prog" where
  "alloc_data_loop bd efs 0 v = ret v"
| "alloc_data_loop bd efs (Suc n) v =
     andthen (alloc_data bd efs) (\<lambda>b. alloc_data_loop bd efs n (v @ [b]))"

definition Inode_increase_size ::
    "'d BlockDevice \<Rightarrow> EasyFileSystem \<Rightarrow> u32 \<Rightarrow> DiskInode \<Rightarrow> (('d, 'z) cache_state_scheme, DiskInode) prog" where
  "Inode_increase_size bd efs new_size disk_inode =
     (if new_size < di_size disk_inode then ret disk_inode
      else
        andthen (lift_res (blocks_num_needed disk_inode new_size)) (\<lambda>blocks_needed.
        andthen (alloc_data_loop bd efs (unat blocks_needed) []) (\<lambda>v.
        DiskInode_increase_size bd disk_inode new_size v)))"

definition Inode_create ::
    "'d BlockDevice \<Rightarrow> EasyFileSystem \<Rightarrow> Inode \<Rightarrow> byte list \<Rightarrow> (('d, 'z) cache_state_scheme, Inode option) prog" where
  "Inode_create bd efs inode name =
     andthen (modify_disk_inode bd inode (\<lambda>root_inode.
       andthen (assert_that (is_dir root_inode)) (\<lambda>_.
       andthen (find_inode_id bd name root_inode) (\<lambda>r. ret (r, root_inode))))) (\<lambda>found.
     if found \<noteq> None then ret None
     else
       andthen (alloc_inode bd efs) (\<lambda>new_inode_id.
       case get_disk_inode_pos efs new_inode_id of (new_inode_block_id, new_inode_block_offset) \<Rightarrow>
       andthen (modify_inode_at bd new_inode_block_id new_inode_block_offset
         (\<lambda>new_inode. ret ((), DiskInode_initialize File new_inode))) (\<lambda>_.
       andthen (modify_disk_inode bd inode (\<lambda>root_inode.
         let file_count = unat (di_size root_inode) div DIRENT_SZ;
             new_size = (file_count + 1) * DIRENT_SZ in
         andthen (Inode_increase_size bd efs (of_nat new_size) root_inode) (\<lambda>root_inode'.
         andthen (lift_res (DirEntry_new name new_inode_id)) (\<lambda>dirent.
         andthen (DiskInode_write_at bd root_inode' (file_count * DIRENT_SZ) (DirEntry_as_bytes dirent)) (\<lambda>_.
         ret ((), root_inode')))))) (\<lambda>_.
       andthen (block_cache_sync_all bd) (\<lambda>_.
       ret (Some (Inode_new new_inode_block_id new_inode_block_offset)))))))"

fun ls_loop ::
    "'d BlockDevice \<Rightarrow> DiskInode \<Rightarrow> nat list \<Rightarrow> byte list list \<Rightarrow> (('d, 'z) cache_state_scheme, byte list list) prog" where
  "ls_loop bd di [] v = ret v"
| "ls_loop bd di (i # is) v =
     andthen (read_dirent bd di i (DirEntry_as_bytes DirEntry_empty)) (\<lambda>dirent.
     andthen (lift_res (DirEntry_name (DirEntry_of_bytes dirent))) (\<lambda>name.
     ls_loop bd di is (v @ [name])))"

definition Inode_ls :: "'d BlockDevice \<Rightarrow> Inode \<Rightarrow> (('d, 'z) cache_state_scheme, byte list list) prog" where
  "Inode_ls bd inode =
     read_disk_inode bd inode (\<lambda>disk_inode. ls_loop bd disk_inode [0..<unat (di_size disk_inode) div DIRENT_SZ] [])"

definition Inode_read_at ::
    "'d BlockDevice \<Rightarrow> Inode \<Rightarrow> nat \<Rightarrow> byte list \<Rightarrow> (('d, 'z) cache_state_scheme, nat \<times> byte list) prog" where
  "Inode_read_at bd inode offset buf =
     read_disk_inode bd inode (\<lambda>disk_inode. DiskInode_read_at bd disk_inode offset buf)"

definition Inode_write_at ::
    "'d BlockDevice \<Rightarrow> EasyFileSystem \<Rightarrow> Inode \<Rightarrow> nat \<Rightarrow> byte list \<Rightarrow> (('d, 'z) cache_state_scheme, nat) prog" where
  "Inode_write_at bd efs inode offset buf =
     andthen (modify_disk_inode bd inode (\<lambda>disk_inode.
       andthen (Inode_increase_size bd efs (of_nat (offset + length buf)) disk_inode) (\<lambda>disk_inode'.
       andthen (DiskInode_write_at bd disk_inode' offset buf) (\<lambda>n.
       ret (n, disk_inode'))))) (\<lambda>size.
     andthen (block_cache_sync_all bd) (\<lambda>_. ret size))"

definition Inode_clear :: "'d BlockDevice \<Rightarrow> EasyFileSystem \<Rightarrow> Inode \<Rightarrow> (('d, 'z) cache_state_scheme, unit) prog" where
  "Inode_clear bd efs inode =
     andthen (modify_disk_inode bd inode (\<lambda>disk_inode.
       andthen (DiskInode_clear_size bd disk_inode) (\<lambda>(data_blocks_dealloc, disk_inode').
       andthen (assert_that (length data_blocks_dealloc = unat (total_blocks (di_size disk_inode)))) (\<lambda>_.
       andthen (for_each data_blocks_dealloc (dealloc_data bd efs)) (\<lambda>_.
       ret ((), disk_inode')))))) (\<lambda>_.
     block_cache_sync_all bd)"

end
