(* ===== verification/Efs_Format.thy ===== *)
theory Efs_Format
  imports Efs
begin

unbundle bit_operations_syntax

text \<open>
  Formatting and opening a file system: \<^verbatim>\<open>EasyFileSystem::create\<close> leaves zeroed blocks, a super block that records the
  layout, one inode in use and an empty root directory; \<^verbatim>\<open>EasyFileSystem::open\<close> reads the same layout back.
\<close>

section \<open>Zeroed blocks\<close>

lemma bytes_le_word_zeros [simp]: "bytes_le_word (replicate j 0) = 0"
  by (induction j) auto

lemma slice_zeros [simp]: "slice i n (replicate m x) = replicate (min n (m - i)) x"
  by (simp add: slice_def min.commute)

lemma bitmap_bit_zero:
  assumes "V (k div BLOCK_BITS + start_block_id bm) = replicate 512 0"
  shows "\<not> bitmap_bit V bm k"
proof -
  have "k mod BLOCK_BITS div 64 < 64" by (simp add: BLOCK_BITS_def BLOCK_SZ_def div64_less)
  then show ?thesis unfolding bitmap_bit_def assms by (simp add: block_bit_def)
qed

lemma decode_inode_zeros:
  assumes "length bs = 512" and "bs = replicate 512 0" and "off + 128 \<le> 512"
  shows "\<exists>di. decode_disk_inode (slice off 128 bs) = Inr di \<and> length (di_direct di) = 28"
proof -
  have "slice off 128 bs ! 124 = 0" using assms by (simp add: nth_slice)
  then show ?thesis by (simp add: decode_disk_inode_def Let_def)
qed

context block_device
begin

lemma vs_zero_block:
  assumes i: "i \<in> ids" "i \<notin> set H" "length H < BLOCK_CACHE_SIZE" and Q: "Q () (V(i := replicate 512 0))"
  shows "vs H V (zero_block bd i) Q"
proof (rule vs_sized)
  assume sz: "\<And>j. j \<in> ids \<Longrightarrow> length (V j) = BLOCK_SZ"
  have l: "length (V i) = 512" using sz[OF i(1)] by (simp add: BLOCK_SZ_def)
  then have sl: "slice 0 512 (V i) = V i" by (simp add: slice_def)
  have m: "map (\<lambda>_. 0) (V i) = replicate 512 (0 :: byte)" using l by (simp add: map_replicate_const)
  show ?thesis
    unfolding zero_block_def
    by (rule vs_cache_modify[OF i, where t = "V i"])
      (use l Q in \<open>auto intro!: vs_ret simp: BLOCK_SZ_def sl decode_data_def encode_data_def m overwrite_def\<close>)
qed

lemma vs_zero_blocks:
  assumes "set is \<subseteq> ids" and "set is \<inter> set H = {}" and "length H < BLOCK_CACHE_SIZE"
    and "Q () (\<lambda>i. if i \<in> set is then replicate 512 0 else V i)"
  shows "vs H V (for_each is (zero_block bd)) Q"
  using assms
proof (induction "is" arbitrary: V)
  case Nil
  then show ?case by (auto intro: vs_ret)
next
  case (Cons i "is")
  have "(\<lambda>j. if j \<in> set is then replicate 512 0 else (V(i := replicate 512 0)) j) =
      (\<lambda>j. if j \<in> set (i # is) then replicate 512 0 else V j)" by (auto simp: fun_eq_iff)
  then show ?case
    using Cons.prems unfolding for_each.simps
    by (intro vs_andthen vs_zero_block Cons.IH) auto
qed

end

section \<open>A formatted disk\<close>

definition empty_dir :: DiskInode where
  "empty_dir = \<lparr>di_size = 0, di_direct = replicate 28 0, di_indirect1 = 0, di_indirect2 = 0, di_type = Directory\<rparr>"

definition inode_at :: "(nat \<Rightarrow> byte list) \<Rightarrow> Inode \<Rightarrow> DiskInode res" where
  "inode_at V inode = decode_disk_inode (slice (in_block_offset inode) 128 (V (in_block_id inode)))"

text \<open>
  The super block \<open>sb\<close> is in block 0, the root directory is empty, inode 0 is the only one in use, and all the rest
  below block \<open>n\<close> is zero.
\<close>

definition formatted :: "EasyFileSystem \<Rightarrow> SuperBlock \<Rightarrow> nat \<Rightarrow> (nat \<Rightarrow> byte list) \<Rightarrow> bool" where
  "formatted efs sb n V \<longleftrightarrow> decode_super_block (slice 0 24 (V 0)) = Inr sb \<and> inode_at V (root_inode efs) = Inr empty_dir \<and>
     drop 128 (V (in_block_id (root_inode efs))) = replicate 384 0 \<and>
     (\<forall>k<Bitmap_maximum (inode_bitmap efs). bitmap_bit V (inode_bitmap efs) k \<longleftrightarrow> k = 0) \<and>
     (\<forall>i<n. i \<noteq> 0 \<longrightarrow> i \<noteq> start_block_id (inode_bitmap efs) \<longrightarrow> i \<noteq> in_block_id (root_inode efs) \<longrightarrow> V i = replicate 512 0)"

lemma DiskInode_initialize_dir: "length (di_direct di) = 28 \<Longrightarrow> DiskInode_initialize Directory di = empty_dir"
  by (cases di) (simp add: DiskInode_initialize_def empty_dir_def map_replicate_const)

lemma create_layout_sel:
  "inode_bitmap (fst (create_layout total_blks ibm)) = Bitmap_new 1 (unat ibm)"
  "inode_area_start_block (fst (create_layout total_blks ibm)) = 1 + ibm"
  "sb_magic (snd (create_layout total_blks ibm)) = EFS_MAGIC"
  by (simp_all add: create_layout_def Let_def SuperBlock_initialize_def)

lemma root_pos:
  assumes "1 + unat ibm < 2 ^ 32"
  shows "root_inode (fst (create_layout total_blks ibm)) = \<lparr>in_block_id = 1 + unat ibm, in_block_offset = 0\<rparr>"
  using assms by (simp add: root_inode_def get_disk_inode_pos_def create_layout_sel Inode_new_def unat_word_ariths)

context block_device
begin

lemma vs_alloc_root:
  assumes on: "\<And>b. b < n \<Longrightarrow> b + 1 \<in> ids" and n: "0 < n" and z: "\<And>b. b < n \<Longrightarrow> V (b + 1) = replicate 512 0" and bm: "inode_bitmap efs = Bitmap_new 1 n"
  shows "vs [] V (alloc_inode bd efs) (\<lambda>r V'. r = 0 \<and> (\<forall>k<Bitmap_maximum (inode_bitmap efs). bitmap_bit V' (inode_bitmap efs) k \<longleftrightarrow> k = 0) \<and>
    (\<forall>i. i \<noteq> 1 \<longrightarrow> V' i = V i))"
proof -
  let ?bm = "inode_bitmap efs"
  have max: "Bitmap_maximum ?bm = n * 4096" "start_block_id ?bm = 1" "bm_blocks ?bm = n"
    by (simp_all add: bm Bitmap_maximum_def Bitmap_new_def BLOCK_BITS_def BLOCK_SZ_def)
  have clear: "\<not> bitmap_bit V ?bm k" if "k < n * 4096" for k
    by (rule bitmap_bit_zero) (use z[of "k div 4096"] that in \<open>simp add: max BLOCK_BITS_def BLOCK_SZ_def div_mult_less mult.commute\<close>)
  have on': "bitmap_on ids [] ?bm" using on by (simp add: bitmap_on_def max BLOCK_CACHE_SIZE_def)
  have post: "r = Some 0 \<and> (\<forall>k<n * 4096. bitmap_bit V' ?bm k \<longleftrightarrow> k = 0) \<and> (\<forall>i. i \<noteq> 1 \<longrightarrow> V' i = V i)" if a: "alloc_post ?bm 0 V r V'" for r V'
  proof (cases r)
    case None
    then show ?thesis using a clear[of 0] n by (simp add: alloc_post_0 max)
  next
    case (Some k)
    then have k: "k < n * 4096" "\<forall>j<k. bitmap_bit V ?bm j" "\<forall>j<n * 4096. bitmap_bit V' ?bm j \<longleftrightarrow> bitmap_bit V ?bm j \<or> j = k"
      "\<forall>i. i \<noteq> k div BLOCK_BITS + 1 \<longrightarrow> V' i = V i" using a by (simp_all add: alloc_post_0 max)
    have "k = 0" using k(1,2) clear[of 0] n by (metis gr0I nat_0_less_mult_iff zero_less_numeral)
    then show ?thesis using Some k clear by simp
  qed
  show ?thesis
    unfolding alloc_inode_def max(1)
    by (rule vs_andthen, rule vs_mono[OF vs_Bitmap_alloc[OF on']]) (auto dest!: post intro!: vs_andthen vs_unwrap vs_ret)
qed

lemma vs_write_super_block:
  assumes "0 \<in> ids" and "Q () (V(0 := overwrite 0 (encode_super_block (slice 0 24 (V 0)) sb) (V 0)))"
  shows "vs [] V (cache_modify bd 0 0 24 decode_super_block encode_super_block (\<lambda>_. ret ((), sb))) Q"
proof -
  obtain t where t: "decode_super_block (slice 0 24 (V 0)) = Inr t" by (simp add: decode_super_block_def Let_def)
  show ?thesis
    by (rule vs_cache_modify[where t = t, OF assms(1)]) (auto intro!: vs_ret assms(2) simp: t BLOCK_SZ_def BLOCK_CACHE_SIZE_def)
qed

lemma vs_init_root:
  assumes i: "unat blk \<in> ids" and z: "V (unat blk) = replicate 512 0"
    and Q: "\<And>b. decode_disk_inode (slice 0 128 b) = Inr empty_dir \<Longrightarrow> drop 128 b = replicate 384 0 \<Longrightarrow> Q () (V(unat blk := b))"
  shows "vs [] V (modify_inode_at bd blk 0 (\<lambda>di. ret ((), DiskInode_initialize Directory di))) Q"
proof -
  obtain di where di: "decode_disk_inode (slice 0 128 (V (unat blk))) = Inr di" "length (di_direct di) = 28"
    using decode_inode_zeros[of "V (unat blk)" 0] z by auto
  have wf: "length (di_direct empty_dir) = 28" by (simp add: empty_dir_def)
  have "Q () (V(unat blk := overwrite 0 (encode_disk_inode (slice 0 128 (V (unat blk))) empty_dir) (V (unat blk))))"
    by (rule Q) (simp add: z wf, simp add: z wf overwrite_def)
  then show ?thesis
    unfolding modify_inode_at_def DISK_INODE_SZ_def
    by (intro vs_cache_modify[where t = di, OF i] vs_ret)
      (use di(1) in \<open>auto simp: BLOCK_SZ_def BLOCK_CACHE_SIZE_def DiskInode_initialize_dir[OF di(2)] wf z\<close>)
qed

end

lemma formatted_intro:
  assumes efs: "inode_bitmap efs = Bitmap_new 1 n" "root_inode efs = \<lparr>in_block_id = 1 + n, in_block_offset = 0\<rparr>"
    and sb: "decode_super_block (slice 0 24 b0) = Inr sb" and root: "decode_disk_inode (slice 0 128 b) = Inr empty_dir" "drop 128 b = replicate 384 0"
    and bits: "\<forall>k<Bitmap_maximum (inode_bitmap efs). bitmap_bit V2 (inode_bitmap efs) k \<longleftrightarrow> k = 0"
    and same: "\<forall>i. i \<noteq> 1 \<longrightarrow> V2 i = (V1(0 := b0)) i" and z: "\<And>i. i < m \<Longrightarrow> V1 i = replicate 512 0"
    and n: "0 < n"
  shows "formatted efs sb m (V2(1 + n := b))"
proof -
  have "bitmap_bit (V2(1 + n := b)) (inode_bitmap efs) k = bitmap_bit V2 (inode_bitmap efs) k"
    if "k < Bitmap_maximum (inode_bitmap efs)" for k
  proof (rule bitmap_bit_cong)
    have "k div 4096 < n"
      using that by (simp add: efs Bitmap_maximum_def Bitmap_new_def BLOCK_BITS_def BLOCK_SZ_def div_mult_less mult.commute)
    then show "(V2(1 + n := b)) (k div BLOCK_BITS + start_block_id (inode_bitmap efs)) =
        V2 (k div BLOCK_BITS + start_block_id (inode_bitmap efs))"
      by (simp add: efs Bitmap_new_def BLOCK_BITS_def BLOCK_SZ_def)
  qed
  then show ?thesis
    using sb root bits same z n unfolding formatted_def inode_at_def efs(2) by (simp add: efs(1) Bitmap_new_def)
qed

context block_device
begin

lemma vs_create_body:
  assumes ids: "{..<unat total_blks} \<subseteq> ids" and ibm: "0 < unat ibm" "1 + unat ibm < unat total_blks"
    and lay: "create_layout total_blks ibm = (efs, sb)"
  shows "vs [] V (andthen (for_each [0..<unat total_blks] (zero_block bd)) (\<lambda>_.
     andthen (cache_modify bd 0 0 24 decode_super_block encode_super_block (\<lambda>_. ret ((), sb))) (\<lambda>_.
     andthen (alloc_inode bd efs) (\<lambda>root. andthen (assert_that (root = 0)) (\<lambda>_.
     modify_inode_at bd (1 + ibm) 0 (\<lambda>di. ret ((), DiskInode_initialize Directory di))))))) (\<lambda>_. formatted efs sb (unat total_blks))"
proof -
  let ?n = "unat total_blks"
  have efs: "efs = fst (create_layout total_blks ibm)" by (simp add: lay)
  have small: "1 + unat ibm < 2 ^ 32" using ibm(2) unsigned_less[of total_blks, where ?'a = nat] by simp
  have un: "unat (1 + ibm) = 1 + unat ibm" using small by (simp add: unat_word_ariths)
  have bm: "inode_bitmap efs = Bitmap_new 1 (unat ibm)" unfolding efs by (rule create_layout_sel)
  have in_ids: "i \<in> ids" if "i < ?n" for i using ids that by auto
  define V1 where "V1 = (\<lambda>i. if i \<in> set [0..<?n] then replicate 512 (0 :: byte) else V i)"
  define b0 where "b0 = overwrite 0 (encode_super_block (slice 0 24 (V1 0)) sb) (V1 0)"
  have z: "V1 i = replicate 512 0" if "i < ?n" for i using that by (simp add: V1_def)
  have dec: "decode_super_block (slice 0 24 b0) = Inr sb" using z[of 0] ibm by (simp add: b0_def)
  have zero: "vs [] V (for_each [0..<?n] (zero_block bd)) (\<lambda>_ V'. V' = V1)"
    by (rule vs_zero_blocks) (use ids in \<open>auto simp: BLOCK_CACHE_SIZE_def V1_def\<close>)
  have super: "vs [] V1 (cache_modify bd 0 0 24 decode_super_block encode_super_block (\<lambda>_. ret ((), sb))) (\<lambda>_ V'. V' = V1(0 := b0))"
    by (rule vs_write_super_block) (use in_ids ibm in \<open>auto simp: b0_def\<close>)
  have alloc: "vs [] (V1(0 := b0)) (alloc_inode bd efs) (\<lambda>r V2. r = 0 \<and>
      (\<forall>k<Bitmap_maximum (inode_bitmap efs). bitmap_bit V2 (inode_bitmap efs) k \<longleftrightarrow> k = 0) \<and> (\<forall>i. i \<noteq> 1 \<longrightarrow> V2 i = (V1(0 := b0)) i))"
    by (rule vs_alloc_root[OF _ _ _ bm]) (use in_ids ibm z in auto)
  have root: "vs [] V2 (modify_inode_at bd (1 + ibm) 0 (\<lambda>di. ret ((), DiskInode_initialize Directory di))) (\<lambda>_. formatted efs sb ?n)"
    if "\<forall>k<Bitmap_maximum (inode_bitmap efs). bitmap_bit V2 (inode_bitmap efs) k \<longleftrightarrow> k = 0"
      and "\<forall>i. i \<noteq> 1 \<longrightarrow> V2 i = (V1(0 := b0)) i" for V2
    by (rule vs_init_root; unfold un; (rule formatted_intro[OF bm root_pos[OF small, of total_blks, folded efs] dec _ _ that z ibm(1)])?)
      (use that z ibm in_ids in auto)
  show ?thesis
    by (rule vs_andthen[OF vs_mono[OF zero]], clarify, rule vs_andthen[OF vs_mono[OF super]], clarify,
        rule vs_andthen[OF vs_mono[OF alloc]], clarify, rule vs_andthen, rule vs_assert_that[OF refl], rule root) auto
qed

lemma create_ok:
  assumes ids: "{..<unat total_blks} \<subseteq> ids" and ibm: "0 < unat ibm" "1 + unat ibm < unat total_blks"
    and lay: "create_layout total_blks ibm = (efs, sb)" and inv: "cache_inv disk ids dinv s" and free: "held s = []"
  shows "wp (EasyFileSystem_create bd total_blks ibm) (\<lambda>r s'. r = efs \<and> cache_inv disk ids dinv s' \<and> held s' = [] \<and>
    disk_view disk s' = disk (device s') \<and> formatted efs sb (unat total_blks) (disk (device s'))) s"
proof -
  have pos: "get_disk_inode_pos efs 0 = (1 + ibm, 0)"
    using create_layout_sel(2)[of total_blks ibm] by (simp add: get_disk_inode_pos_def lay)
  have sync: "wp (block_cache_sync_all bd) (\<lambda>_ s''. cache_inv disk ids dinv s'' \<and> held s'' = [] \<and>
      disk_view disk s'' = disk (device s'') \<and> formatted efs sb (unat total_blks) (disk (device s''))) s'"
    if "cache_inv disk ids dinv s'" "held s' = []" "formatted efs sb (unat total_blks) (disk_view disk s')" for s' :: "('d, 'a) cache_state_scheme"
    by (rule wp_mono[OF sync_all_ok[OF that(1,2)]]) (use that(3) in simp)
  note body = vs_create_body[OF ids ibm lay, unfolded vspec_def, rule_format, OF inv free refl]
  have andthen: "wp (andthen m f) Q = wp m (\<lambda>x. wp (f x) Q)" for m :: "(('d, 'a) cache_state_scheme, 'x) prog" and f :: "'x \<Rightarrow> (('d, 'a) cache_state_scheme, 'y) prog" and Q
    by (rule ext) simp
  have ret: "wp (ret x) Q = Q x" for x :: 'x and Q :: "'x \<Rightarrow> ('d, 'a) cache_state_scheme \<Rightarrow> bool"
    by (rule ext) simp
  have "wp (andthen (for_each [0..<unat total_blks] (zero_block bd)) (\<lambda>_.
     andthen (cache_modify bd 0 0 24 decode_super_block encode_super_block (\<lambda>_. ret ((), sb))) (\<lambda>_.
     andthen (alloc_inode bd efs) (\<lambda>root. andthen (assert_that (root = 0)) (\<lambda>_.
     modify_inode_at bd (1 + ibm) 0 (\<lambda>di. ret ((), DiskInode_initialize Directory di)))))))
     (\<lambda>_. wp (block_cache_sync_all bd) (\<lambda>_ s'. cache_inv disk ids dinv s' \<and> held s' = [] \<and> disk_view disk s' = disk (device s') \<and>
       formatted efs sb (unat total_blks) (disk (device s')))) s"
    by (rule wp_mono[OF body]) (use sync in auto)
  then show ?thesis
    unfolding EasyFileSystem_create_def lay prod.case pos andthen ret by simp
qed

lemma vs_EasyFileSystem_open:
  assumes ids: "0 \<in> ids" and lay: "create_layout total_blks ibm = (efs, sb)" and fmt: "formatted efs sb n V" and Q: "Q efs V"
  shows "vs [] V (EasyFileSystem_open bd) Q"
proof -
  have dec: "decode_super_block (slice 0 24 (V 0)) = Inr sb" using fmt by (simp add: formatted_def)
  have "sb_magic sb = EFS_MAGIC" using create_layout_sel(3)[of total_blks ibm] by (simp add: lay)
  moreover have "efs = \<lparr>inode_bitmap = Bitmap_new 1 (unat (sb_inode_bitmap_blocks sb)),
      data_bitmap = Bitmap_new (unat (1 + (sb_inode_bitmap_blocks sb + sb_inode_area_blocks sb))) (unat (sb_data_bitmap_blocks sb)),
      inode_area_start_block = 1 + sb_inode_bitmap_blocks sb,
      data_area_start_block = 1 + (sb_inode_bitmap_blocks sb + sb_inode_area_blocks sb) + sb_data_bitmap_blocks sb\<rparr>"
    using lay by (auto simp: create_layout_def Let_def SuperBlock_initialize_def add.assoc)
  ultimately show ?thesis
    unfolding EasyFileSystem_open_def
    by (intro vs_cache_read[where t = sb, OF ids])
      (use Q in \<open>auto simp: dec Let_def BLOCK_SZ_def BLOCK_CACHE_SIZE_def SuperBlock_is_valid_def intro!: vs_andthen vs_assert_that vs_ret\<close>)
qed

lemma vs_ls_formatted:
  assumes ids: "in_block_id (root_inode efs) \<in> ids" and off: "in_block_offset (root_inode efs) = 0"
    and fmt: "formatted efs sb n V" and Q: "Q [] V"
  shows "vs [] V (Inode_ls bd (root_inode efs)) Q"
proof -
  have dec: "decode_disk_inode (slice 0 128 (V (in_block_id (root_inode efs)))) = Inr empty_dir"
    using fmt off by (simp add: formatted_def inode_at_def)
  show ?thesis
    unfolding Inode_ls_def read_disk_inode_def off
    by (intro vs_cache_read[where t = empty_dir, OF ids])
      (use Q in \<open>auto simp: dec BLOCK_SZ_def BLOCK_CACHE_SIZE_def DISK_INODE_SZ_def empty_dir_def intro!: vs_ret\<close>)
qed

end

text \<open>
  C38: formatting is durable and opening recovers it. On any device that keeps its contract and has the blocks,
  \<^verbatim>\<open>EasyFileSystem::create\<close> succeeds and leaves on the device itself a super block with the layout, an empty root
  directory, inode 0 as the only one in use and zeros elsewhere. A later start with an empty cache on this device reads
  the same file system with \<^verbatim>\<open>EasyFileSystem::open\<close>, and \<^verbatim>\<open>ls\<close> of its root directory lists nothing.
\<close>

theorem create_open_round_trip:
  fixes s :: "'d cache_state"
  assumes "block_device bd disk ids dinv" and "cache_inv disk ids dinv s" and "held s = []"
    and "{..<unat total_blks} \<subseteq> ids" and "0 < unat ibm" and "1 + unat ibm < unat total_blks"
  shows "\<exists>efs sb s' r r'. create_layout total_blks ibm = (efs, sb) \<and> EasyFileSystem_create bd total_blks ibm s = Inr (efs, s') \<and>
    formatted efs sb (unat total_blks) (disk (device s')) \<and>
    EasyFileSystem_open bd \<lparr>device = device s', queue = [], held = []\<rparr> = Inr (efs, r) \<and>
    Inode_ls bd (root_inode efs) r = Inr ([], r')"
proof -
  obtain efs sb where lay: "create_layout total_blks ibm = (efs, sb)" by (cases "create_layout total_blks ibm")
  obtain s' where s': "EasyFileSystem_create bd total_blks ibm s = Inr (efs, s')" "cache_inv disk ids dinv s'"
      "formatted efs sb (unat total_blks) (disk (device s'))"
    using block_device.create_ok[OF assms(1,4-6) lay assms(2,3)] by (auto simp: wp_runs)
  let ?b = "\<lparr>device = device s', queue = [], held = []\<rparr> :: 'd cache_state"
  have b: "cache_inv disk ids dinv ?b" "disk_view disk ?b = disk (device s')" "held ?b = []"
    using s'(2) by (auto simp: cache_inv_def disk_view_def)
  have small: "1 + unat ibm < 2 ^ 32" using assms(6) unsigned_less[of total_blks, where ?'a = nat] by simp
  have root: "root_inode efs = \<lparr>in_block_id = 1 + unat ibm, in_block_offset = 0\<rparr>"
    using root_pos[OF small, of total_blks] by (simp add: lay)
  have ids: "0 \<in> ids" "in_block_id (root_inode efs) \<in> ids" using assms(4-6) by (auto simp: root)
  have op: "vspec disk ids dinv (held ?b) (disk_view disk ?b) (EasyFileSystem_open bd) (\<lambda>e V. e = efs \<and> V = disk (device s'))"
    unfolding b(2,3) by (rule block_device.vs_EasyFileSystem_open[OF assms(1) ids(1) lay s'(3)]) simp
  obtain r where r: "EasyFileSystem_open bd ?b = Inr (efs, r)" "cache_inv disk ids dinv r" "held r = []"
      "disk_view disk r = disk (device s')"
    using vspec_run[OF op b(1)] by auto
  have "vspec disk ids dinv (held r) (disk_view disk r) (Inode_ls bd (root_inode efs)) (\<lambda>x _. x = [])"
    unfolding r(3,4) by (rule block_device.vs_ls_formatted[OF assms(1) ids(2) _ s'(3)]) (simp_all add: root)
  from vspec_run[OF this r(2)] have "\<exists>r'. Inode_ls bd (root_inode efs) r = Inr ([], r')" by auto
  then show ?thesis using lay s'(1,3) r(1) by blast
qed

theorem create_open_round_trip_witness:
  "block_device BlockFile file_block {..<32} (\<lambda>f. length f = 32 * 512) \<and>
   cache_inv file_block {..<32} (\<lambda>f. length f = 32 * 512) (fresh_image 32) \<and>
   (\<exists>efs s' r r'. EasyFileSystem_create BlockFile 32 1 (fresh_image 32) = Inr (efs, s') \<and>
      EasyFileSystem_open BlockFile \<lparr>device = device s', queue = [], held = []\<rparr> = Inr (efs, r) \<and>
      Inode_ls BlockFile (root_inode efs) r = Inr ([], r'))"
  using create_open_round_trip[OF bf.block_device_axioms fresh_image_inv, of 32 32 1]
    bf.block_device_axioms[of 32] fresh_image_inv[of 32]
  by (auto simp: fresh_image_def)

end
