(* ===== verification/Inode_Growth.thy ===== *)
theory Inode_Growth
  imports File_Data "HOL-Library.Multiset"
begin

text \<open>
  \<^verbatim>\<open>DiskInode::increase_size\<close>. \<open>ext\<close> says that a file of \<open>k\<close> blocks became a file of \<open>m\<close> blocks by
  taking blocks from the front of a list: the old data and index blocks stay where they are, the new
  ones are exactly the blocks taken, and only index blocks are written. It is transitive, so each
  phase of the code (direct blocks, single indirect, double indirect) is one lemma.
\<close>

section \<open>Extension of a file\<close>

definition ext ::
    "(nat \<Rightarrow> byte list) \<Rightarrow> DiskInode \<Rightarrow> nat \<Rightarrow> u32 list \<Rightarrow> (nat \<Rightarrow> byte list) \<Rightarrow> DiskInode \<Rightarrow> nat \<Rightarrow> u32 list \<Rightarrow> bool" where
  "ext V di k nb V' di' m nb' \<longleftrightarrow> k \<le> m \<and> length (di_direct di') = 28 \<and>
     (\<exists>used ts ds. nb = used @ nb' \<and> table_ids V' di' m = table_ids V di k @ ts \<and>
        data_ids V' di' m = data_ids V di k @ ds \<and> mset (map unat used) = mset (ts @ ds)) \<and>
     (\<forall>i. i \<notin> set (table_ids V' di' m) \<longrightarrow> V' i = V i)"

lemma ext_refl: "length (di_direct di) = 28 \<Longrightarrow> ext V di k nb V di k nb"
  by (simp add: ext_def)

lemma ext_trans:
  assumes "ext V di k nb V1 di1 j nb1" and "ext V1 di1 j nb1 V2 di2 m nb2"
  shows "ext V di k nb V2 di2 m nb2"
proof -
  obtain u1 t1 d1 where 1: "nb = u1 @ nb1" "table_ids V1 di1 j = table_ids V di k @ t1"
    "data_ids V1 di1 j = data_ids V di k @ d1" "mset (map unat u1) = mset (t1 @ d1)"
    using assms(1) by (auto simp: ext_def)
  obtain u2 t2 d2 where 2: "nb1 = u2 @ nb2" "table_ids V2 di2 m = table_ids V1 di1 j @ t2"
    "data_ids V2 di2 m = data_ids V1 di1 j @ d2" "mset (map unat u2) = mset (t2 @ d2)"
    using assms(2) by (auto simp: ext_def)
  have "\<exists>used ts ds. nb = used @ nb2 \<and> table_ids V2 di2 m = table_ids V di k @ ts \<and>
      data_ids V2 di2 m = data_ids V di k @ ds \<and> mset (map unat used) = mset (ts @ ds)"
    using 1 2 by (intro exI[of _ "u1 @ u2"] exI[of _ "t1 @ t2"] exI[of _ "d1 @ d2"]) simp
  then show ?thesis
    using assms 2(2) by (auto simp: ext_def)
qed

text \<open>Fresh blocks: distinct, usable, and not part of the file.\<close>

definition fresh_for :: "nat set \<Rightarrow> (nat \<Rightarrow> byte list) \<Rightarrow> DiskInode \<Rightarrow> nat \<Rightarrow> u32 list \<Rightarrow> bool" where
  "fresh_for A V di k nb \<longleftrightarrow> distinct (map unat nb) \<and> set (map unat nb) \<subseteq> A \<and>
     set (map unat nb) \<inter> set (table_ids V di k @ data_ids V di k) = {}"

lemma ext_ok:
  assumes ok: "inode_ok A V di k" and fr: "fresh_for A V di k nb" and e: "ext V di k nb V' di' m nb'"
    and m: "m \<le> 16540"
  shows "inode_ok A V' di' m" and "fresh_for A V' di' m nb'"
proof -
  obtain u ts ds where u: "nb = u @ nb'" "table_ids V' di' m = table_ids V di k @ ts"
    "data_ids V' di' m = data_ids V di k @ ds" "mset (map unat u) = mset (ts @ ds)"
    using e by (auto simp: ext_def)
  have dist: "distinct (ts @ ds)" and set: "set (ts @ ds) = set (map unat u)"
    using fr u(1) mset_eq_imp_distinct_iff[OF u(4)] mset_eq_setD[OF u(4)]
    by (auto simp: fresh_for_def)
  have dis: "set (ts @ ds) \<inter> set (table_ids V di k @ data_ids V di k) = {}" "set (ts @ ds) \<subseteq> A"
    "set (ts @ ds) \<inter> set (map unat nb') = {}"
    using fr unfolding set u(1) fresh_for_def by auto
  show "inode_ok A V' di' m"
    using ok e m dist dis unfolding inode_ok_def ext_def u(2,3) by auto
  show "fresh_for A V' di' m nb'"
    using fr dis(3) unfolding fresh_for_def u by auto
qed

lemma data_ids_split: "k \<le> m \<Longrightarrow> data_ids V di m = data_ids V di k @ map (\<lambda>j. unat (block_of V di j)) [k..<m]"
  unfolding data_ids_def by (metis le_Suc_ex map_append upt_add_eq_append zero_le)

lemma table_entry_upd:
  assumes "length ws = 128"
  shows "table_entry (V(unat b := bytes_of_words 4 ws)) c i = (if unat c = unat b then ws ! i else table_entry V c i)"
  using assms by (simp add: table_entry_def)

section \<open>The phases\<close>

lemma ext_direct:
  assumes "k + length bs \<le> 28" and "length (di_direct di) = 28"
  shows "ext V di k (bs @ nb) V (di\<lparr>di_direct := overwrite k bs (di_direct di)\<rparr>) (k + length bs) nb"
proof -
  let ?di = "di\<lparr>di_direct := overwrite k bs (di_direct di)\<rparr>"
  have old: "data_ids V ?di k = data_ids V di k"
    using assms by (auto simp: data_ids_def block_of_def nth_overwrite)
  have new: "map (\<lambda>j. unat (block_of V ?di j)) [k..<k + length bs] = map unat bs"
    using assms by (intro nth_equalityI) (auto simp: block_of_def nth_overwrite)
  have "data_ids V ?di (k + length bs) = data_ids V di k @ map unat bs"
    using data_ids_split[of k "k + length bs" V ?di] old new by simp
  moreover have "table_ids V ?di (k + length bs) = []" "table_ids V di k = []"
    using assms by (simp_all add: table_ids_def)
  ultimately show ?thesis
    using assms by (auto simp: ext_def intro!: exI[of _ bs])
qed

text \<open>Blocks 28 to 155: \<open>ind\<close> is the block of ids, new when the file had exactly 28 blocks.\<close>

lemma ext_indirect1:
  assumes k: "28 \<le> k" "28 < k + length bs" "k + length bs \<le> 156" and len: "length (di_direct di) = 28"
    and ind: "if k = 28 then pre = [ind] else pre = [] \<and> ind = di_indirect1 di"
    and fresh: "unat ind \<notin> set (data_ids V di k)"
  shows "ext V di k (pre @ bs @ nb)
    (V(unat ind := bytes_of_words 4 (overwrite (k - 28) bs (words_of_bytes 4 128 (V (unat ind))))))
    (di\<lparr>di_indirect1 := ind\<rparr>) (k + length bs) nb"
proof -
  let ?ws = "overwrite (k - 28) bs (words_of_bytes 4 128 (V (unat ind)))"
  let ?V = "V(unat ind := bytes_of_words 4 ?ws)" and ?di = "di\<lparr>di_indirect1 := ind\<rparr>"
  have ws: "length ?ws = 128" using k by simp
  have old: "data_ids ?V ?di k = data_ids V di k"
  proof -
    have "block_of ?V ?di j = block_of V di j" if "j < k" for j
      using that k ws ind
      by (auto simp: block_of_def table_entry_upd nth_overwrite split: if_splits) (simp add: table_entry_def)
    then show ?thesis by (simp add: data_ids_def)
  qed
  have new: "map (\<lambda>j. unat (block_of ?V ?di j)) [k..<k + length bs] = map unat bs"
    using k ws by (intro nth_equalityI) (auto simp: block_of_def table_entry_upd nth_overwrite)
  have data: "data_ids ?V ?di (k + length bs) = data_ids V di k @ map unat bs"
    using data_ids_split[of k "k + length bs" ?V ?di] old new by simp
  have tab: "table_ids ?V ?di (k + length bs) = [unat ind]" "table_ids V di k = (if k = 28 then [] else [unat ind])"
    using k ind by (auto simp: table_ids_def)
  show ?thesis
    unfolding ext_def data tab using len k ind
    by (auto intro!: exI[of _ "pre @ bs"])
qed

text \<open>
  One round of the double-indirect loop, which adds block \<open>k\<close>. \<open>t\<close> is the index block it goes to, a new
  one when the previous is full.
\<close>

definition ind2_new :: "DiskInode \<Rightarrow> nat \<Rightarrow> u32 list" where
  "ind2_new di k = (if k = 156 then [di_indirect2 di] else [])"

lemma ext_indirect2_step:
  fixes V :: "nat \<Rightarrow> byte list"
  assumes k: "k = 156 + 128 * a + b" "b < 128" "a < 128" and len: "length (di_direct di) = 28"
    and t: "if b = 0 then pre = [t] else pre = [] \<and> t = table_entry V (di_indirect2 di) a"
    and dist: "distinct (map unat ([di_indirect1 di, di_indirect2 di] @
                 map (table_entry V (di_indirect2 di)) [0..<a] @ [t]))"
    and arr: "length arr = 128" "V (unat (di_indirect2 di)) = bytes_of_words 4 arr"
    and arr': "arr' = (if b = 0 then arr[a := t] else arr)"
  shows "ext V di k (ind2_new di k @ pre @ x # nb)
    (V(unat (di_indirect2 di) := bytes_of_words 4 arr',
       unat t := bytes_of_words 4 ((words_of_bytes 4 128 (V (unat t)))[b := x]))) di (Suc k) nb"
    (is "ext V di k _ ?V di _ _")
proof -
  let ?i2 = "di_indirect2 di"
  have ne: "unat t \<noteq> unat ?i2" "unat t \<noteq> unat (di_indirect1 di)" "unat (di_indirect1 di) \<noteq> unat ?i2"
    using dist by auto
  have "unat t \<notin> (\<lambda>j. unat (table_entry V ?i2 j)) ` {0..<a}" "unat ?i2 \<notin> (\<lambda>j. unat (table_entry V ?i2 j)) ` {0..<a}"
    using dist by auto
  then have tj: "unat (table_entry V ?i2 j) \<noteq> unat t" "unat (table_entry V ?i2 j) \<noteq> unat ?i2" if "j < a" for j
    using that by (metis imageI atLeastLessThan_iff zero_le)+
  have e2: "table_entry ?V ?i2 j = arr' ! j" for j
    using ne arr arr' by (simp add: table_entry_def)
  have e0: "table_entry V ?i2 j = arr ! j" for j
    using arr by (simp add: table_entry_def)
  have et: "table_entry ?V t j = (words_of_bytes 4 128 (V (unat t)))[b := x] ! j" for j
    by (simp add: table_entry_def)
  have other: "table_entry ?V c j = table_entry V c j" if "unat c \<noteq> unat t" "unat c \<noteq> unat ?i2" for c j
    using that by (simp add: table_entry_def)
  have arr'_lt: "arr' ! j = arr ! j" if "j < a" for j using that arr' by simp
  have arr'_a: "arr' ! a = t"
    using t arr' k(3) arr e0 by (auto split: if_splits)
  have block: "block_of ?V di j = block_of V di j" if "j < k" for j
  proof -
    define q r where "q = (j - 156) div 128" and "r = (j - 156) mod 128"
    have r: "r < 128" and jr: "156 \<le> j \<Longrightarrow> j = 156 + 128 * q + r" by (simp_all add: q_def r_def)
    consider "j < 28" | "28 \<le> j" "j < 156" | "156 \<le> j" "q < a" | "156 \<le> j" "q = a" "r < b"
    proof (cases "j < 156")
      case True then show thesis using that(1,2) by (cases "j < 28") auto
    next
      case False
      then have "128 * q + r < 128 * a + b" using jr \<open>j < k\<close> k(1) by simp
      then have "q < a \<or> q = a \<and> r < b" using r k(2) by linarith
      then show thesis using that(3,4) False by auto
    qed
    then show ?thesis
    proof cases
      case 3
      then show ?thesis
        using e2 e0 arr'_lt[OF 3(2)] other[OF tj[OF 3(2)]] by (simp add: block_of_def q_def r_def)
    next
      case 4
      then have "t = arr ! a" using t e0 by (auto split: if_splits)
      then show ?thesis
        using 4 e2 e0 arr'_a et k(2) by (simp add: block_of_def table_entry_def q_def r_def)
    qed (use ne other in \<open>auto simp: block_of_def\<close>)
  qed
  have old: "data_ids ?V di k = data_ids V di k" using block by (simp add: data_ids_def)
  have "block_of ?V di k = x"
    using k e2 arr'_a et by (simp add: block_of_def)
  then have data: "data_ids ?V di (Suc k) = data_ids V di k @ [unat x]"
    using data_ids_split[of k "Suc k" ?V di] old by simp
  have div: "(Suc k - 156 + 127) div 128 = Suc a" "(k - 156 + 127) div 128 = (if b = 0 then a else Suc a)"
    using k by auto
  have tab: "table_ids ?V di (Suc k) = [unat (di_indirect1 di), unat ?i2] @ map (\<lambda>j. unat (arr ! j)) [0..<a] @ [unat t]"
    unfolding table_ids_def div using k(1) arr'_a arr'_lt e2 by simp
  have tab0: "table_ids V di k = (if k = 156 then [unat (di_indirect1 di)] else [unat (di_indirect1 di), unat ?i2]
      @ map (\<lambda>j. unat (arr ! j)) [0..<a] @ (if b = 0 then [] else [unat t]))"
    unfolding table_ids_def div using k t e0 by (auto split: if_splits)
  show ?thesis
    unfolding ext_def data tab tab0 using len k t
    by (auto simp: ind2_new_def split: if_splits)
qed

section \<open>The programs\<close>

lemma overwrite_Cons: "k < length xs \<Longrightarrow> overwrite k (b # bs) xs = overwrite (Suc k) bs (xs[k := b])"
  if "Suc k + length bs \<le> length xs"
  using that by (intro nth_equalityI) (auto simp: nth_overwrite nth_list_update nth_Cons')

lemma overwrite_Nil: "overwrite k [] xs = xs"
  by (simp add: overwrite_def)

text \<open>The two fill loops write the next blocks in order.\<close>

lemma fill_blocks_run:
  assumes "current + length bs \<le> length array"
  shows "fill_blocks current (current + length bs) array (bs @ nb) s =
    Inr ((current + length bs, overwrite current bs array, nb), s)"
  using assms
proof (induction bs arbitrary: current array)
  case Nil
  then show ?case by (cases nb) (simp_all add: overwrite_Nil ret_def)
next
  case (Cons b bs)
  from Cons.IH[of "Suc current" "array[current := b]"] Cons.prems show ?case
    by (simp add: overwrite_Cons set_index_def andthen_def ret_def)
qed

lemma blocks_for_Suc:
  assumes "k = 156 + 128 * a + b" "b < 128"
  shows "blocks_for (Suc k) = blocks_for k + length (ind2_new di k) + (if b = 0 then 1 else 0) + 1"
proof -
  have "(Suc k - 156 + 127) div 128 = Suc a" "(k - 156 + 127) div 128 = (if b = 0 then a else Suc a)"
    using assms by auto
  then show ?thesis
    using assms unfolding blocks_for_def ind2_new_def by (auto split: if_splits)
qed

lemma blocks_for_mono: "k \<le> m \<Longrightarrow> blocks_for k \<le> blocks_for m"
  unfolding blocks_for_def using div_le_mono[of "k - 156 + 127" "m - 156 + 127" 128] by auto

lemma blocks_for_diff: "k \<le> m \<Longrightarrow> m - k \<le> blocks_for m - blocks_for k"
  unfolding blocks_for_def using div_le_mono[of "k - 156 + 127" "m - 156 + 127" 128] by auto

lemma ind2_round:
  assumes k: "k = 156 + 128 * a + b" "b < 128" and ok: "inode_ok A W di k"
    and fr: "fresh_for A W di k (ind2_new di k @ nb)" and cnt: "length nb \<ge> (if b = 0 then 2 else 1)"
  obtains pre t x nb' where "nb = pre @ x # nb'"
    and "if b = 0 then pre = [t] else pre = [] \<and> t = table_entry W (di_indirect2 di) a"
    and "distinct (map unat ([di_indirect1 di, di_indirect2 di] @ map (table_entry W (di_indirect2 di)) [0..<a] @ [t]))"
    and "unat t \<in> A" and "unat t \<noteq> unat (di_indirect2 di)"
proof (cases "b = 0")
  case True
  then obtain t x nb' where nb: "nb = t # x # nb'"
    using cnt by (cases nb; cases "tl nb") auto
  have "distinct (map unat ([di_indirect1 di, di_indirect2 di] @ map (table_entry W (di_indirect2 di)) [0..<a] @ [t]))"
    using ok fr True k by (auto simp: nb inode_ok_def fresh_for_def ind2_new_def table_ids_def comp_def split: if_splits)
  moreover have "unat t \<in> A" using fr by (simp add: nb fresh_for_def)
  ultimately show thesis
    using that[of "[t]" x nb' t] True nb by auto
next
  case False
  then obtain x nb' where nb: "nb = x # nb'" using cnt by (cases nb) auto
  let ?t = "table_entry W (di_indirect2 di) a"
  have "(k - 156 + 127) div 128 = Suc a" using k False by auto
  then have t: "table_ids W di k = map unat ([di_indirect1 di, di_indirect2 di] @ map (table_entry W (di_indirect2 di)) [0..<a] @ [?t])"
    using k False by (simp add: table_ids_def)
  have "distinct (table_ids W di k)" "set (table_ids W di k) \<subseteq> A" using ok by (auto simp: inode_ok_def)
  then show thesis
    using that[of "[]" x nb' ?t] False nb unfolding t by auto
qed

lemma ext_length:
  assumes "ext V di k nb V' di' m nb'"
  shows "length nb + blocks_for k = length nb' + blocks_for m"
proof -
  obtain used ts ds where e: "nb = used @ nb'" "table_ids V' di' m = table_ids V di k @ ts"
    "data_ids V' di' m = data_ids V di k @ ds" "mset (map unat used) = mset (ts @ ds)" "k \<le> m"
    using assms by (auto simp: ext_def)
  have "length used = length ts + length ds" using arg_cong[OF e(4), of size] by simp
  moreover have "length ds = m - k" using arg_cong[OF e(3), of length] by (simp add: data_ids_def)
  moreover have "length (table_ids V' di' m) + m = blocks_for m" "length (table_ids V di k) + k = blocks_for k"
    by (rule length_table_ids)+
  ultimately show ?thesis using e(1,2,5) by simp
qed

lemma ext_remaining:
  assumes "ext V di k nb V' di' m nb'" and "length nb = blocks_for n - blocks_for k" and "k \<le> n"
  shows "length nb' = blocks_for n - blocks_for m"
  using ext_length[OF assms(1)] assms(2) blocks_for_mono[OF assms(3)] by linarith

lemma ids_size_irrelevant [simp]:
  "table_ids V (di\<lparr>di_size := x\<rparr>) n = table_ids V di n" "data_ids V (di\<lparr>di_size := x\<rparr>) n = data_ids V di n"
  by (simp_all add: table_ids_def data_ids_def block_of_def)

lemma ext_size [simp]: "ext V di k nb V' (di'\<lparr>di_size := x\<rparr>) m nb' = ext V di k nb V' di' m nb'"
  by (simp add: ext_def)

lemma fill_blocks_run_max:
  assumes "limit \<le> length array" and "limit - current \<le> length nb"
  shows "fill_blocks current limit array nb s =
    Inr ((max current limit, overwrite current (take (limit - current) nb) array, drop (limit - current) nb), s)"
proof (cases "current < limit")
  case True
  then show ?thesis
    using fill_blocks_run[of current "take (limit - current) nb" array "drop (limit - current) nb" s] assms by (simp add: max_def)
next
  case False
  then show ?thesis by (cases nb) (auto simp: overwrite_Nil ret_def max_def)
qed

lemma ext_phase1:
  assumes "length (di_direct di) = 28" and "min n 28 - k \<le> length nb"
  shows "ext V di k nb V (di\<lparr>di_direct := overwrite k (take (min n 28 - k) nb) (di_direct di)\<rparr>)
    (max k (min n 28)) (drop (min n 28 - k) nb)"
proof (cases "k < min n 28")
  case True
  then show ?thesis
    using ext_direct[of k "take (min n 28 - k) nb" di V "drop (min n 28 - k) nb"] assms by (simp add: max_def)
next
  case False
  then have "max k (min n 28) = k" "min n 28 - k = 0" by auto
  then show ?thesis using assms by (simp add: overwrite_Nil ext_refl)
qed

lemma ext_phase2:
  assumes k: "28 \<le> k" "28 < n" "k \<le> n" and ok: "inode_ok A V di k" and fr: "fresh_for A V di k nb"
    and cnt: "blocks_for (max k (min n 156)) - blocks_for k \<le> length nb"
    and ind: "if k = 28 then nb = ind # nb2 else nb2 = nb \<and> ind = di_indirect1 di"
    and sized: "length (V (unat ind)) = 512"
  defines "c \<equiv> min (n - 28) 128 - (k - 28)"
  shows "c \<le> length nb2"
    and "ext V di k nb (V(unat ind := bytes_of_words 4 (overwrite (k - 28) (take c nb2) (words_of_bytes 4 128 (V (unat ind))))))
      (di\<lparr>di_indirect1 := ind\<rparr>) (max k (min n 156)) (drop c nb2)"
proof -
  have bf: "k < 156 \<Longrightarrow> blocks_for (min n 156) - blocks_for k = min n 156 - k + (if k = 28 then 1 else 0)"
    using k by (auto simp: blocks_for_def)
  show c: "c \<le> length nb2"
  proof (cases "k < 156")
    case True
    then show ?thesis using cnt ind bf k by (auto simp: c_def max_def split: if_splits)
  qed (use k in \<open>simp add: c_def\<close>)
  show "ext V di k nb (V(unat ind := bytes_of_words 4 (overwrite (k - 28) (take c nb2) (words_of_bytes 4 128 (V (unat ind))))))
      (di\<lparr>di_indirect1 := ind\<rparr>) (max k (min n 156)) (drop c nb2)"
  proof (cases "k < 156")
    case True
    have kc: "k + length (take c nb2) = max k (min n 156)" using True k c by (auto simp: c_def)
    have "unat ind \<notin> set (data_ids V di k)"
      using ok fr ind k by (auto simp: inode_ok_def fresh_for_def table_ids_def split: if_splits)
    then show ?thesis
      using ext_indirect1[of k "take c nb2" di "if k = 28 then [ind] else []" ind V "drop c nb2"] True k ind ok kc
      by (auto simp: inode_ok_def split: if_splits)
  next
    case False
    then have "c = 0" "max k (min n 156) = k" "ind = di_indirect1 di" "nb2 = nb" using k ind by (auto simp: c_def split: if_splits)
    moreover have "bytes_of_words 4 (words_of_bytes 4 128 (V (unat ind)) :: u32 list) = V (unat ind)"
      using sized by (simp add: bytes_of_words_of_bytes)
    ultimately show ?thesis using ok by (simp add: overwrite_Nil ext_refl inode_ok_def)
  qed
qed

end
