(* ===== verification/Inode_Increase.thy ===== *)
theory Inode_Increase
  imports Inode_Growth
begin

text \<open>
  \<^verbatim>\<open>DiskInode::increase_size\<close> as a program on the disk behind the block cache: its phases extend the file
  in the sense of \<open>ext\<close>.
\<close>

context block_device
begin

lemma vs_next_block: "Q (b, nb) V \<Longrightarrow> vs H V (next_block (b # nb)) Q"
  by (simp add: next_block_def vs_ret)

lemma vs_set_index: "i < length xs \<Longrightarrow> Q (xs[i := x]) V \<Longrightarrow> vs H V (set_index xs i x) Q"
  by (simp add: set_index_def vs_ret)

lemma vs_modify_indirect:
  assumes i: "unat b \<in> ids" "unat b \<notin> set H" "length H < BLOCK_CACHE_SIZE"
    and f: "vs (unat b # H) V (f (words_of_bytes 4 128 (V (unat b))))
      (\<lambda>(r, ws) V'. length ws = 128 \<and> Q r (V'(unat b := bytes_of_words 4 ws)))"
  shows "vs H V (cache_modify bd (unat b) 0 BLOCK_SZ decode_indirect encode_indirect f) Q"
proof (rule vs_sized)
  assume "\<And>i. i \<in> ids \<Longrightarrow> length (V i) = BLOCK_SZ"
  then have sl: "slice 0 BLOCK_SZ (V (unat b)) = V (unat b)" using i(1) by (simp add: slice_def)
  have ov: "overwrite 0 (bytes_of_words 4 ws) xs = bytes_of_words 4 ws" "length (bytes_of_words 4 ws) = BLOCK_SZ"
    if "length ws = 128" "length xs = BLOCK_SZ" for ws :: "u32 list" and xs :: "byte list"
    using that by (simp_all add: overwrite_def BLOCK_SZ_def)
  show ?thesis
    by (rule vs_cache_modify[OF i, where t = "words_of_bytes 4 128 (V (unat b))"])
      (auto simp: decode_indirect_def encode_indirect_def sl[unfolded BLOCK_SZ_def] ov[unfolded BLOCK_SZ_def] BLOCK_SZ_def
        intro!: vs_mono[OF f])
qed

lemma vs_fill_indirect2:
  assumes k: "k = 156 + 128 * a + b" "b < 128" and m: "m = 156 + 128 * a1 + b1" "b1 < 128" "k \<le> m" "m \<le> 16540"
    and km: "k = 156 \<Longrightarrow> k < m" and arr: "length arr = 128"
    and W: "W = V(unat (di_indirect2 di) := bytes_of_words 4 arr)"
    and ok: "inode_ok (ids - set H) W di k" and fr: "fresh_for (ids - set H) W di k (ind2_new di k @ nb)"
    and cnt: "length (ind2_new di k @ nb) = blocks_for m - blocks_for k"
    and fuel: "m - k < fuel" and H: "Suc (length H) < BLOCK_CACHE_SIZE"
  shows "vs (unat (di_indirect2 di) # H) V
      (fill_indirect2 fuel bd a b a1 b1 arr nb :: (('d, 'z) cache_state_scheme, u32 list) prog)
    (\<lambda>arr' V'. length arr' = 128 \<and>
       ext W di k (ind2_new di k @ nb) (V'(unat (di_indirect2 di) := bytes_of_words 4 arr')) di m [])"
  using k m(3) km arr W ok fr cnt fuel
proof (induction fuel arbitrary: k a b V arr W nb)
  case 0
  then show ?case by simp
next
  case (Suc fuel)
  note k = Suc.prems(1,2)
  let ?i2 = "di_indirect2 di"
  have len: "length (di_direct di) = 28" using Suc.prems(7) by (simp add: inode_ok_def)
  have less: "(a < a1 \<or> a = a1 \<and> b < b1) \<longleftrightarrow> k < m" using k m by auto
  show ?case
  proof (cases "k < m")
    case False
    then have "k = m" "ind2_new di k = []" "nb = []" using Suc.prems by (auto simp: ind2_new_def)
    then show ?thesis
      using False less Suc.prems(5,6) len by (auto intro!: vs_ret ext_refl)
  next
    case True
    then have enough: "length nb \<ge> (if b = 0 then 2 else 1)"
      using Suc.prems(9) blocks_for_Suc[OF k, of di] blocks_for_mono[of "Suc k" m] by (auto split: if_splits)
    obtain pre t x nb' where nb: "nb = pre @ x # nb'"
      and t: "if b = 0 then pre = [t] else pre = [] \<and> t = table_entry W ?i2 a"
      and dist: "distinct (map unat ([di_indirect1 di, ?i2] @ map (table_entry W ?i2) [0..<a] @ [t]))"
      and tA: "unat t \<in> ids - set H" "unat t \<noteq> unat ?i2"
      by (rule ind2_round[OF k Suc.prems(7,8) enough])
    have a: "a < 128" using True k(1) m(4) by linarith
    define arr' where "arr' = (if b = 0 then arr[a := t] else arr)"
    define V2 where "V2 = V(unat t := bytes_of_words 4 ((words_of_bytes 4 128 (V (unat t)))[b := x]))"
    define W2 where "W2 = V2(unat ?i2 := bytes_of_words 4 arr')"
    have step: "ext W di k (ind2_new di k @ pre @ x # nb') W2 di (Suc k) nb'"
      using ext_indirect2_step[OF k a len t dist Suc.prems(5) _ arr'_def, of x nb'] tA(2)
      unfolding W2_def V2_def Suc.prems(6) by (simp add: fun_upd_twist)
    note ok2 = ext_ok[OF Suc.prems(7) _ step, folded nb, OF Suc.prems(8)]
    have new: "ind2_new di (Suc k) = []" using k by (simp add: ind2_new_def)
    have cnt2: "length (ind2_new di (Suc k) @ nb') = blocks_for m - blocks_for (Suc k)"
      using Suc.prems(9) blocks_for_Suc[OF k, of di] t new by (auto simp: nb split: if_splits)
    have rest: "vs (unat ?i2 # H) V2 (fill_indirect2 fuel bd a' b' a1 b1 arr' nb' :: (('d, 'z) cache_state_scheme, u32 list) prog)
        (\<lambda>arr' V'. length arr' = 128 \<and> ext W di k (ind2_new di k @ nb) (V'(unat ?i2 := bytes_of_words 4 arr')) di m [])"
      if ab: "Suc k = 156 + 128 * a' + b'" "b' < 128" for a' b'
    proof (rule vs_mono[OF Suc.IH[OF ab _ _ _ W2_def _ _ cnt2]])
      show "Suc k \<le> m" "m - Suc k < fuel" "length arr' = 128" "Suc k = 156 \<Longrightarrow> Suc k < m"
        using True Suc.prems(5,10) k by (auto simp: arr'_def)
      show "inode_ok (ids - set H) W2 di (Suc k)" "fresh_for (ids - set H) W2 di (Suc k) (ind2_new di (Suc k) @ nb')"
        using ok2 True m(4) by (auto simp: new)
      show "length r = 128 \<and> ext W di k (ind2_new di k @ nb) (V'(unat ?i2 := bytes_of_words 4 r)) di m []"
        if "length r = 128 \<and> ext W2 di (Suc k) (ind2_new di (Suc k) @ nb') (V'(unat ?i2 := bytes_of_words 4 r)) di m []" for r V'
        using that ext_trans[OF step] unfolding new nb by simp
    qed
    have ia: "arr' ! a = t"
      using t Suc.prems(5) a by (auto simp: arr'_def table_entry_def Suc.prems(6))
    have take: "vs (unat ?i2 # H) V (if b = 0
          then andthen (next_block nb) (\<lambda>(b, rest). andthen (set_index arr a b) (\<lambda>indirect2'. ret (indirect2', rest)))
          else ret (arr, nb)) Q"
      if "Q (arr', x # nb') V" for Q
      using that t a Suc.prems(5) unfolding nb arr'_def
      by (auto intro!: vs_andthen vs_next_block vs_set_index vs_ret split: if_splits)
    show ?thesis
      unfolding fill_indirect2.simps less if_P[OF True]
    proof (rule vs_andthen, rule take, simp only: prod.case, rule vs_andthen, rule vs_index_at)
      show "a < length arr'" using a Suc.prems(5) by (simp add: arr'_def)
      show "vs (unat ?i2 # H) V (andthen (cache_modify bd (unat (arr' ! a)) 0 BLOCK_SZ decode_indirect encode_indirect
            (\<lambda>indirect1. andthen (next_block (x # nb')) (\<lambda>(y, rest). andthen (set_index indirect1 b y) (\<lambda>indirect1'. ret (rest, indirect1')))))
          (\<lambda>nb2. if b + 1 = INODE_INDIRECT1_COUNT then fill_indirect2 fuel bd (a + 1) 0 a1 b1 arr' nb2
            else fill_indirect2 fuel bd a (b + 1) a1 b1 arr' nb2 :: (('d, 'z) cache_state_scheme, u32 list) prog))
        (\<lambda>arr' V'. length arr' = 128 \<and> ext W di k (ind2_new di k @ nb) (V'(unat ?i2 := bytes_of_words 4 arr')) di m [])"
        unfolding ia
      proof (rule vs_andthen, rule vs_modify_indirect)
        show "unat t \<in> ids" "unat t \<notin> set (unat ?i2 # H)" "length (unat ?i2 # H) < BLOCK_CACHE_SIZE"
          using tA H by auto
        have "vs (unat ?i2 # H) V2 (if b + 1 = INODE_INDIRECT1_COUNT then fill_indirect2 fuel bd (a + 1) 0 a1 b1 arr' nb'
            else fill_indirect2 fuel bd a (b + 1) a1 b1 arr' nb' :: (('d, 'z) cache_state_scheme, u32 list) prog)
          (\<lambda>arr' V'. length arr' = 128 \<and> ext W di k (ind2_new di k @ nb) (V'(unat ?i2 := bytes_of_words 4 arr')) di m [])"
          using rest[of "a + 1" 0] rest[of a "b + 1"] k by (cases "b + 1 = 128") (simp_all add: layout_consts)
        then show "vs (unat t # unat ?i2 # H) V (andthen (next_block (x # nb')) (\<lambda>(y, rest).
              andthen (set_index (words_of_bytes 4 128 (V (unat t))) b y) (\<lambda>indirect1'. ret (rest, indirect1'))))
            (\<lambda>(r, ws) V'. length ws = 128 \<and> vs (unat ?i2 # H) (V'(unat t := bytes_of_words 4 ws))
              (if b + 1 = INODE_INDIRECT1_COUNT then fill_indirect2 fuel bd (a + 1) 0 a1 b1 arr' r
               else fill_indirect2 fuel bd a (b + 1) a1 b1 arr' r :: (('d, 'z) cache_state_scheme, u32 list) prog)
              (\<lambda>arr' V'. length arr' = 128 \<and> ext W di k (ind2_new di k @ nb) (V'(unat ?i2 := bytes_of_words 4 arr')) di m []))"
          unfolding V2_def
          by (intro vs_andthen vs_next_block) (simp, intro vs_andthen vs_set_index vs_ret, use k in simp_all)
      qed
    qed
  qed
qed

lemma vs_fill_blocks:
  assumes "limit \<le> length array" and "limit - current \<le> length nb"
    and "Q (max current limit, overwrite current (take (limit - current) nb) array, drop (limit - current) nb) V"
  shows "vs H V (fill_blocks current limit array nb) Q"
  using assms(3) by (simp add: vspec_def wp_def fill_blocks_run_max[OF assms(1,2)])

lemma vs_take_if:
  assumes "c \<Longrightarrow> nb \<noteq> []" and "Q (if c then (g (hd nb), tl nb) else (d, nb)) V"
  shows "vs H V (if c then andthen (next_block nb) (\<lambda>(b, rest). ret (g b, rest)) else ret (d, nb)) Q"
  using assms by (cases nb) (auto intro!: vs_andthen vs_next_block vs_ret)

lemma vs_phase3:
  assumes k: "156 \<le> k" "156 < n" "k \<le> n" "n \<le> 16540" and H: "Suc (length H) < BLOCK_CACHE_SIZE"
    and ok: "inode_ok (ids - set H) V di k" and fr: "fresh_for (ids - set H) V di k nb"
    and cnt: "length nb = blocks_for n - blocks_for k"
    and ind: "if k = 156 then nb = i2 # nb2 else nb2 = nb \<and> i2 = di_indirect2 di"
  shows "vs H V (cache_modify bd (unat i2) 0 BLOCK_SZ decode_indirect encode_indirect
      (\<lambda>indirect2. andthen (fill_indirect2 (Suc (Suc (length nb2))) bd ((k - 156) div 128) ((k - 156) mod 128)
          ((n - 156) div 128) ((n - 156) mod 128) indirect2 nb2)
        (\<lambda>indirect2'. ret ((), indirect2'))) :: (('d, 'z) cache_state_scheme, unit) prog)
    (\<lambda>_ V'. ext V di k nb V' (di\<lparr>di_indirect2 := i2\<rparr>) n [])"
proof -
  let ?di = "di\<lparr>di_indirect2 := i2\<rparr>"
  let ?arr = "words_of_bytes 4 128 (V (unat i2)) :: u32 list"
  have same: "table_ids V ?di k = table_ids V di k" "data_ids V ?di k = data_ids V di k" if "k = 156"
    using that by (auto simp: table_ids_def data_ids_def block_of_def)
  have di: "k \<noteq> 156 \<Longrightarrow> ?di = di" using ind by simp
  have ids: "table_ids V ?di k = table_ids V di k" "data_ids V ?di k = data_ids V di k"
    using same di by (cases "k = 156"; simp)+
  have nb: "nb = ind2_new ?di k @ nb2" using ind by (auto simp: ind2_new_def split: if_splits)
  have ext_ids: "ext V ?di k l V' d n [] = ext V di k l V' d n []" for l V' d
    unfolding ext_def ids by (rule refl)
  have i2: "unat i2 \<in> ids - set H"
    using ok fr ind k(1) by (auto simp: inode_ok_def fresh_for_def table_ids_def split: if_splits)
  show ?thesis
  proof (rule vs_sized, rule vs_modify_indirect)
    assume sz: "\<And>i. i \<in> ids \<Longrightarrow> length (V i) = BLOCK_SZ"
    have "bytes_of_words 4 ?arr = V (unat i2)"
      using i2 sz[of "unat i2"] by (simp add: bytes_of_words_of_bytes BLOCK_SZ_def)
    then have W: "V = V(unat (di_indirect2 ?di) := bytes_of_words 4 ?arr)" by simp
    have "n - k < Suc (Suc (length nb2))"
      using cnt ind blocks_for_diff[OF k(3)] by (auto split: if_splits)
    then have fill: "vs (unat i2 # H) V (fill_indirect2 (Suc (Suc (length nb2))) bd ((k - 156) div 128) ((k - 156) mod 128)
          ((n - 156) div 128) ((n - 156) mod 128) ?arr nb2 :: (('d, 'z) cache_state_scheme, u32 list) prog)
        (\<lambda>arr' V'. length arr' = 128 \<and> ext V ?di k (ind2_new ?di k @ nb2) (V'(unat i2 := bytes_of_words 4 arr')) ?di n [])"
      using k cnt ok fr H nb ids
      by (intro vs_fill_indirect2[where di = ?di, OF _ _ _ _ _ _ _ _ W, simplified])
        (auto simp: inode_ok_def fresh_for_def)
    have "vs (unat i2 # H) V (fill_indirect2 (Suc (Suc (length nb2))) bd ((k - 156) div 128) ((k - 156) mod 128)
          ((n - 156) div 128) ((n - 156) mod 128) ?arr nb2 :: (('d, 'z) cache_state_scheme, u32 list) prog)
        (\<lambda>ws V'. vs (unat i2 # H) V' (ret ((), ws) :: (('d, 'z) cache_state_scheme, unit \<times> u32 list) prog)
          (\<lambda>(r, ws) V'. length ws = 128 \<and> ext V di k nb (V'(unat i2 := bytes_of_words 4 ws)) ?di n []))"
      by (rule vs_mono[OF fill], rule vs_ret) (simp only: nb[symmetric] ext_ids prod.case)
    then show "vs (unat i2 # H) V (andthen (fill_indirect2 (Suc (Suc (length nb2))) bd ((k - 156) div 128) ((k - 156) mod 128)
          ((n - 156) div 128) ((n - 156) mod 128) ?arr nb2) (\<lambda>indirect2'. ret ((), indirect2'))
          :: (('d, 'z) cache_state_scheme, unit \<times> u32 list) prog)
        (\<lambda>(r, ws) V'. length ws = 128 \<and> ext V di k nb (V'(unat i2 := bytes_of_words 4 ws)) ?di n [])"
      by - (rule vs_andthen)
  qed (use i2 H in auto)
qed

lemma counts: "INODE_INDIRECT1_COUNT = 128" "INODE_DIRECT_COUNT = 28"
  by (simp_all add: layout_consts)

lemma vs_increase_indirect2:
  assumes k: "28 \<le> k" "min n 156 \<le> k" "k \<le> n" "n \<le> 16540" and H: "Suc (length H) < BLOCK_CACHE_SIZE"
    and ok: "inode_ok (ids - set H) V di k" and fr: "fresh_for (ids - set H) V di k nb"
    and cnt: "length nb = blocks_for n - blocks_for k"
  shows "vs H V (increase_indirect2 bd (k - 28) (n - 28) di nb :: (('d, 'z) cache_state_scheme, DiskInode) prog)
    (\<lambda>di' V'. di_size di' = di_size di \<and> di_type di' = di_type di \<and> ext V di k nb V' di' n [])"
proof (cases "156 < n")
  case False
  then have "k = n" "nb = []" using k cnt by auto
  then show ?thesis
    using False ok by (auto simp: increase_indirect2_def layout_consts inode_ok_def intro!: vs_ret ext_refl)
next
  case True
  define i2 nb2 where "i2 = (if k = 156 then hd nb else di_indirect2 di)" and "nb2 = (if k = 156 then tl nb else nb)"
  have k156: "156 \<le> k" using k(2) True by simp
  have ne: "nb \<noteq> []" if "k = 156" using cnt that True blocks_for_diff[OF k(3)] by auto
  have ind: "if k = 156 then nb = i2 # nb2 else nb2 = nb \<and> i2 = di_indirect2 di" using ne by (auto simp: i2_def nb2_def)
  have eq: "(k - 28 = 128) = (k = 156)" "128 < n - 28" "k - 28 - 128 = k - 156" "n - 28 - 128 = n - 156"
    using k156 True by auto
  have di: "(if k = 156 then (di\<lparr>di_indirect2 := hd nb\<rparr>, tl nb) else (di, nb)) = (di\<lparr>di_indirect2 := i2\<rparr>, nb2)"
    by (simp add: i2_def nb2_def)
  have sel: "di_indirect2 (di\<lparr>di_indirect2 := i2\<rparr>) = i2" by simp
  note phase3 = vs_phase3[OF k156 True k(3,4) H ok fr cnt ind]
  show ?thesis
    unfolding increase_indirect2_def counts if_P[OF eq(2)] eq(1)
  proof (rule vs_andthen, rule vs_take_if[OF ne], assumption, unfold di prod.case Let_def eq)
    show "vs H V (andthen (cache_modify bd (unat (di_indirect2 (di\<lparr>di_indirect2 := i2\<rparr>))) 0 BLOCK_SZ decode_indirect encode_indirect
          (\<lambda>indirect2. andthen (fill_indirect2 (Suc (Suc (length nb2))) bd ((k - 156) div 128) ((k - 156) mod 128)
              ((n - 156) div 128) ((n - 156) mod 128) indirect2 nb2) (\<lambda>indirect2'. ret ((), indirect2'))))
        (\<lambda>_. ret (di\<lparr>di_indirect2 := i2\<rparr>)) :: (('d, 'z) cache_state_scheme, DiskInode) prog)
      (\<lambda>di' V'. di_size di' = di_size di \<and> di_type di' = di_type di \<and> ext V di k nb V' di' n [])"
      by (rule vs_andthen, unfold sel, rule vs_mono[OF phase3]) (simp add: vs_ret)
  qed
qed

lemma vs_increase_indirect1:
  assumes k: "min n 28 \<le> k" "k \<le> n" "n \<le> 16540" and H: "Suc (length H) < BLOCK_CACHE_SIZE"
    and ok: "inode_ok (ids - set H) V di k" and fr: "fresh_for (ids - set H) V di k nb"
    and cnt: "length nb = blocks_for n - blocks_for k"
  shows "vs H V (increase_indirect1 bd k n di nb :: (('d, 'z) cache_state_scheme, DiskInode) prog)
    (\<lambda>di' V'. di_size di' = di_size di \<and> di_type di' = di_type di \<and> ext V di k nb V' di' n [])"
proof (cases "28 < n")
  case False
  then have "k = n" "nb = []" using k cnt by auto
  then show ?thesis
    using False ok by (auto simp: increase_indirect1_def layout_consts inode_ok_def intro!: vs_ret ext_refl)
next
  case True
  define ind nb2 where "ind = (if k = 28 then hd nb else di_indirect1 di)" and "nb2 = (if k = 28 then tl nb else nb)"
  let ?di = "di\<lparr>di_indirect1 := ind\<rparr>" and ?c = "min (n - 28) 128 - (k - 28)" and ?k = "max k (min n 156)"
  have k28: "28 \<le> k" using k(1) True by simp
  have ne: "nb \<noteq> []" if "k = 28" using cnt that True blocks_for_diff[OF k(2)] by auto
  have ind: "if k = 28 then nb = ind # nb2 else nb2 = nb \<and> ind = di_indirect1 di" using ne by (auto simp: ind_def nb2_def)
  have di: "(if k = 28 then (di\<lparr>di_indirect1 := hd nb\<rparr>, tl nb) else (di, nb)) = (?di, nb2)"
    by (simp add: ind_def nb2_def)
  have sel: "di_indirect1 ?di = ind" by simp
  have A: "unat ind \<in> ids - set H"
    using ok fr ind k28 by (auto simp: inode_ok_def fresh_for_def table_ids_def split: if_splits)
  let ?V = "V(unat ind := bytes_of_words 4 (overwrite (k - 28) (take ?c nb2) (words_of_bytes 4 128 (V (unat ind)))))"
  have mono: "blocks_for ?k - blocks_for k \<le> length nb" using cnt blocks_for_mono[of ?k n] k(2) by simp
  show ?thesis
  proof (rule vs_sized)
    assume sized: "\<And>i. i \<in> ids \<Longrightarrow> length (V i) = BLOCK_SZ"
    have "length (V (unat ind)) = 512" using sized[of "unat ind"] A by (simp add: BLOCK_SZ_def)
    note phase2 = ext_phase2[OF k28 True k(2) ok fr mono ind this]
    have kn: "?k \<le> n" "28 \<le> ?k" "min n 156 \<le> ?k" "?k \<le> 16540" using k k28 by auto
    have cnt2: "length (drop ?c nb2) = blocks_for n - blocks_for ?k"
      by (rule ext_remaining[OF phase2(2) cnt k(2)])
    have max: "max (k - 28) (min (n - 28) 128) = ?k - 28" using k28 by auto
    have "vs H ?V (increase_indirect2 bd (?k - 28) (n - 28) ?di (drop ?c nb2) :: (('d, 'z) cache_state_scheme, DiskInode) prog)
        (\<lambda>di' V'. di_size di' = di_size ?di \<and> di_type di' = di_type ?di \<and> ext ?V ?di ?k (drop ?c nb2) V' di' n [])"
      by (rule vs_increase_indirect2[OF kn(2,3,1) k(3) H ext_ok[OF ok fr phase2(2) kn(4)] cnt2])
    then have rest: "vs H ?V (increase_indirect2 bd (?k - 28) (n - 28) ?di (drop ?c nb2) :: (('d, 'z) cache_state_scheme, DiskInode) prog)
        (\<lambda>di' V'. di_size di' = di_size di \<and> di_type di' = di_type di \<and> ext V di k nb V' di' n [])"
      by (rule vs_mono) (auto intro: ext_trans[OF phase2(2)])
    have ws: "length (overwrite (k - 28) (take ?c nb2) (words_of_bytes 4 128 (V (unat ind)) :: u32 list)) = 128"
      by (cases "?c = 0") (auto simp: overwrite_Nil)
    have modify: "vs H V (cache_modify bd (unat ind) 0 BLOCK_SZ decode_indirect encode_indirect
        (\<lambda>indirect1. andthen (fill_blocks (k - 28) (min (n - 28) 128) indirect1 nb2)
          (\<lambda>(current'', indirect1', nb'). ret ((current'', nb'), indirect1'))) :: (('d, 'z) cache_state_scheme, nat \<times> u32 list) prog) Q"
      if "Q (?k - 28, drop ?c nb2) ?V" for Q
    proof (rule vs_modify_indirect, goal_cases)
      case 4
      show ?case
        by (rule vs_andthen, rule vs_fill_blocks, simp, rule phase2(1), unfold max prod.case, rule vs_ret)
          (use that ws in simp)
    qed (use A H in auto)
    show ?thesis
      unfolding increase_indirect1_def counts if_P[OF True]
    proof (rule vs_andthen, rule vs_take_if[OF ne], assumption, unfold di prod.case Let_def sel)
      let ?next = "\<lambda>(current'', nb'). increase_indirect2 bd current'' (n - 28) ?di nb' :: (('d, 'z) cache_state_scheme, DiskInode) prog"
      have "vs H ?V (?next (?k - 28, drop ?c nb2)) (\<lambda>di' V'. di_size di' = di_size di \<and> di_type di' = di_type di \<and> ext V di k nb V' di' n [])"
        using rest by simp
      then show "vs H V (andthen (cache_modify bd (unat ind) 0 BLOCK_SZ decode_indirect encode_indirect
          (\<lambda>indirect1. andthen (fill_blocks (k - 28) (min (n - 28) 128) indirect1 nb2)
            (\<lambda>(current'', indirect1', nb'). ret ((current'', nb'), indirect1')))) ?next)
          (\<lambda>di' V'. di_size di' = di_size di \<and> di_type di' = di_type di \<and> ext V di k nb V' di' n [])"
        by - (rule vs_andthen, rule modify)
    qed
  qed
qed

lemma vs_DiskInode_increase_size:
  assumes n0: "n0 = unat (data_blocks di)" and n: "n = unat (data_blocks_of new_size)" "n0 \<le> n" "n \<le> 16540"
    and H: "Suc (length H) < BLOCK_CACHE_SIZE" and ok: "inode_ok (ids - set H) V di n0"
    and fr: "fresh_for (ids - set H) V di n0 nb" and cnt: "length nb = blocks_for n - blocks_for n0"
  shows "vs H V (DiskInode_increase_size bd di new_size nb :: (('d, 'z) cache_state_scheme, DiskInode) prog)
    (\<lambda>di' V'. di_size di' = new_size \<and> di_type di' = di_type di \<and> ext V di n0 nb V' di' n [])"
proof -
  let ?c = "min n 28 - n0" and ?k = "max n0 (min n 28)"
  let ?di = "di\<lparr>di_size := new_size, di_direct := overwrite n0 (take ?c nb) (di_direct di)\<rparr>" and ?nb = "drop ?c nb"
  have tot: "unat (data_blocks (di\<lparr>di_size := new_size\<rparr>)) = n" using n by (simp add: data_blocks_def)
  have c: "?c \<le> length nb" using blocks_for_diff[OF n(2)] cnt by linarith
  have len: "length (di_direct di) = 28" using ok by (simp add: inode_ok_def)
  have "ext V di n0 nb V (?di\<lparr>di_size := di_size di\<rparr>) ?k ?nb"
    using ext_phase1[OF len c, of V] by simp
  then have e1: "ext V di n0 nb V ?di ?k ?nb" by (simp only: ext_size)
  have k: "?k \<le> n" "min n 28 \<le> ?k" "?k \<le> 16540" using n by auto
  have cnt1: "length ?nb = blocks_for n - blocks_for ?k"
    by (rule ext_remaining[OF e1 cnt n(2)])
  have "vs H V (increase_indirect1 bd ?k n ?di ?nb :: (('d, 'z) cache_state_scheme, DiskInode) prog)
      (\<lambda>di' V'. di_size di' = di_size ?di \<and> di_type di' = di_type ?di \<and> ext V ?di ?k ?nb V' di' n [])"
    by (rule vs_increase_indirect1[OF k(2,1) n(3) H ext_ok[OF ok fr e1 k(3)] cnt1])
  then have "vs H V (increase_indirect1 bd ?k n ?di ?nb :: (('d, 'z) cache_state_scheme, DiskInode) prog)
      (\<lambda>di' V'. di_size di' = new_size \<and> di_type di' = di_type di \<and> ext V di n0 nb V' di' n [])"
    by (rule vs_mono) (auto intro: ext_trans[OF e1])
  then show ?thesis
    unfolding DiskInode_increase_size_def Let_def tot n0[symmetric]
    using len c by (intro vs_andthen vs_fill_blocks) (auto simp: layout_consts)
qed

end

section \<open>Files that grow\<close>

lemma data_blocks_mono:
  assumes "unat a \<le> unat b" and "unat b \<le> 16540 * 512"
  shows "unat (data_blocks_of a) \<le> unat (data_blocks_of b)" "unat (data_blocks_of b) \<le> 16540"
proof -
  have "unat (data_blocks_of a) = (unat a + 511) div 512" "unat (data_blocks_of b) = (unat b + 511) div 512"
    using assms by (auto intro!: unat_data_blocks_of)
  then show "unat (data_blocks_of a) \<le> unat (data_blocks_of b)" "unat (data_blocks_of b) \<le> 16540"
    using assms by (auto intro: div_le_mono)
qed

lemma unat_blocks_needed:
  assumes "unat a \<le> unat b" and "unat b \<le> 16540 * 512"
  shows "unat (total_blocks b - total_blocks a) = blocks_for (unat (data_blocks_of b)) - blocks_for (unat (data_blocks_of a))"
proof -
  have t: "unat (total_blocks a) = blocks_for (unat (data_blocks_of a))" "unat (total_blocks b) = blocks_for (unat (data_blocks_of b))"
    using assms by (auto intro!: unat_total_blocks)
  then have "total_blocks a \<le> total_blocks b"
    using blocks_for_mono[OF data_blocks_mono(1)[OF assms]] by (simp add: word_le_nat_alt)
  then show ?thesis using t by (simp add: unat_sub)
qed

lemma ext_block_of:
  assumes "ext V di k nb V' di' m nb'" and "j < k"
  shows "unat (block_of V' di' j) = unat (block_of V di j)"
proof -
  obtain ds where "data_ids V' di' m = data_ids V di k @ ds" "k \<le> m" using assms(1) by (auto simp: ext_def)
  then have "data_ids V' di' m ! j = data_ids V di k ! j" using assms(2) by (simp add: nth_append data_ids_def)
  then show ?thesis using assms(2) \<open>k \<le> m\<close> by (simp add: data_ids_def)
qed

lemma ext_file_bytes:
  assumes e: "ext V di k nb V' di' m nb'" and ok: "inode_ok A V' di' m"
    and sz: "unat (di_size di) \<le> k * 512" "unat (di_size di) \<le> unat (di_size di')"
  shows "take (unat (di_size di)) (file_bytes V' di') = file_bytes V di"
proof (rule nth_equalityI)
  fix x assume "x < length (take (unat (di_size di)) (file_bytes V' di'))"
  then have x: "x < unat (di_size di)" by simp
  then have j: "x div 512 < k" using sz(1) by (simp add: less_mult_imp_div_less)
  then have "x div 512 < m" using e by (simp add: ext_def)
  then have "V' (unat (block_of V' di' (x div 512))) = V (unat (block_of V' di' (x div 512)))"
    using e inode_ok_table_data[OF ok] data_ids_mem[of "x div 512" m V' di'] by (auto simp: ext_def)
  then show "take (unat (di_size di)) (file_bytes V' di') ! x = file_bytes V di ! x"
    using x sz(2) ext_block_of[OF e j] by (simp add: file_bytes_def byte_at_def)
qed (use sz in simp)

context block_device
begin

lemma vs_grow_file:
  assumes wf: "inode_wf (ids - set H) V di" and sz: "di_size di \<le> new_size" "unat new_size \<le> 16540 * 512"
    and H: "Suc (length H) < BLOCK_CACHE_SIZE" and fr: "fresh_for (ids - set H) V di (unat (data_blocks di)) nb"
    and cnt: "length nb = unat (total_blocks new_size - total_blocks (di_size di))"
  shows "vs H V (DiskInode_increase_size bd di new_size nb :: (('d, 'z) cache_state_scheme, DiskInode) prog)
    (\<lambda>di' V'. di_size di' = new_size \<and> di_type di' = di_type di \<and> inode_wf (ids - set H) V' di' \<and>
       ext V di (unat (data_blocks di)) nb V' di' (unat (data_blocks_of new_size)) [] \<and>
       take (unat (di_size di)) (file_bytes V' di') = file_bytes V di)"
proof -
  have ok: "inode_ok (ids - set H) V di (unat (data_blocks di))" using wf by (simp add: inode_wf_def)
  have le: "unat (di_size di) \<le> unat new_size" using sz(1) by (simp add: word_le_nat_alt)
  note n = data_blocks_mono[OF le sz(2), folded data_blocks_def]
  have "length nb = blocks_for (unat (data_blocks_of new_size)) - blocks_for (unat (data_blocks di))"
    using cnt unat_blocks_needed[OF le sz(2)] by (simp add: data_blocks_def)
  from vs_DiskInode_increase_size[OF refl refl n H ok fr this]
  show ?thesis
  proof (rule vs_mono, elim conjE, intro conjI)
    fix di' V'
    assume d: "di_size di' = new_size" and e: "ext V di (unat (data_blocks di)) nb V' di' (unat (data_blocks_of new_size)) []"
    note ok' = ext_ok(1)[OF ok fr e n(2)]
    show "inode_wf (ids - set H) V' di'" using ok' sz(2) d by (simp add: inode_wf_def data_blocks_def)
    show "take (unat (di_size di)) (file_bytes V' di') = file_bytes V di"
      by (rule ext_file_bytes[OF e ok' inode_wf_size(1)[OF wf]]) (simp add: d le)
  qed
qed

end

end
