(* ===== verification/Efs_Files.thy ===== *)
theory Efs_Files
  imports Efs_Format Inode_Increase
begin

text \<open>
  Files of the inode layer. The data area is a region of blocks with one bit each in the data bitmap; a file is
  well formed when its inode decodes and its index and data blocks are allocated blocks of the region. Writing
  through an inode, with the growth it may need, replaces the addressed bytes of this file and nothing else.
\<close>

section \<open>The data area\<close>

definition bitmap_blocks :: "Bitmap \<Rightarrow> nat set" where
  "bitmap_blocks bm = {start_block_id bm..<start_block_id bm + bm_blocks bm}"

definition data_base :: "EasyFileSystem \<Rightarrow> nat" where
  "data_base efs = unat (data_area_start_block efs)"

definition region :: "EasyFileSystem \<Rightarrow> nat \<Rightarrow> nat set" where
  "region efs c = {data_base efs..<data_base efs + c}"

definition allocated :: "EasyFileSystem \<Rightarrow> nat \<Rightarrow> (nat \<Rightarrow> byte list) \<Rightarrow> nat set" where
  "allocated efs c V = {i \<in> region efs c. bitmap_bit V (data_bitmap efs) (i - data_base efs)}"

text \<open>The first \<open>c\<close> blocks of the data area exist on the device and are apart from the bitmap.\<close>

definition geometry :: "nat set \<Rightarrow> EasyFileSystem \<Rightarrow> nat \<Rightarrow> bool" where
  "geometry ids efs c \<longleftrightarrow> c \<le> Bitmap_maximum (data_bitmap efs) \<and> data_base efs + c < 2 ^ 32 \<and> region efs c \<subseteq> ids \<and>
     bitmap_blocks (data_bitmap efs) \<subseteq> ids \<and> region efs c \<inter> bitmap_blocks (data_bitmap efs) = {}"

definition owned :: "(nat \<Rightarrow> byte list) \<Rightarrow> DiskInode \<Rightarrow> nat set" where
  "owned V di = set (table_ids V di (unat (data_blocks di)) @ data_ids V di (unat (data_blocks di)))"

lemma allocated_region: "allocated efs c V \<subseteq> region efs c"
  by (auto simp: allocated_def)

lemma geometry_apart: "geometry ids efs c \<Longrightarrow> i \<in> region efs c \<Longrightarrow> i \<notin> bitmap_blocks (data_bitmap efs)"
  by (auto simp: geometry_def)

lemma finite_region [simp]: "finite (region efs c)"
  by (simp add: region_def)

lemma inode_wf_owned: "inode_wf A V di \<Longrightarrow> owned V di \<subseteq> A"
  by (simp add: inode_wf_def inode_ok_def owned_def)

lemma inode_wf_mono: "inode_wf A V di \<Longrightarrow> A \<subseteq> B \<Longrightarrow> inode_wf B V di"
  by (auto simp: inode_wf_def inode_ok_def)

lemma allocated_cong:
  assumes "geometry ids efs c" and "\<And>i. i \<in> bitmap_blocks (data_bitmap efs) \<Longrightarrow> V' i = V i"
  shows "allocated efs c V' = allocated efs c V"
proof -
  have "bitmap_bit V' (data_bitmap efs) k = bitmap_bit V (data_bitmap efs) k" if "k < c" for k
  proof (rule bitmap_bit_cong, rule assms(2))
    have "k < bm_blocks (data_bitmap efs) * BLOCK_BITS"
      using that assms(1) by (simp add: geometry_def Bitmap_maximum_def)
    then have "k div BLOCK_BITS < bm_blocks (data_bitmap efs)" by (simp add: less_mult_imp_div_less)
    then show "k div BLOCK_BITS + start_block_id (data_bitmap efs) \<in> bitmap_blocks (data_bitmap efs)"
      by (simp add: bitmap_blocks_def)
  qed
  then show ?thesis by (auto simp: allocated_def region_def)
qed

text \<open>A file is what its own blocks say.\<close>

lemma file_kept:
  assumes wf: "inode_wf A V di" and same: "\<And>i. i \<in> owned V di \<Longrightarrow> V' i = V i"
  shows "inode_wf A V' di" and "file_bytes V' di = file_bytes V di" and "owned V' di = owned V di"
proof -
  have t: "V' i = V i" if "i \<in> set (table_ids V di (unat (data_blocks di)))" for i
    using same that by (simp add: owned_def)
  have ok: "inode_ok A V di (unat (data_blocks di))" using wf by (simp add: inode_wf_def)
  show "inode_wf A V' di" using wf inode_ok_cong[OF ok t] by (simp add: inode_wf_def)
  show "owned V' di = owned V di"
    using table_ids_cong[OF t] data_ids_cong[OF t] by (simp add: owned_def)
  have "byte_at V' di x = byte_at V di x" if "x < unat (di_size di)" for x
  proof -
    have b: "x div 512 < unat (data_blocks di)"
      using that inode_wf_size(1)[OF wf] by (simp add: less_mult_imp_div_less)
    then show ?thesis
      using block_of_cong[OF t b] same data_ids_mem[OF b, of V di] by (simp add: byte_at_def owned_def)
  qed
  then show "file_bytes V' di = file_bytes V di" by (simp add: file_bytes_def)
qed

section \<open>Allocation of data blocks\<close>

lemma unat_of_nat_add:
  assumes "unat (w :: u32) + k < 2 ^ 32"
  shows "unat (of_nat k + w) = unat w + k"
proof -
  have "k < 2 ^ 32" using assms by linarith
  then have k: "unat (of_nat k :: u32) = k" by (simp add: unsigned_of_nat take_bit_nat_eq_self)
  have "unat (of_nat k :: u32) + unat w < 2 ^ LENGTH(32)"
    unfolding k using assms by (simp only: add.commute[of k] len_num0 len_bit0 len_num1) simp
  then show ?thesis using unat_add_lem[of "of_nat k" w] k by linarith
qed

lemma allocated_insert:
  assumes g: "geometry ids efs c" and k: "k < c"
    and bits: "\<forall>j<Bitmap_maximum (data_bitmap efs). bitmap_bit V' (data_bitmap efs) j \<longleftrightarrow> bitmap_bit V (data_bitmap efs) j \<or> j = k"
  shows "allocated efs c V' = insert (data_base efs + k) (allocated efs c V)"
proof -
  have "bitmap_bit V' (data_bitmap efs) j \<longleftrightarrow> bitmap_bit V (data_bitmap efs) j \<or> j = k" if "j < c" for j
    using bits that g by (simp add: geometry_def)
  then have "bitmap_bit V' (data_bitmap efs) (i - data_base efs) \<longleftrightarrow> bitmap_bit V (data_bitmap efs) (i - data_base efs) \<or> i = data_base efs + k"
    if "i \<in> region efs c" for i using that unfolding region_def by auto
  moreover have "data_base efs + k \<in> region efs c" using k by (simp add: region_def)
  ultimately show ?thesis unfolding allocated_def by blast
qed

context block_device
begin

lemma vs_alloc_data:
  assumes g: "geometry ids efs c" and H: "set H \<inter> bitmap_blocks (data_bitmap efs) = {}" "length H < BLOCK_CACHE_SIZE"
    and free: "allocated efs c V \<noteq> region efs c"
  shows "vs H V (alloc_data bd efs :: (('d, 'z) cache_state_scheme, u32) prog) (\<lambda>b V'. unat b \<in> region efs c - allocated efs c V \<and>
    allocated efs c V' = insert (unat b) (allocated efs c V) \<and> (\<forall>i. i \<notin> bitmap_blocks (data_bitmap efs) \<longrightarrow> V' i = V i))"
proof -
  let ?bm = "data_bitmap efs"
  have on: "bitmap_on ids H ?bm"
  proof -
    have b: "b + start_block_id ?bm \<in> bitmap_blocks ?bm" if "b < bm_blocks ?bm" for b using that by (simp add: bitmap_blocks_def)
    have "bitmap_blocks ?bm \<subseteq> ids" using g by (simp add: geometry_def)
    then show ?thesis using H b by (auto simp: bitmap_on_def)
  qed
  obtain f where f: "f < c" "\<not> bitmap_bit V ?bm f"
  proof -
    obtain i where "i \<in> region efs c" "\<not> bitmap_bit V ?bm (i - data_base efs)" using free by (auto simp: allocated_def)
    then show ?thesis using that[of "i - data_base efs"] by (auto simp: region_def)
  qed
  have post: "\<exists>k. r = Some k \<and> k < c \<and> \<not> bitmap_bit V ?bm k \<and> allocated efs c V' = insert (data_base efs + k) (allocated efs c V) \<and>
      (\<forall>i. i \<notin> bitmap_blocks ?bm \<longrightarrow> V' i = V i)" if a: "alloc_post ?bm 0 V r V'" for r V'
  proof (cases r)
    case None
    have "f < Bitmap_maximum ?bm" using f(1) g by (simp add: geometry_def)
    then show ?thesis using a f(2) None by (simp add: alloc_post_0)
  next
    case (Some k)
    then have k: "k < Bitmap_maximum ?bm" "\<not> bitmap_bit V ?bm k" "\<forall>j<k. bitmap_bit V ?bm j"
      "\<forall>j<Bitmap_maximum ?bm. bitmap_bit V' ?bm j \<longleftrightarrow> bitmap_bit V ?bm j \<or> j = k"
      "\<forall>i. i \<noteq> k div BLOCK_BITS + start_block_id ?bm \<longrightarrow> V' i = V i" using a by (simp_all add: alloc_post_0)
    have c: "k < c" using k(3) f by (cases "f < k") auto
    have "k div BLOCK_BITS < bm_blocks ?bm"
      using k(1) by (simp add: Bitmap_maximum_def less_mult_imp_div_less)
    then have "k div BLOCK_BITS + start_block_id ?bm \<in> bitmap_blocks ?bm" by (simp add: bitmap_blocks_def)
    then have "V' i = V i" if "i \<notin> bitmap_blocks ?bm" for i using k(5)[rule_format, of i] that by blast
    then show ?thesis using Some c k(2) allocated_insert[OF g c k(4)] by simp
  qed
  have un: "unat (of_nat k + data_area_start_block efs) = data_base efs + k" if "k < c" for k
    using that g unat_of_nat_add[of "data_area_start_block efs" k] by (simp add: geometry_def data_base_def)
  have "vs H V' (andthen (unwrap r) (\<lambda>k. ret (of_nat k + data_area_start_block efs)) :: (('d, 'z) cache_state_scheme, u32) prog)
      (\<lambda>b V'. unat b \<in> region efs c - allocated efs c V \<and> allocated efs c V' = insert (unat b) (allocated efs c V) \<and>
        (\<forall>i. i \<notin> bitmap_blocks ?bm \<longrightarrow> V' i = V i))" if a: "alloc_post ?bm 0 V r V'" for r V'
  proof -
    obtain k where k: "r = Some k" "k < c" "\<not> bitmap_bit V ?bm k" "allocated efs c V' = insert (data_base efs + k) (allocated efs c V)"
        "\<forall>i. i \<notin> bitmap_blocks ?bm \<longrightarrow> V' i = V i" using post[OF a] by blast
    have "data_base efs + k \<in> region efs c - allocated efs c V" using k(2,3) by (simp add: allocated_def region_def)
    then show ?thesis using k(4,5) by (intro vs_andthen vs_unwrap[OF k(1)] vs_ret) (simp add: un[OF k(2)])
  qed
  then show ?thesis
    unfolding alloc_data_def by (rule vs_andthen[OF vs_mono[OF vs_Bitmap_alloc[OF on]]])
qed

lemma vs_alloc_data_loop:
  assumes g: "geometry ids efs c" and H: "set H \<inter> bitmap_blocks (data_bitmap efs) = {}" "length H < BLOCK_CACHE_SIZE"
  shows "n \<le> card (region efs c - allocated efs c V) \<Longrightarrow>
    vs H V (alloc_data_loop bd efs n v :: (('d, 'z) cache_state_scheme, u32 list) prog) (\<lambda>r V'. \<exists>nb. r = v @ nb \<and> length nb = n \<and> distinct (map unat nb) \<and>
      set (map unat nb) \<subseteq> region efs c - allocated efs c V \<and> allocated efs c V' = allocated efs c V \<union> set (map unat nb) \<and>
      (\<forall>i. i \<notin> bitmap_blocks (data_bitmap efs) \<longrightarrow> V' i = V i))"
proof (induction n arbitrary: v V)
  case 0
  then show ?case by (auto intro: vs_ret)
next
  case (Suc n)
  have free: "allocated efs c V \<noteq> region efs c" using Suc.prems by auto
  have left: "n \<le> card (region efs c - allocated efs c V1)"
    if "unat b \<in> region efs c - allocated efs c V" "allocated efs c V1 = insert (unat b) (allocated efs c V)" for b :: u32 and V1
  proof -
    have "region efs c - allocated efs c V1 = (region efs c - allocated efs c V) - {unat b}" using that(2) by auto
    then show ?thesis using Suc.prems that(1) by simp
  qed
  have "vs H V1 (alloc_data_loop bd efs n (v @ [b]) :: (('d, 'z) cache_state_scheme, u32 list) prog) (\<lambda>r V'. \<exists>nb. r = v @ nb \<and> length nb = Suc n \<and> distinct (map unat nb) \<and>
      set (map unat nb) \<subseteq> region efs c - allocated efs c V \<and> allocated efs c V' = allocated efs c V \<union> set (map unat nb) \<and>
      (\<forall>i. i \<notin> bitmap_blocks (data_bitmap efs) \<longrightarrow> V' i = V i))"
    if 1: "unat b \<in> region efs c - allocated efs c V" "allocated efs c V1 = insert (unat b) (allocated efs c V)"
      and same: "\<forall>i. i \<notin> bitmap_blocks (data_bitmap efs) \<longrightarrow> V1 i = V i" for b V1
  proof (rule vs_mono[OF Suc.IH[OF left[OF 1]]], elim exE conjE)
    fix r V' nb
    assume 2: "r = (v @ [b]) @ nb" "length nb = n" "distinct (map unat nb)" "set (map unat nb) \<subseteq> region efs c - allocated efs c V1"
      "allocated efs c V' = allocated efs c V1 \<union> set (map unat nb)" "\<forall>i. i \<notin> bitmap_blocks (data_bitmap efs) \<longrightarrow> V' i = V1 i"
    show "\<exists>nb. r = v @ nb \<and> length nb = Suc n \<and> distinct (map unat nb) \<and>
      set (map unat nb) \<subseteq> region efs c - allocated efs c V \<and> allocated efs c V' = allocated efs c V \<union> set (map unat nb) \<and>
      (\<forall>i. i \<notin> bitmap_blocks (data_bitmap efs) \<longrightarrow> V' i = V i)"
      using 1 2 same by (intro exI[of _ "b # nb"]) auto
  qed
  then show ?case
    unfolding alloc_data_loop.simps by (rule vs_andthen[OF vs_mono[OF vs_alloc_data[OF g H free]]]) simp_all
qed

end

section \<open>Growth through the inode layer\<close>

definition grown ::
    "EasyFileSystem \<Rightarrow> nat \<Rightarrow> (nat \<Rightarrow> byte list) \<Rightarrow> DiskInode \<Rightarrow> (nat \<Rightarrow> byte list) \<Rightarrow> DiskInode \<Rightarrow> bool" where
  "grown efs c V di V' di' \<longleftrightarrow> di_type di' = di_type di \<and> inode_wf (allocated efs c V') V' di' \<and>
     allocated efs c V \<subseteq> allocated efs c V' \<and> take (unat (di_size di)) (file_bytes V' di') = file_bytes V di \<and>
     owned V' di' \<inter> allocated efs c V \<subseteq> owned V di \<and>
     (\<forall>i. i \<notin> bitmap_blocks (data_bitmap efs) \<longrightarrow> i \<notin> owned V' di' \<longrightarrow> V' i = V i)"

lemma grown_refl: "inode_wf (allocated efs c V) V di \<Longrightarrow> grown efs c V di V di"
  by (simp add: grown_def)

text \<open>The bitmap changed from \<open>V\<close> to \<open>V1\<close>, then the file grew into the new blocks \<open>nb\<close>.\<close>

lemma grown_ext:
  assumes g: "geometry ids efs c" and wf: "inode_wf (allocated efs c V) V di"
    and nb: "set (map unat nb) \<subseteq> region efs c - allocated efs c V"
    and al: "allocated efs c V1 = allocated efs c V \<union> set (map unat nb)"
    and V1: "\<forall>i. i \<notin> bitmap_blocks (data_bitmap efs) \<longrightarrow> V1 i = V i"
    and ty: "di_type di' = di_type di" and wf': "inode_wf A V2 di'"
    and ext: "ext V1 di (unat (data_blocks di)) nb V2 di' (unat (data_blocks di')) []"
    and bytes: "take (unat (di_size di)) (file_bytes V2 di') = file_bytes V1 di"
  shows "grown efs c V di V2 di'"
proof -
  note apart = geometry_apart[OF g]
  have own: "V1 i = V i" if "i \<in> owned V di" for i
    using that inode_wf_owned[OF wf] allocated_region[of efs c V] apart V1 by blast
  note kept = file_kept[OF wf own]
  obtain ts ds where e: "table_ids V2 di' (unat (data_blocks di')) = table_ids V1 di (unat (data_blocks di)) @ ts"
      "data_ids V2 di' (unat (data_blocks di')) = data_ids V1 di (unat (data_blocks di)) @ ds" "mset (map unat nb) = mset (ts @ ds)"
      "\<forall>i. i \<notin> set (table_ids V2 di' (unat (data_blocks di'))) \<longrightarrow> V2 i = V1 i"
    using ext by (auto simp: ext_def)
  have owned: "owned V2 di' = owned V di \<union> set (map unat nb)"
    using e(1,2) mset_eq_setD[OF e(3)] kept(3)[symmetric] by (auto simp: owned_def)
  have V2: "V2 i = V1 i" if "i \<notin> owned V2 di'" for i using e(4) that by (simp add: owned_def)
  have in_region: "owned V2 di' \<subseteq> region efs c"
    unfolding owned using nb inode_wf_owned[OF wf] allocated_region[of efs c V] by blast
  have al2: "allocated efs c V2 = allocated efs c V1"
    by (rule allocated_cong[OF g V2]) (use in_region apart in blast)
  have "owned V2 di' \<subseteq> allocated efs c V2"
    unfolding owned al2 al using inode_wf_owned[OF wf] by blast
  then have "inode_wf (allocated efs c V2) V2 di'"
    using wf' by (simp add: inode_wf_def inode_ok_def owned_def)
  then show ?thesis
    unfolding grown_def using ty bytes kept(2) al2 al nb owned V1 V2 by auto
qed

context block_device
begin

lemma vs_Inode_increase_size:
  assumes g: "geometry ids efs c" and wf: "inode_wf (allocated efs c V) V di"
    and H: "set H \<inter> (bitmap_blocks (data_bitmap efs) \<union> region efs c) = {}" "Suc (length H) < BLOCK_CACHE_SIZE"
    and sz: "unat new_size \<le> 16540 * 512"
    and room: "blocks_for (unat (data_blocks_of new_size)) \<le> blocks_for (unat (data_blocks di)) + card (region efs c - allocated efs c V)"
  shows "vs H V (Inode_increase_size bd efs new_size di :: (('d, 'z) cache_state_scheme, DiskInode) prog)
    (\<lambda>di' V'. di_size di' = max new_size (di_size di) \<and> grown efs c V di V' di')"
proof (cases "new_size < di_size di")
  case True
  then show ?thesis
    unfolding Inode_increase_size_def by (auto intro!: vs_ret grown_refl wf simp: max_def)
next
  case False
  then have le: "di_size di \<le> new_size" by simp
  then have le': "unat (di_size di) \<le> unat new_size" by (simp add: word_le_nat_alt)
  let ?n = "total_blocks new_size - total_blocks (di_size di)"
  have cnt: "unat ?n \<le> card (region efs c - allocated efs c V)"
    using unat_blocks_needed[OF le' sz] room by (simp add: data_blocks_def)
  have H': "set H \<inter> bitmap_blocks (data_bitmap efs) = {}" "length H < BLOCK_CACHE_SIZE" using H by auto
  have grow: "vs H V1 (DiskInode_increase_size bd di new_size nb :: (('d, 'z) cache_state_scheme, DiskInode) prog)
      (\<lambda>di' V'. di_size di' = max new_size (di_size di) \<and> grown efs c V di V' di')"
    if nb: "length nb = unat ?n" "distinct (map unat nb)" "set (map unat nb) \<subseteq> region efs c - allocated efs c V"
      and al: "allocated efs c V1 = allocated efs c V \<union> set (map unat nb)"
      and V1: "\<forall>i. i \<notin> bitmap_blocks (data_bitmap efs) \<longrightarrow> V1 i = V i" for nb V1
  proof -
    have own: "V1 i = V i" if "i \<in> owned V di" for i
      using that inode_wf_owned[OF wf] allocated_region[of efs c V] V1 geometry_apart[OF g] by blast
    have "region efs c \<subseteq> ids - set H" using g H(1) by (auto simp: geometry_def)
    then have sub: "allocated efs c V \<subseteq> ids - set H" "set (map unat nb) \<subseteq> ids - set H"
      using allocated_region[of efs c V] nb(3) by blast+
    have wf1: "inode_wf (ids - set H) V1 di" by (rule inode_wf_mono[OF file_kept(1)[OF wf own] sub(1)])
    have "fresh_for (ids - set H) V1 di (unat (data_blocks di)) nb"
      using nb(2,3) sub(2) inode_wf_owned[OF wf] file_kept(3)[OF wf own] unfolding fresh_for_def owned_def by blast
    from vs_grow_file[OF wf1 le sz H(2) this nb(1)] show ?thesis
      by (rule vs_mono) (use le in \<open>auto simp: max_def data_blocks_def intro!: grown_ext[OF g wf nb(3) al V1]\<close>)
  qed
  have need: "blocks_num_needed di new_size = Inr ?n" using le by (simp add: blocks_num_needed_def)
  show ?thesis
    unfolding Inode_increase_size_def if_not_P[OF False]
    by (rule vs_andthen[OF vs_lift_res[OF need]], rule vs_andthen[OF vs_mono[OF vs_alloc_data_loop[OF g H' cnt]]],
        elim exE conjE, rule grow) simp_all
qed

end

section \<open>Writing through an inode\<close>

context block_device
begin

lemma vs_post_sized: "vs H V p Q \<Longrightarrow> vs H V p (\<lambda>r V'. Q r V' \<and> (\<forall>i\<in>ids. length (V' i) = BLOCK_SZ))"
  unfolding vspec_def by (blast intro: wp_mono view_length)

end

text \<open>The place of an inode on the disk, apart from the data area and the data bitmap.\<close>

definition slot_ok :: "nat set \<Rightarrow> EasyFileSystem \<Rightarrow> nat \<Rightarrow> Inode \<Rightarrow> bool" where
  "slot_ok ids efs c inode \<longleftrightarrow> in_block_id inode \<in> ids - region efs c - bitmap_blocks (data_bitmap efs) \<and>
     in_block_offset inode + 128 \<le> 512"

definition file_at :: "EasyFileSystem \<Rightarrow> nat \<Rightarrow> (nat \<Rightarrow> byte list) \<Rightarrow> Inode \<Rightarrow> DiskInode \<Rightarrow> bool" where
  "file_at efs c V inode di \<longleftrightarrow> inode_at V inode = Inr di \<and> inode_wf (allocated efs c V) V di"

definition slots_apart :: "Inode \<Rightarrow> Inode \<Rightarrow> bool" where
  "slots_apart a b \<longleftrightarrow> in_block_id a \<noteq> in_block_id b \<or> in_block_offset a + 128 \<le> in_block_offset b \<or>
     in_block_offset b + 128 \<le> in_block_offset a"

definition apart :: "(nat \<Rightarrow> byte list) \<Rightarrow> Inode \<times> DiskInode \<Rightarrow> Inode \<times> DiskInode \<Rightarrow> bool" where
  "apart V f f' \<longleftrightarrow> owned V (snd f) \<inter> owned V (snd f') = {} \<and> slots_apart (fst f) (fst f')"

text \<open>
  The effect of an operation on one file: it becomes \<open>di'\<close>, only the data area with its bitmap and the block of the inode
  change, and every file that shares no inode slot and no block with it
  is still there with the same contents.
\<close>

definition only_file_changed ::
    "nat set \<Rightarrow> EasyFileSystem \<Rightarrow> nat \<Rightarrow> (nat \<Rightarrow> byte list) \<Rightarrow> Inode \<Rightarrow> DiskInode \<Rightarrow> (nat \<Rightarrow> byte list) \<Rightarrow> DiskInode \<Rightarrow> bool" where
  "only_file_changed ids efs c V inode di V' di' \<longleftrightarrow> file_at efs c V' inode di' \<and> allocated efs c V \<subseteq> allocated efs c V' \<and>
     (\<forall>i. i \<notin> region efs c \<union> bitmap_blocks (data_bitmap efs) \<longrightarrow> i \<noteq> in_block_id inode \<longrightarrow> V' i = V i) \<and>
     (\<forall>i e. slot_ok ids efs c i \<longrightarrow> file_at efs c V i e \<longrightarrow> apart V (inode, di) (i, e) \<longrightarrow>
        file_at efs c V' i e \<and> file_bytes V' e = file_bytes V e \<and> apart V' (inode, di') (i, e))"

text \<open>The disk with \<open>di\<close> in the place of the inode.\<close>

definition store_inode :: "(nat \<Rightarrow> byte list) \<Rightarrow> Inode \<Rightarrow> DiskInode \<Rightarrow> nat \<Rightarrow> byte list" where
  "store_inode V inode di = V(in_block_id inode := overwrite (in_block_offset inode)
     (encode_disk_inode (slice (in_block_offset inode) 128 (V (in_block_id inode))) di) (V (in_block_id inode)))"

lemma store_inode_other: "j \<noteq> in_block_id inode \<Longrightarrow> store_inode V inode di j = V j"
  by (simp add: store_inode_def)

lemma inode_at_store:
  assumes "length (V (in_block_id i)) = 512" and "in_block_offset i + 128 \<le> 512" and "length (di_direct di) = 28"
  shows "inode_at (store_inode V i di) i = Inr di"
    and "slots_apart i j \<Longrightarrow> in_block_offset j + 128 \<le> 512 \<Longrightarrow> inode_at (store_inode V i di) j = inode_at V j"
proof -
  have l: "length (encode_disk_inode (slice (in_block_offset i) 128 (V (in_block_id i))) di) = 128" using assms by simp
  show "inode_at (store_inode V i di) i = Inr di"
    using assms l by (simp add: inode_at_def store_inode_def)
  show "slots_apart i j \<Longrightarrow> in_block_offset j + 128 \<le> 512 \<Longrightarrow> inode_at (store_inode V i di) j = inode_at V j"
    using assms(1,2) l by (auto simp: inode_at_def store_inode_def slots_apart_def slice_overwrite_other)
qed

lemma only_file_changedI:
  assumes g: "geometry ids efs c" and slot: "slot_ok ids efs c inode" and f: "inode_wf (allocated efs c V) V di"
    and len: "length (V2 (in_block_id inode)) = 512"
    and wf: "inode_wf (allocated efs c V1) V2 di'" and mono: "allocated efs c V \<subseteq> allocated efs c V1"
    and own: "owned V2 di' \<inter> allocated efs c V \<subseteq> owned V di"
    and same1: "\<forall>i. i \<notin> owned V2 di' \<longrightarrow> V2 i = V1 i" and same: "\<forall>i. i \<notin> bitmap_blocks (data_bitmap efs) \<longrightarrow> i \<notin> owned V2 di' \<longrightarrow> V1 i = V i"
    and d28: "length (di_direct di') = 28"
  defines "V' \<equiv> store_inode V2 inode di'"
  shows "only_file_changed ids efs c V inode di V' di' \<and> file_bytes V' di' = file_bytes V2 di'"
proof -
  have b: "in_block_id inode \<notin> region efs c" "in_block_id inode \<notin> bitmap_blocks (data_bitmap efs)" "in_block_offset inode + 128 \<le> 512"
    using slot by (auto simp: slot_ok_def)
  have in_region: "i \<in> region efs c" if "i \<in> owned V2 di' \<or> i \<in> allocated efs c V" for i
    using that inode_wf_owned[OF wf] allocated_region[of efs c V1] mono by blast
  have V': "V' i = V2 i" if "i \<in> region efs c \<or> i \<in> bitmap_blocks (data_bitmap efs)" for i
    using that b by (auto simp: V'_def store_inode_def)
  have "V' i = V1 i" if "i \<in> bitmap_blocks (data_bitmap efs)" for i
    using that V' same1 in_region geometry_apart[OF g] by metis
  then have al: "allocated efs c V' = allocated efs c V1" by (rule allocated_cong[OF g])
  note this_file = file_kept[OF wf V'[OF disjI1[OF in_region[OF disjI1]]]]
  note slots = inode_at_store[of V2 inode di', OF len b(3) d28, folded V'_def]
  have "file_at efs c V' i e \<and> file_bytes V' e = file_bytes V e \<and> apart V' (inode, di') (i, e)"
    if i: "slot_ok ids efs c i" and e: "file_at efs c V i e" and ap: "apart V (inode, di) (i, e)" for i e
  proof -
    have wfe: "inode_wf (allocated efs c V) V e" using e by (simp add: file_at_def)
    have dis: "owned V2 di' \<inter> owned V e = {}" using ap own inode_wf_owned[OF wfe] by (auto simp: apart_def)
    have "V' j = V j" if "j \<in> owned V e" for j
    proof -
      have "j \<in> region efs c" "j \<notin> owned V2 di'" using that inode_wf_owned[OF wfe] in_region dis by blast+
      then show ?thesis using V' same1 same geometry_apart[OF g] by metis
    qed
    note other = file_kept[OF wfe this]
    have i': "in_block_id i \<notin> region efs c" "in_block_id i \<notin> bitmap_blocks (data_bitmap efs)" "in_block_offset i + 128 \<le> 512"
      using i by (auto simp: slot_ok_def)
    then have "V2 (in_block_id i) = V (in_block_id i)" using in_region same1 same by metis
    moreover have "inode_at V' i = inode_at V2 i" by (rule slots(2)) (use ap i'(3) in \<open>auto simp: apart_def\<close>)
    ultimately have "inode_at V' i = Inr e" using e by (simp add: file_at_def inode_at_def)
    then show ?thesis
      using other this_file(3) al mono dis ap inode_wf_mono[OF other(1)] by (auto simp: file_at_def apart_def)
  qed
  moreover have "V' i = V i" if "i \<notin> region efs c \<union> bitmap_blocks (data_bitmap efs)" "i \<noteq> in_block_id inode" for i
  proof -
    have "V' i = V2 i" using that(2) by (simp add: V'_def store_inode_other)
    then show ?thesis using that(1) in_region same1 same by (metis UnI1 UnI2)
  qed
  ultimately show ?thesis
    using slots(1) this_file(1,2) al mono by (auto simp: only_file_changed_def file_at_def)
qed

text \<open>The contents \<open>new\<close> are the contents \<open>old\<close> with \<open>buf\<close> at \<open>offset\<close>, extended where \<open>buf\<close> goes past the end.\<close>

definition patched :: "byte list \<Rightarrow> nat \<Rightarrow> byte list \<Rightarrow> byte list \<Rightarrow> bool" where
  "patched old offset buf new \<longleftrightarrow> length new = max (length old) (offset + length buf) \<and> slice offset (length buf) new = buf \<and>
     (\<forall>x<length old. x < offset \<or> offset + length buf \<le> x \<longrightarrow> new ! x = old ! x)"

lemma patched_overwrite:
  assumes "take (length old) cs = old" and "length cs = max (length old) (offset + length buf)"
  shows "patched old offset buf (overwrite offset buf cs)"
proof -
  have "overwrite offset buf cs ! x = old ! x" if "x < length old" "x < offset \<or> offset + length buf \<le> x" for x
  proof -
    have "cs ! x = old ! x" using assms(1) that(1) by (metis nth_take)
    then show ?thesis using that assms(2) by (auto simp: nth_overwrite)
  qed
  then show ?thesis using assms(2) by (simp add: patched_def)
qed

context block_device
begin

lemma vs_write_grown:
  assumes g: "geometry ids efs c" and slot: "slot_ok ids efs c inode" and gr: "grown efs c V di V1 di'"
    and wf: "inode_wf (allocated efs c V) V di" and sz: "unat (di_size di') = max (unat (di_size di)) (offset + length buf)" and ne: "buf \<noteq> []"
  shows "vs [in_block_id inode] V1 (DiskInode_write_at bd di' offset buf :: (('d, 'z) cache_state_scheme, nat) prog)
    (\<lambda>n V2. n = length buf \<and> (length (V2 (in_block_id inode)) = 512 \<longrightarrow>
       only_file_changed ids efs c V inode di (store_inode V2 inode di') di' \<and>
       patched (file_bytes V di) offset buf (file_bytes (store_inode V2 inode di') di')))"
proof -
  let ?b = "in_block_id inode" and ?n = "unat (data_blocks di')"
  have wf': "inode_wf (allocated efs c V1) V1 di'" using gr by (simp add: grown_def)
  then have d28: "length (di_direct di') = 28" and ok: "inode_ok (allocated efs c V1) V1 di' ?n"
    by (simp_all add: inode_wf_def inode_ok_def)
  have "region efs c \<subseteq> ids - set [?b]" using g slot by (auto simp: geometry_def slot_ok_def)
  then have wfH: "inode_wf (ids - set [?b]) V1 di'"
    by (intro inode_wf_mono[OF wf']) (use allocated_region[of efs c V1] in blast)
  have le: "offset + length buf \<le> unat (di_size di')" using sz by simp
  have old: "take (length (file_bytes V di)) (file_bytes V1 di') = file_bytes V di" using gr by (simp add: grown_def)
  show ?thesis
  proof (rule vs_mono[OF vs_DiskInode_write_at[OF wfH _ le ne]], simp add: BLOCK_CACHE_SIZE_def, elim conjE, intro conjI impI)
    fix n V2
    assume n: "n = length buf" and ch: "data_changed V1 di' ?n offset buf V2" and len: "length (V2 ?b) = 512"
    note tab = data_changed_tables[OF ok ch]
    have own: "owned V2 di' = owned V1 di'" using table_ids_cong[OF tab] data_ids_cong[OF tab] by (simp add: owned_def)
    have bytes: "file_bytes V2 di' = overwrite offset buf (file_bytes V1 di')"
      by (rule data_changed_file_bytes[OF wf' ch le])
    have "\<forall>i. i \<notin> owned V2 di' \<longrightarrow> V2 i = V1 i" using ch unfolding own by (simp add: data_changed_def owned_def)
    then have new: "only_file_changed ids efs c V inode di (store_inode V2 inode di') di' \<and>
        file_bytes (store_inode V2 inode di') di' = file_bytes V2 di'"
      by (intro only_file_changedI[OF g slot wf len data_changed_wf[OF wf' ch]] d28) (use gr own in \<open>auto simp: grown_def\<close>)
    then show "only_file_changed ids efs c V inode di (store_inode V2 inode di') di'" by simp
    show "patched (file_bytes V di) offset buf (file_bytes (store_inode V2 inode di') di')"
      using patched_overwrite[OF old] sz new by (simp add: bytes)
  qed simp
qed

lemma vs_modify_disk_inode:
  assumes slot: "slot_ok ids efs c i" and d: "inode_at V i = Inr d"
    and p: "vs [in_block_id i] V (f d) (\<lambda>(r, t) V'. length (di_direct t) = 28 \<and>
      (length (V' (in_block_id i)) = 512 \<longrightarrow> Q r (store_inode V' i t)))"
  shows "vs [] V (modify_disk_inode bd i f) Q"
proof -
  have b: "in_block_id i \<in> ids" "in_block_id i \<notin> set []" "length ([] :: nat list) < BLOCK_CACHE_SIZE" "in_block_offset i + 128 \<le> BLOCK_SZ"
    using slot by (simp_all add: slot_ok_def BLOCK_CACHE_SIZE_def BLOCK_SZ_def)
  show ?thesis
    unfolding modify_disk_inode_def DISK_INODE_SZ_def
    by (rule vs_cache_modify[OF b, where t = d], use d in \<open>simp add: inode_at_def\<close>, rule vs_mono[OF vs_post_sized[OF p]])
      (use b in \<open>auto simp: BLOCK_SZ_def store_inode_def\<close>)
qed

text \<open>The body of \<^verbatim>\<open>write_at\<close> while the inode is locked; \<open>h\<close> is what the caller makes of the number of bytes.\<close>

lemma vs_write_body:
  fixes h :: "nat \<Rightarrow> 'r"
  assumes g: "geometry ids efs c" and slot: "slot_ok ids efs c inode" and f: "file_at efs c V inode di" and ne: "buf \<noteq> []"
    and sz: "offset + length buf \<le> 16540 * 512"
    and room: "blocks_for (unat (data_blocks_of (of_nat (offset + length buf)))) \<le>
      blocks_for (unat (data_blocks di)) + card (region efs c - allocated efs c V)"
  shows "vs [in_block_id inode] V (andthen (Inode_increase_size bd efs (of_nat (offset + length buf)) di) (\<lambda>di'.
       andthen (DiskInode_write_at bd di' offset buf) (\<lambda>n. ret (h n, di'))) :: (('d, 'z) cache_state_scheme, 'r \<times> DiskInode) prog)
    (\<lambda>(r, di') V'. length (di_direct di') = 28 \<and> (length (V' (in_block_id inode)) = 512 \<longrightarrow> r = h (length buf) \<and> di_type di' = di_type di \<and>
       only_file_changed ids efs c V inode di (store_inode V' inode di') di' \<and>
       patched (file_bytes V di) offset buf (file_bytes (store_inode V' inode di') di')))"
proof -
  let ?b = "in_block_id inode" and ?new = "of_nat (offset + length buf) :: u32"
  have wf: "inode_wf (allocated efs c V) V di" using f by (simp add: file_at_def)
  have b: "set [?b] \<inter> (bitmap_blocks (data_bitmap efs) \<union> region efs c) = {}" "Suc (length [?b]) < BLOCK_CACHE_SIZE"
    using slot by (auto simp: slot_ok_def BLOCK_CACHE_SIZE_def)
  have "offset + length buf < 2 ^ 32" using sz by simp
  then have un: "unat ?new = offset + length buf" by (simp add: unsigned_of_nat take_bit_nat_eq_self del: of_nat_add)
  have size: "unat (max ?new (di_size di)) = max (unat (di_size di)) (offset + length buf)"
    using un by (simp add: max_def word_le_nat_alt)
  have new: "unat ?new \<le> 16540 * 512" using un sz by simp
  have step: "vs [?b] V1 (andthen (DiskInode_write_at bd di' offset buf) (\<lambda>n. ret (h n, di')) :: (('d, 'z) cache_state_scheme, 'r \<times> DiskInode) prog)
      (\<lambda>(r, di') V'. length (di_direct di') = 28 \<and> (length (V' ?b) = 512 \<longrightarrow> r = h (length buf) \<and> di_type di' = di_type di \<and>
         only_file_changed ids efs c V inode di (store_inode V' inode di') di' \<and>
         patched (file_bytes V di) offset buf (file_bytes (store_inode V' inode di') di')))"
    if d: "di_size di' = max ?new (di_size di)" "grown efs c V di V1 di'" for di' V1
  proof -
    have d28: "length (di_direct di') = 28" "di_type di' = di_type di" using d(2) by (simp_all add: grown_def inode_wf_def inode_ok_def)
    have sz': "unat (di_size di') = max (unat (di_size di)) (offset + length buf)" using d(1) size by simp
    show ?thesis
      by (rule vs_andthen, rule vs_mono[OF vs_write_grown[OF g slot d(2) wf sz' ne]], rule vs_ret) (use d28 in simp)
  qed
  show ?thesis
    by (rule vs_andthen, rule vs_mono[OF vs_Inode_increase_size[OF g wf b new room]], elim conjE, rule step)
qed

end

section \<open>Properties\<close>

text \<open>
  C39: writing a file. \<^verbatim>\<open>Inode::write_at\<close> at any offset, with the growth it needs while the data area has room, returns the
  number of bytes and leaves on the device itself a well-formed file whose contents have the new bytes at the offset and the
  old ones elsewhere. Every other file keeps its inode, its blocks and its contents, and the two files stay apart.
\<close>

theorem Inode_write_at_correct:
  assumes "block_device bd disk ids dinv" and "cache_inv disk ids dinv s" and "held s = []"
    and "geometry ids efs c" and "slot_ok ids efs c inode" and "file_at efs c (disk_view disk s) inode di"
    and "buf \<noteq> []" and "offset + length buf \<le> 16540 * 512"
    and "blocks_for (unat (data_blocks_of (of_nat (offset + length buf)))) \<le>
      blocks_for (unat (data_blocks di)) + card (region efs c - allocated efs c (disk_view disk s))"
  shows "\<exists>s' di'. Inode_write_at bd efs inode offset buf s = Inr (length buf, s') \<and> cache_inv disk ids dinv s' \<and> held s' = [] \<and>
    disk_view disk s' = disk (device s') \<and> only_file_changed ids efs c (disk_view disk s) inode di (disk (device s')) di' \<and>
    patched (file_bytes (disk_view disk s) di) offset buf (file_bytes (disk (device s')) di')"
proof -
  let ?Q = "\<lambda>n V'. n = length buf \<and> (\<exists>di'. only_file_changed ids efs c (disk_view disk s) inode di V' di' \<and>
      patched (file_bytes (disk_view disk s) di) offset buf (file_bytes V' di'))"
  have at: "inode_at (disk_view disk s) inode = Inr di" using assms(6) by (simp add: file_at_def)
  have "vspec disk ids dinv [] (disk_view disk s) (modify_disk_inode bd inode (\<lambda>disk_inode.
       andthen (Inode_increase_size bd efs (of_nat (offset + length buf)) disk_inode) (\<lambda>disk_inode'.
       andthen (DiskInode_write_at bd disk_inode' offset buf) (\<lambda>n. ret (n, disk_inode'))))) ?Q"
    by (rule block_device.vs_modify_disk_inode[OF assms(1,5) at],
        rule block_device.vs_mono[OF assms(1) block_device.vs_write_body[where h = "\<lambda>n. n", OF assms(1,4-9)]]) auto
  note body = this[unfolded vspec_def, rule_format, OF assms(2,3) refl]
  have sync: "wp (block_cache_sync_all bd) (\<lambda>_ s''. cache_inv disk ids dinv s'' \<and> held s'' = [] \<and>
      disk_view disk s'' = disk (device s'') \<and> disk (device s'') = disk_view disk s') s'"
    if "cache_inv disk ids dinv s'" "held s' = []" for s'
    by (rule wp_mono[OF block_device.sync_all_ok[OF assms(1) that]]) simp
  have "wp (Inode_write_at bd efs inode offset buf) (\<lambda>n s'. n = length buf \<and> cache_inv disk ids dinv s' \<and> held s' = [] \<and>
      disk_view disk s' = disk (device s') \<and> (\<exists>di'. only_file_changed ids efs c (disk_view disk s) inode di (disk (device s')) di' \<and>
      patched (file_bytes (disk_view disk s) di) offset buf (file_bytes (disk (device s')) di'))) s"
    unfolding Inode_write_at_def wp_andthen
    by (rule wp_mono[OF body], elim conjE, rule wp_mono[OF sync]) auto
  then show ?thesis by (auto simp: wp_runs)
qed

text \<open>A data area of 20 blocks from block 5 on, its bitmap in block 4, and an empty file whose inode starts block 2.\<close>

definition demo_efs :: EasyFileSystem where
  "demo_efs = \<lparr>inode_bitmap = Bitmap_new 1 1, data_bitmap = Bitmap_new 4 1, inode_area_start_block = 2, data_area_start_block = 5\<rparr>"

definition demo_slot :: Inode where
  "demo_slot = \<lparr>in_block_id = 2, in_block_offset = 0\<rparr>"

definition empty_file :: DiskInode where
  "empty_file = empty_dir\<lparr>di_type := File\<rparr>"

lemma fresh_view: "i < n \<Longrightarrow> disk_view file_block (fresh_image n) i = replicate 512 0"
  by (auto simp: disk_view_def fresh_image_def file_block_def)

lemma demo_geometry: "geometry {..<32} demo_efs 20" "slot_ok {..<32} demo_efs 20 demo_slot"
  by (auto simp: geometry_def slot_ok_def demo_efs_def demo_slot_def region_def data_base_def bitmap_blocks_def Bitmap_new_def
      Bitmap_maximum_def BLOCK_BITS_def BLOCK_SZ_def)

lemma demo_free: "allocated demo_efs 20 (disk_view file_block (fresh_image 32)) = {}"
proof -
  have "\<not> bitmap_bit (disk_view file_block (fresh_image 32)) (data_bitmap demo_efs) k" if "k < 20" for k
    by (rule bitmap_bit_zero) (use that in \<open>simp add: demo_efs_def Bitmap_new_def BLOCK_BITS_def BLOCK_SZ_def fresh_view\<close>)
  then show ?thesis by (auto simp: allocated_def region_def)
qed

lemma empty_file_blocks: "unat (data_blocks empty_file) = 0"
  by (simp add: data_blocks_def unat_data_blocks_of empty_file_def empty_dir_def)

lemma decode_zeros: "decode_disk_inode (replicate 128 0) = Inr empty_file"
proof -
  have w: "words_of_bytes 4 31 (replicate 128 0) = replicate 31 (0 :: u32)" by (intro nth_equalityI) simp_all
  show ?thesis by (simp add: decode_disk_inode_def Let_def w empty_file_def empty_dir_def)
qed

lemma empty_file_wf: "inode_wf A V empty_file"
  unfolding inode_wf_def inode_ok_def empty_file_blocks
  by (simp add: empty_file_def empty_dir_def table_ids_def data_ids_def)

lemma demo_file: "file_at demo_efs 20 (disk_view file_block (fresh_image 32)) demo_slot empty_file"
  using decode_zeros empty_file_wf by (simp add: file_at_def inode_at_def demo_slot_def fresh_view)

theorem Inode_write_at_correct_witness:
  "block_device BlockFile file_block {..<32} (\<lambda>f. length f = 32 * 512) \<and>
   cache_inv file_block {..<32} (\<lambda>f. length f = 32 * 512) (fresh_image 32) \<and>
   geometry {..<32} demo_efs 20 \<and> slot_ok {..<32} demo_efs 20 demo_slot \<and>
   file_at demo_efs 20 (disk_view file_block (fresh_image 32)) demo_slot empty_file \<and>
   (\<exists>s' di'. Inode_write_at BlockFile demo_efs demo_slot 0 [1, 2, 3] (fresh_image 32) = Inr (3, s') \<and>
      file_bytes (file_block (device s')) di' = [1, 2, 3])"
proof -
  have room: "blocks_for (unat (data_blocks_of (of_nat (0 + length [1, 2, 3 :: byte])))) \<le>
      blocks_for (unat (data_blocks empty_file)) + card (region demo_efs 20 - allocated demo_efs 20 (disk_view file_block (fresh_image 32)))"
    unfolding demo_free empty_file_blocks by (simp add: region_def blocks_for_def unat_data_blocks_of)
  obtain s' di' where s': "Inode_write_at BlockFile demo_efs demo_slot 0 [1, 2, 3] (fresh_image 32) = Inr (3, s')"
      "patched (file_bytes (disk_view file_block (fresh_image 32)) empty_file) 0 [1, 2, 3] (file_bytes (file_block (device s')) di')"
    using Inode_write_at_correct[OF bf.block_device_axioms fresh_image_inv _ demo_geometry demo_file _ _ room]
    by (auto simp: fresh_image_def)
  have "length (file_bytes (disk_view file_block (fresh_image 32)) empty_file) = 0" by (simp add: empty_file_def empty_dir_def)
  then have "length (file_bytes (file_block (device s')) di') = 3" "take 3 (file_bytes (file_block (device s')) di') = [1, 2, 3]"
    using s'(2) unfolding patched_def by (simp_all add: slice_def numeral_3_eq_3)
  then have "file_bytes (file_block (device s')) di' = [1, 2, 3]" using take_all[of "file_bytes (file_block (device s')) di'" 3] by simp
  then show ?thesis using s'(1) bf.block_device_axioms[of 32] fresh_image_inv[of 32] demo_geometry demo_file by blast
qed

end
