(* ===== verification/Efs_Dir.thy ===== *)
theory Efs_Dir
  imports Efs_Files
begin

text \<open>
  Directories of the inode layer. A directory is a file of 32-byte entries; \<open>dir_entries\<close> is the list of names and
  inode numbers it stands for. Lookup and listing read this list, and \<^verbatim>\<open>create\<close> appends to it.
\<close>

section \<open>Entries\<close>

definition dirent_at :: "(nat \<Rightarrow> byte list) \<Rightarrow> DiskInode \<Rightarrow> nat \<Rightarrow> DirEntry" where
  "dirent_at V di i = DirEntry_of_bytes (slice (32 * i) 32 (file_bytes V di))"

definition entries_of :: "(nat \<Rightarrow> byte list) \<Rightarrow> DiskInode \<Rightarrow> nat list \<Rightarrow> (byte list \<times> u32) list" where
  "entries_of V di is = map (\<lambda>i. (projr (DirEntry_name (dirent_at V di i)), de_inode_number (dirent_at V di i))) is"

definition dir_entries :: "(nat \<Rightarrow> byte list) \<Rightarrow> DiskInode \<Rightarrow> (byte list \<times> u32) list" where
  "dir_entries V di = entries_of V di [0..<unat (di_size di) div 32]"

text \<open>A directory holds whole entries, and every name is terminated and valid.\<close>

definition dir_ok :: "(nat \<Rightarrow> byte list) \<Rightarrow> DiskInode \<Rightarrow> bool" where
  "dir_ok V di \<longleftrightarrow> is_dir di \<and> unat (di_size di) mod 32 = 0 \<and>
     (\<forall>i<unat (di_size di) div 32. \<exists>name. DirEntry_name (dirent_at V di i) = Inr name)"

lemma dir_cong: "file_bytes V' di = file_bytes V di \<Longrightarrow> dir_entries V' di = dir_entries V di \<and> dir_ok V' di = dir_ok V di"
  by (simp add: dir_entries_def entries_of_def dir_ok_def dirent_at_def)

lemma entry_in_file: "i < unat (di_size di) div 32 \<Longrightarrow> 32 * i + 32 \<le> unat (di_size di)"
  by linarith

context block_device
begin

lemma vs_read_dirent:
  assumes wf: "inode_wf (ids - set H) V di" and H: "length H < BLOCK_CACHE_SIZE" and i: "i < unat (di_size di) div 32"
    and len: "length buf = 32" and Q: "Q (slice (32 * i) 32 (file_bytes V di)) V"
  shows "vs H V (read_dirent bd di i buf) Q"
proof -
  note le = entry_in_file[OF i]
  have sz: "unat (di_size di) < 2 ^ 32" using wf by (simp add: inode_wf_def)
  have off: "32 * i + length buf < 2 ^ 64" using le sz len by simp
  have k: "min (32 * i + length buf) (unat (di_size di)) - 32 * i = 32" using le len by simp
  have ow: "overwrite 0 (slice (32 * i) 32 (file_bytes V di)) buf = slice (32 * i) 32 (file_bytes V di)"
    using le len by (simp add: overwrite_def)
  show ?thesis
    unfolding read_dirent_def DIRENT_SZ_def
    by (rule vs_andthen, rule vs_mono[OF vs_DiskInode_read_at[OF wf H off]])
      (use Q in \<open>auto simp: k ow intro!: vs_andthen vs_assert_that vs_ret\<close>)
qed

lemma vs_find_inode_id_loop:
  assumes wf: "inode_wf (ids - set H) V di" and H: "length H < BLOCK_CACHE_SIZE" and ok: "dir_ok V di"
  shows "set is \<subseteq> {..<unat (di_size di) div 32} \<Longrightarrow> length buf = 32 \<Longrightarrow> Q (map_of (entries_of V di is) name) V \<Longrightarrow>
    vs H V (find_inode_id_loop bd di name is buf) Q"
proof (induction "is" arbitrary: buf)
  case Nil
  then show ?case by (auto intro: vs_ret simp: entries_of_def)
next
  case (Cons i "is")
  have i: "i < unat (di_size di) div 32" using Cons.prems by simp
  then obtain nm where nm: "DirEntry_name (dirent_at V di i) = Inr nm" using ok by (auto simp: dir_ok_def)
  have len: "length (slice (32 * i) 32 (file_bytes V di)) = 32" using entry_in_file[OF i] by simp
  show ?case
    unfolding find_inode_id_loop.simps
    by (rule vs_andthen, rule vs_read_dirent[OF wf H i Cons.prems(2)], rule vs_andthen, rule vs_lift_res, rule nm[unfolded dirent_at_def])
      (use Cons.prems nm len in \<open>auto intro!: vs_ret Cons.IH simp: entries_of_def dirent_at_def\<close>)
qed

lemma vs_find_inode_id:
  assumes wf: "inode_wf (ids - set H) V di" and H: "length H < BLOCK_CACHE_SIZE" and ok: "dir_ok V di"
    and Q: "Q (map_of (dir_entries V di) name) V"
  shows "vs H V (find_inode_id bd name di) Q"
  unfolding find_inode_id_def DIRENT_SZ_def
  by (rule vs_andthen, rule vs_assert_that, use ok in \<open>simp add: dir_ok_def\<close>, rule vs_find_inode_id_loop[OF wf H ok])
    (use Q in \<open>auto simp: dir_entries_def DirEntry_empty_def DIRENT_SZ_def\<close>)

lemma vs_ls_loop:
  assumes wf: "inode_wf (ids - set H) V di" and H: "length H < BLOCK_CACHE_SIZE" and ok: "dir_ok V di"
  shows "set is \<subseteq> {..<unat (di_size di) div 32} \<Longrightarrow> Q (v @ map fst (entries_of V di is)) V \<Longrightarrow> vs H V (ls_loop bd di is v) Q"
proof (induction "is" arbitrary: v)
  case Nil
  then show ?case by (auto intro: vs_ret simp: entries_of_def)
next
  case (Cons i "is")
  have i: "i < unat (di_size di) div 32" using Cons.prems by simp
  then obtain nm where nm: "DirEntry_name (dirent_at V di i) = Inr nm" using ok by (auto simp: dir_ok_def)
  have len: "length (DirEntry_as_bytes DirEntry_empty) = 32" by (simp add: DirEntry_empty_def DIRENT_SZ_def)
  show ?case
    unfolding ls_loop.simps
    by (rule vs_andthen, rule vs_read_dirent[OF wf H i len], rule vs_andthen, rule vs_lift_res, rule nm[unfolded dirent_at_def])
      (use Cons.prems nm in \<open>auto intro!: Cons.IH simp: entries_of_def dirent_at_def\<close>)
qed

end

section \<open>Lookup and listing\<close>

definition inode_of :: "EasyFileSystem \<Rightarrow> u32 \<Rightarrow> Inode" where
  "inode_of efs inode_id = (case get_disk_inode_pos efs inode_id of (block_id, block_offset) \<Rightarrow> Inode_new block_id block_offset)"

lemma decode_direct: "decode_disk_inode bs = Inr di \<Longrightarrow> length (di_direct di) = 28"
  by (auto simp: decode_disk_inode_def Let_def split: if_splits)

lemma encode_decode_disk_inode:
  assumes "decode_disk_inode bs = Inr di" and "length bs = 128"
  shows "encode_disk_inode bs di = bs"
proof -
  let ?w = "words_of_bytes 4 31 bs :: u32 list"
  have w: "?w = ?w ! 0 # slice 1 28 ?w @ [?w ! 29, ?w ! 30]"
    by (rule nth_equalityI) (auto simp: nth_Cons nth_append nth_slice less_Suc_eq numeral_eq_Suc split: nat.splits)
  have "bs = take 124 bs @ drop 124 bs" by simp
  then have c: "?w = words_of_bytes 4 31 (take 124 bs)"
    using words_of_bytes_append[of 4 31 "take 124 bs" "drop 124 bs"] assms(2) by simp
  have b: "bytes_of_words 4 ?w = take 124 bs"
    unfolding c using assms(2) by (intro bytes_of_words_of_bytes) simp_all
  have t: "di = \<lparr>di_size = ?w ! 0, di_direct = slice 1 28 ?w, di_indirect1 = ?w ! 29, di_indirect2 = ?w ! 30,
      di_type = (if bs ! 124 = 0 then File else Directory)\<rparr>" "bs ! 124 = 0 \<or> bs ! 124 = 1"
    using assms(1) by (auto simp: decode_disk_inode_def Let_def split: if_splits)
  have "encode_disk_inode bs di = bytes_of_words 4 ?w @ bs ! 124 # drop 125 bs"
    unfolding encode_disk_inode_def t(1) using t(2) w by (auto simp: t(1))
  also have "\<dots> = bs" unfolding b using id_take_nth_drop[of 124 bs] assms(2) by simp
  finally show ?thesis .
qed

lemma overwrite_slice_same: "off + n \<le> length xs \<Longrightarrow> overwrite off (slice off n xs) xs = xs"
  by (rule nth_equalityI) (auto simp: nth_overwrite nth_slice)

context block_device
begin

lemma file_at_wf:
  assumes "geometry ids efs c" and "slot_ok ids efs c inode" and "file_at efs c V inode di"
  shows "inode_wf (ids - set [in_block_id inode]) V di" and "inode_wf ids V di"
proof -
  have "region efs c \<subseteq> ids - set [in_block_id inode]" using assms(1,2) by (auto simp: geometry_def slot_ok_def)
  then show "inode_wf (ids - set [in_block_id inode]) V di"
    using assms(3) allocated_region[of efs c V] by (auto simp: file_at_def intro: inode_wf_mono)
  then show "inode_wf ids V di" by (rule inode_wf_mono) auto
qed

lemma vs_read_disk_inode:
  assumes slot: "slot_ok ids efs c inode" and f: "file_at efs c V inode di" and p: "vs [in_block_id inode] V (f di) Q"
  shows "vs [] V (read_disk_inode bd inode f) Q"
  unfolding read_disk_inode_def DISK_INODE_SZ_def
  by (rule vs_cache_read[where t = di])
    (use slot f p in \<open>auto simp: slot_ok_def file_at_def inode_at_def BLOCK_SZ_def BLOCK_CACHE_SIZE_def\<close>)

lemma vs_Inode_find:
  assumes g: "geometry ids efs c" and slot: "slot_ok ids efs c inode" and f: "file_at efs c V inode di" and ok: "dir_ok V di"
    and Q: "Q (map_option (inode_of efs) (map_of (dir_entries V di) name)) V"
  shows "vs [] V (Inode_find bd efs inode name) Q"
  unfolding Inode_find_def
  by (rule vs_read_disk_inode[OF slot f], rule vs_andthen, rule vs_find_inode_id[OF file_at_wf(1)[OF g slot f] _ ok])
    (use Q in \<open>auto intro!: vs_ret simp: BLOCK_CACHE_SIZE_def inode_of_def[abs_def]\<close>)

lemma vs_Inode_ls:
  assumes g: "geometry ids efs c" and slot: "slot_ok ids efs c inode" and f: "file_at efs c V inode di" and ok: "dir_ok V di"
    and Q: "Q (map fst (dir_entries V di)) V"
  shows "vs [] V (Inode_ls bd inode) Q"
  unfolding Inode_ls_def DIRENT_SZ_def
  by (rule vs_read_disk_inode[OF slot f], rule vs_ls_loop[OF file_at_wf(1)[OF g slot f] _ ok])
    (use Q in \<open>auto simp: BLOCK_CACHE_SIZE_def dir_entries_def\<close>)

text \<open>The lookup at the start of \<^verbatim>\<open>create\<close> goes through \<^verbatim>\<open>modify\<close> and writes the inode back as it was.\<close>

lemma vs_lookup_modify:
  assumes g: "geometry ids efs c" and slot: "slot_ok ids efs c inode" and f: "file_at efs c V inode di" and ok: "dir_ok V di"
    and Q: "Q (map_of (dir_entries V di) name) V"
  shows "vs [] V (modify_disk_inode bd inode (\<lambda>root. andthen (assert_that (is_dir root)) (\<lambda>_.
    andthen (find_inode_id bd name root) (\<lambda>r. ret (r, root))))) Q"
proof (rule vs_sized, rule vs_modify_disk_inode[OF slot])
  let ?b = "in_block_id inode" and ?off = "in_block_offset inode"
  assume sz: "\<And>i. i \<in> ids \<Longrightarrow> length (V i) = BLOCK_SZ"
  have dec: "decode_disk_inode (slice ?off 128 (V ?b)) = Inr di" using f by (simp add: file_at_def inode_at_def)
  have len: "length (V ?b) = 512" "?off + 128 \<le> 512" using slot sz by (simp_all add: slot_ok_def BLOCK_SZ_def)
  have same: "store_inode V inode di = V"
    using len encode_decode_disk_inode[OF dec] by (simp add: store_inode_def overwrite_slice_same)
  show "inode_at V inode = Inr di" using f by (simp add: file_at_def)
  show "vs [?b] V (andthen (assert_that (is_dir di)) (\<lambda>_. andthen (find_inode_id bd name di) (\<lambda>r. ret (r, di))))
    (\<lambda>(r, t) V'. length (di_direct t) = 28 \<and> (length (V' ?b) = 512 \<longrightarrow> Q r (store_inode V' inode t)))"
    by (rule vs_andthen, rule vs_assert_that, use ok in \<open>simp add: dir_ok_def\<close>, rule vs_andthen,
        rule vs_find_inode_id[OF file_at_wf(1)[OF g slot f] _ ok], simp add: BLOCK_CACHE_SIZE_def, rule vs_ret)
      (use Q same decode_direct[OF dec] in simp)
qed

end

section \<open>The inode area\<close>

text \<open>The first \<open>m\<close> inodes have a place of their own, apart from both bitmaps and the data area.\<close>

definition inode_area :: "nat set \<Rightarrow> EasyFileSystem \<Rightarrow> nat \<Rightarrow> nat \<Rightarrow> bool" where
  "inode_area ids efs c m \<longleftrightarrow> geometry ids efs c \<and> m \<le> Bitmap_maximum (inode_bitmap efs) \<and>
     unat (inode_area_start_block efs) + m < 2 ^ 32 \<and>
     bitmap_blocks (inode_bitmap efs) \<subseteq> ids - region efs c - bitmap_blocks (data_bitmap efs) \<and>
     (\<forall>k<m. slot_ok ids efs c (inode_of efs (of_nat k)) \<and> in_block_id (inode_of efs (of_nat k)) \<notin> bitmap_blocks (inode_bitmap efs))"

abbreviation inode_used :: "EasyFileSystem \<Rightarrow> (nat \<Rightarrow> byte list) \<Rightarrow> nat \<Rightarrow> bool" where
  "inode_used efs V k \<equiv> bitmap_bit V (inode_bitmap efs) k"

lemma inode_of_pos:
  assumes "unat (inode_area_start_block efs) + m < 2 ^ 32" and "k < m"
  shows "inode_of efs (of_nat k) = \<lparr>in_block_id = unat (inode_area_start_block efs) + k div 4, in_block_offset = (k mod 4) * 128\<rparr>"
proof -
  have k: "unat (of_nat k :: u32) = k" using assms by (simp add: unsigned_of_nat take_bit_nat_eq_self)
  have d: "(of_nat k :: u32) div 4 = of_nat (k div 4)" by (rule word_unat_eq_iff[THEN iffD2]) (use k assms in \<open>simp add: unat_div unsigned_of_nat take_bit_nat_eq_self\<close>)
  have m: "unat ((of_nat k :: u32) mod 4) = k mod 4" using k by (simp add: unat_mod)
  have "unat (inode_area_start_block efs + of_nat (k div 4)) = unat (inode_area_start_block efs) + k div 4"
    using unat_of_nat_add[of "inode_area_start_block efs" "k div 4"] assms by (simp add: add.commute)
  then show ?thesis
    by (simp add: inode_of_def get_disk_inode_pos_def Inode_new_def BLOCK_SZ_def DISK_INODE_SZ_def d m)
qed

lemma inode_of_apart:
  assumes "unat (inode_area_start_block efs) + m < 2 ^ 32" and "j < m" "k < m" "j \<noteq> k"
  shows "slots_apart (inode_of efs (of_nat j)) (inode_of efs (of_nat k))"
proof -
  have "j div 4 \<noteq> k div 4 \<or> j mod 4 < k mod 4 \<or> k mod 4 < j mod 4" using assms(4) by (metis div_mod_decomp linorder_neqE_nat)
  then show ?thesis by (auto simp: slots_apart_def inode_of_pos[OF assms(1,2)] inode_of_pos[OF assms(1,3)])
qed

text \<open>A file does not depend on inode bitmaps and other inodes.\<close>

lemma file_at_kept:
  assumes g: "geometry ids efs c" and f: "file_at efs c V i e" and at: "inode_at V' i = inode_at V i"
    and same: "\<And>j. j \<in> region efs c \<union> bitmap_blocks (data_bitmap efs) \<Longrightarrow> V' j = V j"
  shows "file_at efs c V' i e" and "file_bytes V' e = file_bytes V e" and "owned V' e = owned V e"
    and "allocated efs c V' = allocated efs c V"
proof -
  have wf: "inode_wf (allocated efs c V) V e" using f by (simp add: file_at_def)
  show al: "allocated efs c V' = allocated efs c V" using same by (intro allocated_cong[OF g]) auto
  have "V' j = V j" if "j \<in> owned V e" for j
    using that inode_wf_owned[OF wf] allocated_region[of efs c V] same by blast
  note k = file_kept[OF wf this]
  show "file_at efs c V' i e" "file_bytes V' e = file_bytes V e" "owned V' e = owned V e"
    using k f at al by (simp_all add: file_at_def)
qed

text \<open>
  From \<open>V\<close> to \<open>V'\<close> inode \<open>k\<close>, the lowest free one, is taken and initialised as an empty file. Nothing else changes.
\<close>

definition inode_taken :: "EasyFileSystem \<Rightarrow> nat \<Rightarrow> (nat \<Rightarrow> byte list) \<Rightarrow> nat \<Rightarrow> (nat \<Rightarrow> byte list) \<Rightarrow> bool" where
  "inode_taken efs m V k V' \<longleftrightarrow> k < m \<and> \<not> inode_used efs V k \<and> (\<forall>j<k. inode_used efs V j) \<and>
     (\<forall>j<m. inode_used efs V' j \<longleftrightarrow> inode_used efs V j \<or> j = k) \<and> inode_at V' (inode_of efs (of_nat k)) = Inr empty_file \<and>
     (\<forall>i. i \<notin> bitmap_blocks (inode_bitmap efs) \<longrightarrow> i \<noteq> in_block_id (inode_of efs (of_nat k)) \<longrightarrow> V' i = V i) \<and>
     (\<forall>i. in_block_id i \<notin> bitmap_blocks (inode_bitmap efs) \<longrightarrow> in_block_offset i + 128 \<le> 512 \<longrightarrow>
        slots_apart (inode_of efs (of_nat k)) i \<longrightarrow> inode_at V' i = inode_at V i)"

lemma DiskInode_initialize_file: "length (di_direct di) = 28 \<Longrightarrow> DiskInode_initialize File di = empty_file"
  by (cases di) (simp add: DiskInode_initialize_def empty_file_def empty_dir_def map_replicate_const)

lemma bitmap_bits_kept:
  assumes "k < Bitmap_maximum bm" and "\<And>i. i \<in> bitmap_blocks bm \<Longrightarrow> V' i = V i"
  shows "bitmap_bit V' bm k = bitmap_bit V bm k"
proof (rule bitmap_bit_cong, rule assms(2))
  have "k div BLOCK_BITS < bm_blocks bm" using assms(1) by (simp add: Bitmap_maximum_def less_mult_imp_div_less)
  then show "k div BLOCK_BITS + start_block_id bm \<in> bitmap_blocks bm" by (simp add: bitmap_blocks_def)
qed

context block_device
begin

lemma vs_alloc_inode:
  assumes a: "inode_area ids efs c m" and free: "f < m" "\<not> inode_used efs V f"
  shows "vs [] V (alloc_inode bd efs :: (('d, 'z) cache_state_scheme, u32) prog) (\<lambda>r V'. \<exists>k<m. r = of_nat k \<and> \<not> inode_used efs V k \<and>
    (\<forall>j<k. inode_used efs V j) \<and> (\<forall>j<m. inode_used efs V' j \<longleftrightarrow> inode_used efs V j \<or> j = k) \<and>
    (\<forall>i. i \<notin> bitmap_blocks (inode_bitmap efs) \<longrightarrow> V' i = V i))"
proof -
  let ?bm = "inode_bitmap efs"
  have m: "m \<le> Bitmap_maximum ?bm" "bitmap_blocks ?bm \<subseteq> ids" using a by (auto simp: inode_area_def)
  have "b + start_block_id ?bm \<in> bitmap_blocks ?bm" if "b < bm_blocks ?bm" for b using that by (simp add: bitmap_blocks_def)
  then have on: "bitmap_on ids [] ?bm" using m(2) by (auto simp: bitmap_on_def BLOCK_CACHE_SIZE_def)
  have post: "\<exists>k<m. r = Some k \<and> \<not> inode_used efs V k \<and> (\<forall>j<k. inode_used efs V j) \<and>
      (\<forall>j<m. inode_used efs V' j \<longleftrightarrow> inode_used efs V j \<or> j = k) \<and> (\<forall>i. i \<notin> bitmap_blocks ?bm \<longrightarrow> V' i = V i)"
    if p: "alloc_post ?bm 0 V r V'" for r V'
  proof (cases r)
    case None
    then show ?thesis using p free m(1) by (simp add: alloc_post_0)
  next
    case (Some k)
    then have k: "k < Bitmap_maximum ?bm" "\<not> inode_used efs V k" "\<forall>j<k. inode_used efs V j"
      "\<forall>j<Bitmap_maximum ?bm. inode_used efs V' j \<longleftrightarrow> inode_used efs V j \<or> j = k"
      "\<forall>i. i \<noteq> k div BLOCK_BITS + start_block_id ?bm \<longrightarrow> V' i = V i" using p by (simp_all add: alloc_post_0)
    have km: "k < m" using k(3) free by (cases "f < k") auto
    have "k div BLOCK_BITS < bm_blocks ?bm" using k(1) by (simp add: Bitmap_maximum_def less_mult_imp_div_less)
    then have "k div BLOCK_BITS + start_block_id ?bm \<in> bitmap_blocks ?bm" by (simp add: bitmap_blocks_def)
    then have "V' i = V i" if "i \<notin> bitmap_blocks ?bm" for i using k(5)[rule_format, of i] that by blast
    moreover have "inode_used efs V' j \<longleftrightarrow> inode_used efs V j \<or> j = k" if "j < m" for j using k(4) that m(1) by simp
    ultimately show ?thesis using Some km k(2,3) by blast
  qed
  show ?thesis
    unfolding alloc_inode_def
    by (rule vs_andthen[OF vs_mono[OF vs_Bitmap_alloc[OF on]]], drule post, elim exE conjE, rule vs_andthen, rule vs_unwrap, assumption, rule vs_ret)
      blast
qed

lemma vs_init_inode:
  assumes slot: "slot_ok ids efs c i" and d: "inode_at V i = Inr d"
    and Q: "length (V (in_block_id i)) = 512 \<Longrightarrow> Q () (store_inode V i empty_file)"
  shows "vs [] V (modify_disk_inode bd i (\<lambda>di. ret ((), DiskInode_initialize File di))) Q"
proof -
  have "length (di_direct d) = 28" using d unfolding inode_at_def by (rule decode_direct)
  then have "DiskInode_initialize File d = empty_file" by (rule DiskInode_initialize_file)
  then show ?thesis using Q by (intro vs_modify_disk_inode[OF slot d] vs_ret) (simp add: empty_file_def empty_dir_def)
qed

text \<open>Allocation and initialisation of the new inode.\<close>

lemma vs_take_inode:
  assumes a: "inode_area ids efs c m" and free: "f < m" "\<not> inode_used efs V f"
    and valid: "\<forall>k<m. \<not> inode_used efs V k \<longrightarrow> (\<exists>d. inode_at V (inode_of efs (of_nat k)) = Inr d)"
    and Q: "\<And>k V'. inode_taken efs m V k V' \<Longrightarrow> Q (of_nat k) V'"
  shows "vs [] V (alloc_inode bd efs) (\<lambda>id V1. vs [] V1 (modify_disk_inode bd (inode_of efs id) (\<lambda>di. ret ((), DiskInode_initialize File di))) (\<lambda>_. Q id))"
proof (rule vs_mono[OF vs_alloc_inode[OF a free]], elim exE conjE)
  fix id :: u32 and V1 k
  let ?i = "inode_of efs (of_nat k)" and ?bm = "inode_bitmap efs"
  assume k: "k < m" and id: "id = of_nat k" and un: "\<not> inode_used efs V k" and low: "\<forall>j<k. inode_used efs V j"
    and bits: "\<forall>j<m. inode_used efs V1 j \<longleftrightarrow> inode_used efs V j \<or> j = k" and same: "\<forall>i. i \<notin> bitmap_blocks ?bm \<longrightarrow> V1 i = V i"
  have slot: "slot_ok ids efs c ?i" and nb: "in_block_id ?i \<notin> bitmap_blocks ?bm" and m: "m \<le> Bitmap_maximum ?bm"
    using a k by (auto simp: inode_area_def)
  obtain d where "inode_at V ?i = Inr d" using valid k un by blast
  then have d: "inode_at V1 ?i = Inr d" using same nb by (simp add: inode_at_def)
  show "vs [] V1 (modify_disk_inode bd (inode_of efs id) (\<lambda>di. ret ((), DiskInode_initialize File di))) (\<lambda>_. Q id)"
    unfolding id
  proof (rule vs_init_inode[OF slot d], rule Q)
    assume len: "length (V1 (in_block_id ?i)) = 512"
    have off: "in_block_offset ?i + 128 \<le> 512" using slot by (simp add: slot_ok_def)
    have e: "length (di_direct empty_file) = 28" by (simp add: empty_file_def empty_dir_def)
    note st = inode_at_store[of V1 ?i empty_file, OF len off e]
    have "inode_used efs (store_inode V1 ?i empty_file) j = inode_used efs V1 j" if "j < m" for j
      by (rule bitmap_bits_kept) (use that m nb in \<open>auto simp: store_inode_def\<close>)
    then show "inode_taken efs m V k (store_inode V1 ?i empty_file)"
      unfolding inode_taken_def using k un low bits same st nb by (auto simp: store_inode_other inode_at_def)
  qed
qed

end

section \<open>Adding an entry\<close>

lemma patched_append: "patched old (length old) buf new \<Longrightarrow> new = old @ buf"
  using append_take_drop_id[of "length old" new] nth_take_lemma[of "length old" new old]
  by (auto simp: patched_def slice_def)

lemma dir_append:
  assumes ok: "dir_ok V di" and ty: "di_type di' = di_type di" and bytes: "file_bytes V' di' = file_bytes V di @ DirEntry_as_bytes de"
    and de: "length (de_name de) = 28" "DirEntry_name de = Inr name"
  shows "dir_ok V' di'" and "dir_entries V' di' = dir_entries V di @ [(name, de_inode_number de)]"
proof -
  let ?n = "unat (di_size di) div 32"
  have sz: "unat (di_size di) = 32 * ?n" using ok mult_div_mod_eq[of 32 "unat (di_size di)"] by (simp add: dir_ok_def)
  have "length (file_bytes V' di') = length (file_bytes V di) + 32" using de(1) by (simp add: bytes DIRENT_SZ_def)
  then have sz': "unat (di_size di') = 32 * Suc ?n" using sz by simp
  have old: "dirent_at V' di' i = dirent_at V di i" if "i < ?n" for i
  proof -
    have "32 * i + 32 \<le> length (file_bytes V di)" using that entry_in_file by simp
    then have "slice (32 * i) 32 (file_bytes V' di') = slice (32 * i) 32 (file_bytes V di)" by (simp add: bytes slice_def)
    then show ?thesis by (simp add: dirent_at_def)
  qed
  have "slice (32 * ?n) 32 (file_bytes V' di') = DirEntry_as_bytes de"
    using sz de(1) by (simp add: bytes slice_def DIRENT_SZ_def)
  then have new: "dirent_at V' di' ?n = de" using de(1) by (simp add: dirent_at_def)
  show "dir_ok V' di'"
    using ok ty old new de(2) sz' by (auto simp: dir_ok_def is_dir_def less_Suc_eq)
  show "dir_entries V' di' = dir_entries V di @ [(name, de_inode_number de)]"
    using old new de(2) sz' by (simp add: dir_entries_def entries_of_def)
qed

lemma andthen_lift_res [simp]: "andthen (lift_res (Inr x)) f = f x"
  by (rule ext) (simp add: andthen_def lift_res_def ret_def)

context block_device
begin

lemma vs_add_entry:
  assumes g: "geometry ids efs c" and slot: "slot_ok ids efs c inode" and f: "file_at efs c V inode di" and ok: "dir_ok V di"
    and de: "DirEntry_new name ino = Inr de" "length (de_name de) = 28" and sz: "unat (di_size di) + 32 \<le> 16540 * 512"
    and room: "blocks_for (unat (data_blocks_of (of_nat (unat (di_size di) + 32)))) \<le>
      blocks_for (unat (data_blocks di)) + card (region efs c - allocated efs c V)"
    and Q: "\<And>V' di'. di_type di' = di_type di \<Longrightarrow> only_file_changed ids efs c V inode di V' di' \<Longrightarrow>
      file_bytes V' di' = file_bytes V di @ DirEntry_as_bytes de \<Longrightarrow> Q () V'"
  shows "vs [] V (modify_disk_inode bd inode (\<lambda>root_inode.
         let file_count = unat (di_size root_inode) div DIRENT_SZ;
             new_size = (file_count + 1) * DIRENT_SZ in
         andthen (Inode_increase_size bd efs (of_nat new_size) root_inode) (\<lambda>root_inode'.
         andthen (lift_res (DirEntry_new name ino)) (\<lambda>dirent.
         andthen (DiskInode_write_at bd root_inode' (file_count * DIRENT_SZ) (DirEntry_as_bytes dirent)) (\<lambda>_.
         ret ((), root_inode')))))) Q"
proof -
  let ?buf = "DirEntry_as_bytes de" and ?sz = "unat (di_size di)"
  have at: "inode_at V inode = Inr di" using f by (simp add: file_at_def)
  have len: "length ?buf = 32" using de(2) by (simp add: DIRENT_SZ_def)
  have cnt: "?sz div DIRENT_SZ * DIRENT_SZ = ?sz" "(?sz div DIRENT_SZ + 1) * DIRENT_SZ = ?sz + length ?buf"
    using ok len by (auto simp: dir_ok_def DIRENT_SZ_def)
  have ne: "?buf \<noteq> []" using len by auto
  have body: "vs [in_block_id inode] V (andthen (Inode_increase_size bd efs (of_nat (?sz + length ?buf)) di) (\<lambda>di'.
       andthen (DiskInode_write_at bd di' ?sz ?buf) (\<lambda>n. ret ((), di'))) :: (('d, 'z) cache_state_scheme, unit \<times> DiskInode) prog)
    (\<lambda>(r, di') V'. length (di_direct di') = 28 \<and> (length (V' (in_block_id inode)) = 512 \<longrightarrow> r = () \<and> di_type di' = di_type di \<and>
       only_file_changed ids efs c V inode di (store_inode V' inode di') di' \<and>
       patched (file_bytes V di) ?sz ?buf (file_bytes (store_inode V' inode di') di')))"
    by (rule vs_write_body[OF g slot f ne]) (use sz room len in simp_all)
  show ?thesis
    by (rule vs_modify_disk_inode[OF slot at]) (simp only: Let_def cnt de(1) andthen_lift_res, rule vs_mono[OF body],
      auto intro!: Q dest!: patched_append[of "file_bytes V di", unfolded length_file_bytes])
qed

end

text \<open>
  The effect of \<^verbatim>\<open>create\<close> in the directory with inode number \<open>r\<close>: the lowest free inode \<open>k\<close> becomes an empty file, the
  directory gets one more entry, and every other file in use keeps its inode and its contents.
\<close>

definition entry_created ::
    "EasyFileSystem \<Rightarrow> nat \<Rightarrow> nat \<Rightarrow> (nat \<Rightarrow> byte list) \<Rightarrow> nat \<Rightarrow> DiskInode \<Rightarrow> byte list \<Rightarrow> nat \<Rightarrow> (nat \<Rightarrow> byte list) \<Rightarrow> DiskInode \<Rightarrow> bool" where
  "entry_created efs c m V r di name k V' di' \<longleftrightarrow>
     k < m \<and> \<not> inode_used efs V k \<and> (\<forall>j<k. inode_used efs V j) \<and> (\<forall>j<m. inode_used efs V' j \<longleftrightarrow> inode_used efs V j \<or> j = k) \<and>
     file_at efs c V' (inode_of efs (of_nat k)) empty_file \<and> file_at efs c V' (inode_of efs (of_nat r)) di' \<and> dir_ok V' di' \<and>
     dir_entries V' di' = dir_entries V di @ [(name, of_nat k)] \<and>
     (\<forall>j<m. \<forall>e. inode_used efs V j \<longrightarrow> j \<noteq> r \<longrightarrow> file_at efs c V (inode_of efs (of_nat j)) e \<longrightarrow> owned V di \<inter> owned V e = {} \<longrightarrow>
        file_at efs c V' (inode_of efs (of_nat j)) e \<and> file_bytes V' e = file_bytes V e)"

lemma inode_taken_keeps:
  assumes a: "inode_area ids efs c m" and t: "inode_taken efs m V k V'" and j: "j < m" "j \<noteq> k"
    and f: "file_at efs c V (inode_of efs (of_nat j)) e"
  shows "file_at efs c V' (inode_of efs (of_nat j)) e" and "file_bytes V' e = file_bytes V e" and "owned V' e = owned V e"
    and "allocated efs c V' = allocated efs c V"
proof -
  have k: "k < m" using t by (simp add: inode_taken_def)
  have slots: "slot_ok ids efs c (inode_of efs (of_nat i))" "in_block_id (inode_of efs (of_nat i)) \<notin> bitmap_blocks (inode_bitmap efs)" if "i < m" for i
    using a that by (simp_all add: inode_area_def)
  have ap: "slots_apart (inode_of efs (of_nat k)) (inode_of efs (of_nat j))"
    using a k j by (intro inode_of_apart[of efs m]) (auto simp: inode_area_def)
  have at: "inode_at V' (inode_of efs (of_nat j)) = inode_at V (inode_of efs (of_nat j))"
    using t slots[OF j(1)] ap by (simp add: inode_taken_def slot_ok_def)
  have same: "V' i = V i" if "i \<in> region efs c \<union> bitmap_blocks (data_bitmap efs)" for i
  proof -
    have "i \<notin> bitmap_blocks (inode_bitmap efs)" using a that by (auto simp: inode_area_def)
    moreover have "i \<noteq> in_block_id (inode_of efs (of_nat k))" using slots(1)[OF k] that by (auto simp: slot_ok_def)
    ultimately show ?thesis using t by (simp add: inode_taken_def)
  qed
  have g: "geometry ids efs c" using a by (simp add: inode_area_def)
  show "file_at efs c V' (inode_of efs (of_nat j)) e" "file_bytes V' e = file_bytes V e" "owned V' e = owned V e"
    "allocated efs c V' = allocated efs c V"
    using file_at_kept[OF g f at same] by blast+
qed

lemma empty_file_owned: "owned V empty_file = {}"
  unfolding owned_def empty_file_blocks by (simp add: table_ids_def data_ids_def)

lemma entry_createdI:
  assumes a: "inode_area ids efs c m" and r: "r < m" "inode_used efs V r" and f: "file_at efs c V (inode_of efs (of_nat r)) di" and ok: "dir_ok V di"
    and t: "inode_taken efs m V k V2" and ch: "only_file_changed ids efs c V2 (inode_of efs (of_nat r)) di V' di'"
    and ty: "di_type di' = di_type di" and bytes: "file_bytes V' di' = file_bytes V2 di @ DirEntry_as_bytes de"
    and de: "length (de_name de) = 28" "DirEntry_name de = Inr name" "de_inode_number de = of_nat k"
  shows "entry_created efs c m V r di name k V' di'"
proof -
  let ?i = "\<lambda>j. inode_of efs (of_nat j)"
  have k: "k < m" "\<not> inode_used efs V k" "r \<noteq> k" using t r(2) by (auto simp: inode_taken_def)
  have slots: "slot_ok ids efs c (?i j)" "in_block_id (?i j) \<notin> bitmap_blocks (inode_bitmap efs)" if "j < m" for j
    using a that by (simp_all add: inode_area_def)
  note root = inode_taken_keeps[OF a t r(1) k(3) f]
  have ap: "apart V2 (?i r, di) (?i j, e)" if "j < m" "j \<noteq> r" "owned V2 di \<inter> owned V2 e = {}" for j e
    using a r(1) that inode_of_apart[of efs m r j] by (simp add: apart_def inode_area_def)
  have new: "file_at efs c V2 (?i k) empty_file"
    using t empty_file_wf by (simp add: inode_taken_def file_at_def)
  have keep: "file_at efs c V' (?i j) e \<and> file_bytes V' e = file_bytes V2 e"
    if "j < m" "j \<noteq> r" "file_at efs c V2 (?i j) e" "owned V2 di \<inter> owned V2 e = {}" for j e
    using ch that slots(1)[OF that(1)] ap[OF that(1,2,4)] by (simp add: only_file_changed_def)
  have used: "inode_used efs V' j = inode_used efs V2 j" if "j < m" for j
  proof (rule bitmap_bits_kept)
    show "j < Bitmap_maximum (inode_bitmap efs)" using a that by (simp add: inode_area_def)
    show "V' i = V2 i" if "i \<in> bitmap_blocks (inode_bitmap efs)" for i
      using a ch that slots(2)[OF r(1)] by (auto simp: inode_area_def only_file_changed_def)
  qed
  have ok2: "dir_ok V2 di" "dir_entries V2 di = dir_entries V di" using dir_cong[OF root(2)] ok by simp_all
  have other: "file_at efs c V' (?i j) e \<and> file_bytes V' e = file_bytes V e"
    if j: "j < m" "inode_used efs V j" "j \<noteq> r" "file_at efs c V (?i j) e" "owned V di \<inter> owned V e = {}" for j e
  proof -
    have "j \<noteq> k" using j(2) k(2) by blast
    note mid = inode_taken_keeps[OF a t j(1) this j(4)]
    show ?thesis using keep[OF j(1,3) mid(1)] mid(2,3) root(3) j(5) by simp
  qed
  show ?thesis
    unfolding entry_created_def
  proof (intro conjI allI impI)
    show "file_at efs c V' (?i k) empty_file" using keep[OF k(1) k(3)[symmetric] new] by (simp add: empty_file_owned)
    show "file_at efs c V' (?i r) di'" using ch by (simp add: only_file_changed_def)
    show "dir_ok V' di'" "dir_entries V' di' = dir_entries V di @ [(name, of_nat k)]"
      using dir_append[OF ok2(1) ty bytes de(1,2)] ok2(2) de(3) by simp_all
  qed (use t used other in \<open>auto simp: inode_taken_def\<close>)
qed

section \<open>Creation\<close>

lemma DirEntry_new_ok:
  assumes "0 \<notin> set name" and "length name \<le> 27" and "valid_utf8 name"
  shows "\<exists>de. DirEntry_new name ino = Inr de \<and> length (de_name de) = 28 \<and> DirEntry_name de = Inr name \<and> de_inode_number de = ino"
proof -
  obtain de where de: "DirEntry_new name ino = Inr de" using assms(2) by (simp add: DirEntry_new_def layout_consts)
  then have "length (de_name de) = 28" "de_inode_number de = ino" by (auto simp: DirEntry_new_def layout_consts split: if_splits)
  then show ?thesis using de DirEntry_new_name[OF de assms(1,2)] assms(3) by simp
qed

text \<open>What \<^verbatim>\<open>create\<close> needs: a directory, a free inode, room for one more entry, and valid types in the free inodes.\<close>

definition can_create :: "nat set \<Rightarrow> EasyFileSystem \<Rightarrow> nat \<Rightarrow> nat \<Rightarrow> (nat \<Rightarrow> byte list) \<Rightarrow> nat \<Rightarrow> DiskInode \<Rightarrow> bool" where
  "can_create ids efs c m V r di \<longleftrightarrow> inode_area ids efs c m \<and> r < m \<and> inode_used efs V r \<and>
     file_at efs c V (inode_of efs (of_nat r)) di \<and> dir_ok V di \<and> (\<exists>f<m. \<not> inode_used efs V f) \<and>
     (\<forall>k<m. \<not> inode_used efs V k \<longrightarrow> (\<exists>d. inode_at V (inode_of efs (of_nat k)) = Inr d)) \<and>
     unat (di_size di) + 32 \<le> 16540 * 512 \<and>
     blocks_for (unat (data_blocks_of (of_nat (unat (di_size di) + 32)))) \<le>
       blocks_for (unat (data_blocks di)) + card (region efs c - allocated efs c V)"

lemma new_inode_prog:
  "(case get_disk_inode_pos efs ino of (b, off) \<Rightarrow> andthen (modify_inode_at bd b off f) (\<lambda>_. andthen p (\<lambda>_. andthen q (\<lambda>_. ret (Some (Inode_new b off)))))) =
   andthen (modify_disk_inode bd (inode_of efs ino) f) (\<lambda>_. andthen p (\<lambda>_. andthen q (\<lambda>_. ret (Some (inode_of efs ino)))))"
  by (simp add: modify_inode_at_def modify_disk_inode_def inode_of_def Inode_new_def split: prod.split)

context block_device
begin

lemma vs_Inode_create:
  assumes can: "can_create ids efs c m V r di" and name: "0 \<notin> set name" "length name \<le> 27" "valid_utf8 name"
    and old: "name \<in> fst ` set (dir_entries V di) \<Longrightarrow> Q None V"
    and new: "\<And>k V' di'. name \<notin> fst ` set (dir_entries V di) \<Longrightarrow> entry_created efs c m V r di name k V' di' \<Longrightarrow> Q (Some (inode_of efs (of_nat k))) V'"
  shows "vs [] V (Inode_create bd efs (inode_of efs (of_nat r)) name :: (('d, 'z) cache_state_scheme, Inode option) prog) Q"
proof -
  let ?root = "inode_of efs (of_nat r)"
  have a: "inode_area ids efs c m" and r: "r < m" "inode_used efs V r" and f: "file_at efs c V ?root di" and ok: "dir_ok V di"
    and sz: "unat (di_size di) + 32 \<le> 16540 * 512"
    and room: "blocks_for (unat (data_blocks_of (of_nat (unat (di_size di) + 32)))) \<le>
       blocks_for (unat (data_blocks di)) + card (region efs c - allocated efs c V)"
    and valid: "\<forall>k<m. \<not> inode_used efs V k \<longrightarrow> (\<exists>d. inode_at V (inode_of efs (of_nat k)) = Inr d)"
    using can by (simp_all add: can_create_def)
  obtain fr where fr: "fr < m" "\<not> inode_used efs V fr" using can by (auto simp: can_create_def)
  have g: "geometry ids efs c" and slot: "slot_ok ids efs c ?root" using a r(1) by (simp_all add: inode_area_def)
  have found: "map_of (dir_entries V di) name = None \<longleftrightarrow> name \<notin> fst ` set (dir_entries V di)" by (rule map_of_eq_None_iff)
  have entry: "vs [] V2 (modify_disk_inode bd ?root (\<lambda>root_inode.
         let file_count = unat (di_size root_inode) div DIRENT_SZ; new_size = (file_count + 1) * DIRENT_SZ in
         andthen (Inode_increase_size bd efs (of_nat new_size) root_inode) (\<lambda>root_inode'.
         andthen (lift_res (DirEntry_new name (of_nat k))) (\<lambda>dirent.
         andthen (DiskInode_write_at bd root_inode' (file_count * DIRENT_SZ) (DirEntry_as_bytes dirent)) (\<lambda>_. ret ((), root_inode')))))
         :: (('d, 'z) cache_state_scheme, unit) prog)
      (\<lambda>_ V'. \<exists>di'. entry_created efs c m V r di name k V' di')"
    if t: "inode_taken efs m V k V2" for k V2
  proof -
    have "r \<noteq> k" using t r(2) by (auto simp: inode_taken_def)
    note root = inode_taken_keeps[OF a t r(1) this f]
    obtain de where de: "DirEntry_new name (of_nat k) = Inr de" "length (de_name de) = 28" "DirEntry_name de = Inr name" "de_inode_number de = of_nat k"
      using DirEntry_new_ok[OF name] by blast
    have "dir_ok V2 di" using dir_cong[OF root(2)] ok by simp
    then show ?thesis
      using room unfolding root(4)[symmetric]
      by (intro vs_add_entry[OF g slot root(1) _ de(1,2) sz]) (auto intro: entry_createdI[OF a r f ok t _ _ _ de(2-4)])
  qed
  show ?thesis
    unfolding Inode_create_def new_inode_prog
  proof (rule vs_andthen, rule vs_lookup_modify[OF g slot f ok], split if_split, intro conjI impI)
    assume "map_of (dir_entries V di) name \<noteq> None"
    then show "vs [] V (ret None) Q" using found old by (auto intro: vs_ret)
  next
    assume "\<not> map_of (dir_entries V di) name \<noteq> None"
    then have fresh: "name \<notin> fst ` set (dir_entries V di)" using found by simp
    show "vs [] V (andthen (alloc_inode bd efs) (\<lambda>ino.
        andthen (modify_disk_inode bd (inode_of efs ino) (\<lambda>new_inode. ret ((), DiskInode_initialize File new_inode))) (\<lambda>_.
        andthen (modify_disk_inode bd ?root (\<lambda>root_inode.
         let file_count = unat (di_size root_inode) div DIRENT_SZ; new_size = (file_count + 1) * DIRENT_SZ in
         andthen (Inode_increase_size bd efs (of_nat new_size) root_inode) (\<lambda>root_inode'.
         andthen (lift_res (DirEntry_new name ino)) (\<lambda>dirent.
         andthen (DiskInode_write_at bd root_inode' (file_count * DIRENT_SZ) (DirEntry_as_bytes dirent)) (\<lambda>_. ret ((), root_inode'))))))
        (\<lambda>_. andthen (block_cache_sync_all bd) (\<lambda>_. ret (Some (inode_of efs ino)))))) :: (('d, 'z) cache_state_scheme, Inode option) prog) Q"
      by (rule vs_andthen, rule vs_mono[OF vs_take_inode[OF a fr valid, where Q = "\<lambda>ino V2. \<exists>k. ino = of_nat k \<and> inode_taken efs m V k V2"]],
          blast, rule vs_andthen, erule vs_mono, elim exE conjE, hypsubst, rule vs_andthen, rule vs_mono[OF entry], assumption,
          elim exE, rule vs_andthen, rule vs_sync_all, rule vs_ret, rule new[OF fresh])
  qed
qed

end

section \<open>Properties\<close>

text \<open>
  C40: directories are association lists. Creating a name that the directory has returns nothing and leaves the disk as it is.
  Creating a new name of at most 27 bytes takes the lowest free inode as an empty file, appends one entry to the directory and
  keeps every other file; afterwards \<^verbatim>\<open>find\<close> of any name returns the inode of its first entry, the new file for the new name, and
  \<^verbatim>\<open>ls\<close> lists the old names and the new one.
\<close>

theorem Inode_create_find_ls:
  assumes "block_device bd disk ids dinv" and "cache_inv disk ids dinv s" and "held s = []"
    and "can_create ids efs c m (disk_view disk s) r di" and "0 \<notin> set name" and "length name \<le> 27" and "valid_utf8 name"
  defines "root \<equiv> inode_of efs (of_nat r)" and "entries \<equiv> dir_entries (disk_view disk s) di"
  shows "if name \<in> fst ` set entries
    then \<exists>s'. Inode_create bd efs root name s = Inr (None, s') \<and> disk_view disk s' = disk_view disk s
    else \<exists>k s' di'. Inode_create bd efs root name s = Inr (Some (inode_of efs (of_nat k)), s') \<and> cache_inv disk ids dinv s' \<and> held s' = [] \<and>
      entry_created efs c m (disk_view disk s) r di name k (disk_view disk s') di' \<and>
      (\<forall>nm. \<exists>t. Inode_find bd efs root nm s' = Inr (map_option (inode_of efs) (map_of (entries @ [(name, of_nat k)]) nm), t)) \<and>
      (\<exists>t. Inode_ls bd root s' = Inr (map fst entries @ [name], t))"
proof -
  let ?V = "disk_view disk s"
  let ?Q = "\<lambda>r' V'. if name \<in> fst ` set entries then r' = None \<and> V' = ?V
     else \<exists>k di'. r' = Some (inode_of efs (of_nat k)) \<and> entry_created efs c m ?V r di name k V' di'"
  have g: "geometry ids efs c" and slot: "slot_ok ids efs c root"
    using assms(4) by (simp_all add: can_create_def inode_area_def root_def)
  have "vspec disk ids dinv (held s) ?V (Inode_create bd efs root name) ?Q"
    unfolding assms(3) root_def by (rule block_device.vs_Inode_create[OF assms(1,4-7)]) (auto simp: entries_def)
  from vspec_run[OF this assms(2)] obtain r' s' where
    s': "Inode_create bd efs root name s = Inr (r', s')" "cache_inv disk ids dinv s'" "held s' = []" "?Q r' (disk_view disk s')"
    using assms(3) by auto
  show ?thesis
  proof (cases "name \<in> fst ` set entries")
    case True
    then show ?thesis using s' by simp
  next
    case False
    then obtain k di' where k: "r' = Some (inode_of efs (of_nat k))" "entry_created efs c m ?V r di name k (disk_view disk s') di'"
      using s'(4) by auto
    then have f: "file_at efs c (disk_view disk s') root di'" "dir_ok (disk_view disk s') di'"
      "dir_entries (disk_view disk s') di' = entries @ [(name, of_nat k)]" by (simp_all add: entry_created_def root_def entries_def)
    have "\<exists>t. Inode_find bd efs root nm s' = Inr (map_option (inode_of efs) (map_of (entries @ [(name, of_nat k)]) nm), t)" for nm
    proof -
      have "vspec disk ids dinv (held s') (disk_view disk s') (Inode_find bd efs root nm)
          (\<lambda>x _. x = map_option (inode_of efs) (map_of (entries @ [(name, of_nat k)]) nm))"
        unfolding s'(3) by (rule block_device.vs_Inode_find[OF assms(1) g slot f(1,2)]) (simp add: f(3))
      from vspec_run[OF this s'(2)] show ?thesis by auto
    qed
    moreover have "vspec disk ids dinv (held s') (disk_view disk s') (Inode_ls bd root) (\<lambda>x _. x = map fst entries @ [name])"
      unfolding s'(3) by (rule block_device.vs_Inode_ls[OF assms(1) g slot f(1,2)]) (simp add: f(3))
    from vspec_run[OF this s'(2)] have "\<exists>t. Inode_ls bd root s' = Inr (map fst entries @ [name], t)" by auto
    ultimately show ?thesis using False s'(1-3) k by auto
  qed
qed

text \<open>A file system of 1100 blocks: 4096 inodes from block 2 on and 73 data blocks from block 1027 on.\<close>

definition small_efs :: EasyFileSystem where
  "small_efs = \<lparr>inode_bitmap = Bitmap_new 1 1, data_bitmap = Bitmap_new 1026 1, inode_area_start_block = 2, data_area_start_block = 1027\<rparr>"

lemma small_layout: "fst (create_layout 1100 1) = small_efs"
  by (simp add: create_layout_def small_efs_def Let_def Bitmap_maximum_def Bitmap_new_def BLOCK_BITS_def BLOCK_SZ_def DISK_INODE_SZ_def)

lemma small_inode: "k < 4096 \<Longrightarrow> inode_of small_efs (of_nat k) = \<lparr>in_block_id = 2 + k div 4, in_block_offset = (k mod 4) * 128\<rparr>"
  using inode_of_pos[of small_efs 4096 k] by (simp add: small_efs_def)

lemma small_area: "inode_area {..<1100} small_efs 73 4096"
proof -
  have g: "geometry {..<1100} small_efs 73"
    by (auto simp: geometry_def small_efs_def region_def data_base_def bitmap_blocks_def Bitmap_new_def Bitmap_maximum_def
        BLOCK_BITS_def BLOCK_SZ_def)
  have bm: "bitmap_blocks (inode_bitmap small_efs) = {1}" "region small_efs 73 = {1027..<1100}" "bitmap_blocks (data_bitmap small_efs) = {1026}"
    by (auto simp: bitmap_blocks_def region_def data_base_def small_efs_def Bitmap_new_def)
  have slot: "slot_ok {..<1100} small_efs 73 (inode_of small_efs (of_nat k)) \<and>
      in_block_id (inode_of small_efs (of_nat k)) \<notin> bitmap_blocks (inode_bitmap small_efs)" if "k < 4096" for k
  proof -
    have "k div 4 < 1024" "k mod 4 * 128 + 128 \<le> 512" using that by auto
    then show ?thesis by (simp add: small_inode[OF that] slot_ok_def bm)
  qed
  show ?thesis
    using g slot by (simp add: inode_area_def bm) (simp add: small_efs_def Bitmap_new_def Bitmap_maximum_def BLOCK_BITS_def BLOCK_SZ_def)
qed

lemma formatted_can_create:
  assumes "formatted small_efs sb 1100 V"
  shows "can_create {..<1100} small_efs 73 4096 V 0 empty_dir" and "dir_entries V empty_dir = []"
proof -
  have root: "root_inode small_efs = inode_of small_efs (of_nat 0)" by (simp add: root_inode_def inode_of_def)
  have pos: "inode_of small_efs (of_nat 0) = \<lparr>in_block_id = 2, in_block_offset = 0\<rparr>" using small_inode[of 0] by simp
  have f: "inode_at V (inode_of small_efs (of_nat 0)) = Inr empty_dir" "drop 128 (V 2) = replicate 384 0"
      "\<forall>k<4096. inode_used small_efs V k \<longleftrightarrow> k = 0" "\<forall>i<1100. i \<noteq> 0 \<longrightarrow> i \<noteq> 1 \<longrightarrow> i \<noteq> 2 \<longrightarrow> V i = replicate 512 0"
    using assms unfolding formatted_def root pos by (simp_all add: small_efs_def Bitmap_new_def Bitmap_maximum_def BLOCK_BITS_def BLOCK_SZ_def)
  have "\<not> bitmap_bit V (data_bitmap small_efs) k" if "k < 73" for k
    by (rule bitmap_bit_zero) (use f(4) that in \<open>simp add: small_efs_def Bitmap_new_def BLOCK_BITS_def BLOCK_SZ_def\<close>)
  then have al: "allocated small_efs 73 V = {}" by (auto simp: allocated_def region_def)
  have n: "unat (data_blocks empty_dir) = 0" by (simp add: data_blocks_def unat_data_blocks_of empty_dir_def)
  have wf: "inode_wf A V empty_dir" for A
    unfolding inode_wf_def inode_ok_def n by (simp add: empty_dir_def table_ids_def data_ids_def)
  have valid: "inode_at V (inode_of small_efs (of_nat k)) = Inr empty_file" if k: "k < 4096" "k \<noteq> 0" for k
  proof -
    have "slice (k mod 4 * 128) 128 (V (2 + k div 4)) = replicate 128 0"
    proof (cases "k div 4 = 0")
      case True
      then obtain i where i: "k mod 4 * 128 = 128 + i" "i + 128 \<le> 384" using k(2) that
        by (intro that[of "(k mod 4 - 1) * 128"]) (auto simp: div_eq_0_iff)
      have "drop (128 + i) (V 2) = drop i (drop 128 (V 2))" by (simp add: add.commute)
      then have "slice (128 + i) 128 (V 2) = replicate 128 0" using i(2) by (simp add: slice_def f(2))
      then show ?thesis using True i(1) by simp
    next
      case False
      then show ?thesis using f(4) k(1) by (simp add: less_mult_imp_div_less)
    qed
    then show ?thesis using decode_zeros by (simp add: inode_at_def small_inode[OF k(1)])
  qed
  have "(1 :: nat) < 4096" by simp
  then have free: "\<exists>k<4096. \<not> inode_used small_efs V k" using f(3) by (metis zero_neq_one)
  have size: "di_size empty_dir = 0" "is_dir empty_dir" by (simp_all add: empty_dir_def is_dir_def)
  show "can_create {..<1100} small_efs 73 4096 V 0 empty_dir"
    unfolding can_create_def al n
    using small_area f(1,3) wf valid free size
    by (auto simp: file_at_def dir_ok_def region_def blocks_for_def unat_data_blocks_of)
  show "dir_entries V empty_dir = []" by (simp add: dir_entries_def entries_of_def size)
qed

theorem Inode_create_find_ls_witness:
  "\<exists>s efs k s' di' t.
     EasyFileSystem_create BlockFile 1100 1 (fresh_image 1100) = Inr (efs, s) \<and>
     can_create {..<1100} efs 73 4096 (disk_view file_block s) 0 empty_dir \<and>
     Inode_create BlockFile efs (inode_of efs (of_nat 0)) [97] s = Inr (Some (inode_of efs (of_nat k)), s') \<and>
     entry_created efs 73 4096 (disk_view file_block s) 0 empty_dir [97] k (disk_view file_block s') di' \<and>
     Inode_find BlockFile efs (inode_of efs (of_nat 0)) [97] s' = Inr (Some (inode_of efs (of_nat k)), t)"
proof -
  let ?inv = "cache_inv file_block {..<1100} (\<lambda>f. length f = 1100 * 512)"
  obtain sb where lay: "create_layout 1100 1 = (small_efs, sb)" using small_layout by (metis prod.collapse)
  have "wp (EasyFileSystem_create BlockFile 1100 1) (\<lambda>r s'. r = small_efs \<and> ?inv s' \<and> held s' = [] \<and>
      disk_view file_block s' = file_block (device s') \<and> formatted small_efs sb (unat (1100 :: u32)) (file_block (device s'))) (fresh_image 1100)"
    by (rule block_device.create_ok[OF bf.block_device_axioms _ _ _ lay fresh_image_inv]) (simp_all add: fresh_image_def)
  then obtain s where s: "EasyFileSystem_create BlockFile 1100 1 (fresh_image 1100) = Inr (small_efs, s)" "?inv s" "held s = []"
      "formatted small_efs sb 1100 (disk_view file_block s)" by (auto simp: wp_runs)
  note can = formatted_can_create[OF s(4)]
  have "if [97] \<in> fst ` set (dir_entries (disk_view file_block s) empty_dir)
    then \<exists>s'. Inode_create BlockFile small_efs (inode_of small_efs (of_nat 0)) [97] s = Inr (None, s') \<and> disk_view file_block s' = disk_view file_block s
    else \<exists>k s' di'. Inode_create BlockFile small_efs (inode_of small_efs (of_nat 0)) [97] s = Inr (Some (inode_of small_efs (of_nat k)), s') \<and>
      ?inv s' \<and> held s' = [] \<and> entry_created small_efs 73 4096 (disk_view file_block s) 0 empty_dir [97] k (disk_view file_block s') di' \<and>
      (\<forall>nm. \<exists>t. Inode_find BlockFile small_efs (inode_of small_efs (of_nat 0)) nm s' = Inr (map_option (inode_of small_efs)
         (map_of (dir_entries (disk_view file_block s) empty_dir @ [([97], of_nat k)]) nm), t)) \<and>
      (\<exists>t. Inode_ls BlockFile (inode_of small_efs (of_nat 0)) s' = Inr (map fst (dir_entries (disk_view file_block s) empty_dir) @ [[97]], t))"
    by (rule Inode_create_find_ls[OF bf.block_device_axioms s(2,3) can(1)]) simp_all
  then obtain k s' di' where k: "Inode_create BlockFile small_efs (inode_of small_efs (of_nat 0)) [97] s = Inr (Some (inode_of small_efs (of_nat k)), s')"
      "entry_created small_efs 73 4096 (disk_view file_block s) 0 empty_dir [97] k (disk_view file_block s') di'"
      "\<forall>nm. \<exists>t. Inode_find BlockFile small_efs (inode_of small_efs (of_nat 0)) nm s' = Inr (map_option (inode_of small_efs) (map_of [([97], of_nat k)] nm), t)"
    unfolding can(2) by auto
  obtain t where "Inode_find BlockFile small_efs (inode_of small_efs (of_nat 0)) [97] s' = Inr (Some (inode_of small_efs (of_nat k)), t)"
    using k(3)[rule_format, of "[97]"] by auto
  then show ?thesis using s(1) can(1) k(1,2) by blast
qed

end
