(* ===== verification/Inode_Clear.thy ===== *)
theory Inode_Clear
  imports Inode_Increase
begin

text \<open>
  \<^verbatim>\<open>DiskInode::clear_size\<close>: the blocks it returns are the index and data blocks of the file, each once.
\<close>

abbreviation table_words :: "(nat \<Rightarrow> byte list) \<Rightarrow> u32 \<Rightarrow> u32 list" where
  "table_words V b \<equiv> words_of_bytes 4 128 (V (unat b))"

section \<open>The blocks of a file, by index block\<close>

lemma data_ids_direct: "n \<le> 28 \<Longrightarrow> length (di_direct di) = 28 \<Longrightarrow> data_ids V di n = map unat (take n (di_direct di))"
  by (intro nth_equalityI) (auto simp: data_ids_def block_of_def)

lemma data_ids_indirect1:
  assumes "28 \<le> n" "n \<le> 156"
  shows "data_ids V di n = data_ids V di 28 @ map unat (take (n - 28) (table_words V (di_indirect1 di)))"
proof -
  have "map (\<lambda>j. unat (block_of V di j)) [28..<n] = map unat (take (n - 28) (table_words V (di_indirect1 di)))"
    using assms by (intro nth_equalityI) (auto simp: block_of_def table_entry_def)
  then show ?thesis using data_ids_split[OF assms(1), of V di] by simp
qed

lemma data_ids_chunk:
  assumes "b \<le> 128"
  shows "data_ids V di (156 + 128 * a + b) = data_ids V di (156 + 128 * a) @
    map unat (take b (table_words V (table_entry V (di_indirect2 di) a)))"
proof -
  have "block_of V di (156 + 128 * a + i) = table_words V (table_entry V (di_indirect2 di) a) ! i" if "i < b" for i
    using that assms by (simp add: block_of_def table_entry_def)
  then have "map (\<lambda>j. unat (block_of V di j)) [156 + 128 * a..<156 + 128 * a + b] =
      map unat (take b (table_words V (table_entry V (di_indirect2 di) a)))"
    using assms by (intro nth_equalityI) auto
  then show ?thesis using data_ids_split[of "156 + 128 * a" "156 + 128 * a + b" V di] by simp
qed

lemma data_ids_full_chunks:
  "data_ids V di (156 + 128 * a) = data_ids V di 156 @
     concat (map (\<lambda>j. map unat (table_words V (table_entry V (di_indirect2 di) j))) [0..<a])"
proof (induction a)
  case (Suc a)
  have "156 + 128 * Suc a = 156 + 128 * a + 128" by simp
  then have "data_ids V di (156 + 128 * Suc a) = data_ids V di (156 + 128 * a) @
      map unat (take 128 (table_words V (table_entry V (di_indirect2 di) a)))"
    using data_ids_chunk[of 128 V di a] by (simp only:)
  with Suc show ?case by simp
qed simp

lemma clear_direct_eq:
  "current + n \<le> length direct \<Longrightarrow> clear_direct current n direct v =
     (overwrite current (replicate n 0) direct, v @ take n (drop current direct))"
proof (induction n arbitrary: current direct v)
  case 0
  then show ?case by (simp add: overwrite_Nil)
next
  case (Suc n)
  have "drop current direct = direct ! current # drop (Suc current) direct"
    using Suc.prems by (simp add: Cons_nth_drop_Suc)
  then show ?case using Suc by (simp add: overwrite_Cons)
qed

section \<open>The program\<close>

lemma mset_concat_Cons: "mset (map g (concat (map (\<lambda>e. e # f e) es))) = mset (map g es) + mset (map g (concat (map f es)))"
  by (induction es) simp_all

lemma mset_cancel:
  fixes v w :: "u32 list" and A B C D :: "nat multiset"
  assumes "mset (map unat v) = C + D" and "mset (map unat v @ map unat w) + C + D = mset (map unat v) + A + B"
  shows "mset (map unat (v @ w)) = A + B"
proof -
  have "mset (map unat w) + (C + D) = A + B" using assms(2) by (simp add: add.assoc del: mset_map)
  then show ?thesis unfolding map_append mset_append assms(1) by (simp add: add.commute del: mset_map)
qed

lemma ind2_entries:
  fixes V :: "nat \<Rightarrow> byte list" and di :: DiskInode
  assumes n: "n = 156 + 128 * a + b" "b < 128" "156 < n" "n \<le> 16540"
  defines "es \<equiv> take a (table_words V (di_indirect2 di))"
  defines "lst \<equiv> (if 0 < b then [table_words V (di_indirect2 di) ! a] else [])"
  shows "table_ids V di n = unat (di_indirect1 di) # unat (di_indirect2 di) # map unat (es @ lst)"
    and "data_ids V di n = data_ids V di 156 @ map unat (concat (map (table_words V) es) @
      concat (map (\<lambda>e. take b (table_words V e)) lst))"
proof -
  have es: "es = map (table_entry V (di_indirect2 di)) [0..<a]"
    unfolding es_def table_entry_def using n by (intro nth_equalityI) auto
  have "(n - 156 + 127) div 128 = a + (if 0 < b then 1 else 0)" using n by auto
  then show "table_ids V di n = unat (di_indirect1 di) # unat (di_indirect2 di) # map unat (es @ lst)"
    unfolding table_ids_def es lst_def using n by (simp add: table_entry_def)
  show "data_ids V di n = data_ids V di 156 @ map unat (concat (map (table_words V) es) @
      concat (map (\<lambda>e. take b (table_words V e)) lst))"
    using n(2) unfolding n(1) data_ids_chunk[OF less_imp_le[OF n(2)]] data_ids_full_chunks es lst_def
    by (simp add: map_concat comp_def table_entry_def)
qed

context block_device
begin

lemma vs_collect_indirect:
  assumes b: "unat b \<in> ids" "unat b \<notin> set H" "length H < BLOCK_CACHE_SIZE" and Q: "Q (v @ take n (table_words V b)) V"
  shows "vs H V (collect_indirect bd b n v) Q"
proof (rule vs_sized)
  assume "\<And>i. i \<in> ids \<Longrightarrow> length (V i) = BLOCK_SZ"
  then have "V(unat b := bytes_of_words 4 (table_words V b)) = V" using b(1) by (simp add: BLOCK_SZ_def)
  then show ?thesis
    unfolding collect_indirect_def using Q by (intro vs_modify_indirect[OF b] vs_ret) simp
qed

lemma vs_collect_entries:
  assumes "unat ` set es \<subseteq> ids - set H" and H: "length H < BLOCK_CACHE_SIZE"
    and "Q (v @ concat (map (\<lambda>e. e # table_words V e) es)) V"
  shows "vs H V (collect_entries bd es v :: (('d, 'z) cache_state_scheme, u32 list) prog) Q"
  using assms(1,3)
proof (induction es arbitrary: v)
  case (Cons e es)
  show ?case
    unfolding collect_entries.simps counts
    by (rule vs_andthen, rule vs_collect_indirect) (use Cons H in auto)
qed (simp add: vs_ret)

lemma vs_clear_indirect2:
  assumes n: "n = 156 + 128 * a + b" "b < 128" "156 < n" and ok: "inode_ok (ids - set H) V di n"
    and H: "Suc (length H) < BLOCK_CACHE_SIZE"
    and Q: "\<And>w. mset (map unat v @ map unat w) + mset (table_ids V di 156) + mset (data_ids V di 156) =
        mset (map unat v) + mset (table_ids V di n) + mset (data_ids V di n) \<Longrightarrow> Q (v @ w) V"
  shows "vs H V (cache_modify bd (unat (di_indirect2 di)) 0 BLOCK_SZ decode_indirect encode_indirect (\<lambda>indirect2.
              andthen (collect_entries bd (take a indirect2) (v @ [di_indirect2 di])) (\<lambda>v3.
              if b > 0
              then andthen (index_at indirect2 a) (\<lambda>entry.
                   andthen (collect_indirect bd entry b (v3 @ [entry])) (\<lambda>v4. ret (v4, indirect2)))
              else ret (v3, indirect2))) :: (('d, 'z) cache_state_scheme, u32 list) prog) Q"
proof -
  let ?i2 = "di_indirect2 di"
  let ?es = "take a (table_words V ?i2)" and ?last = "if 0 < b then [table_words V ?i2 ! a] else []"
  let ?w = "?i2 # concat (map (\<lambda>e. e # table_words V e) ?es) @ concat (map (\<lambda>e. e # take b (table_words V e)) ?last)"
  have n': "n \<le> 16540" using ok by (simp add: inode_ok_def)
  note ids = ind2_entries[OF n n', of V di]
  have sub: "set (table_ids V di n) \<subseteq> ids - set H" and dist: "distinct (table_ids V di n)"
    using ok by (auto simp: inode_ok_def)
  have parts: "y \<in> ids \<and> y \<notin> set H \<and> unat ` set es \<subseteq> ids - set (y # H) \<and> unat ` set lst \<subseteq> ids - set (y # H)"
    if "distinct (x # y # map unat (es @ lst))" "set (x # y # map unat (es @ lst)) \<subseteq> ids - set H"
    for x y and es lst :: "u32 list"
    using that by auto
  have i2: "unat ?i2 \<in> ids" "unat ?i2 \<notin> set H" and es: "unat ` set ?es \<subseteq> ids - set (unat ?i2 # H)"
    and last: "unat ` set ?last \<subseteq> ids - set (unat ?i2 # H)"
    using parts[OF dist[unfolded ids(1)] sub[unfolded ids(1)]] by blast+
  have al: "0 < b \<Longrightarrow> a < 128" using n n' by auto
  have "Q (v @ ?w) V"
  proof (rule Q)
    show "mset (map unat v @ map unat ?w) + mset (table_ids V di 156) + mset (data_ids V di 156) =
        mset (map unat v) + mset (table_ids V di n) + mset (data_ids V di n)"
      unfolding ids by (simp add: mset_concat_Cons table_ids_def del: mset_map)
  qed
  then have fin: "Q (v @ [?i2] @ concat (map (\<lambda>e. e # table_words V e) ?es) @ concat (map (\<lambda>e. e # take b (table_words V e)) ?last)) V"
    by simp
  show ?thesis
  proof (rule vs_sized, rule vs_modify_indirect[OF i2], goal_cases)
    case 2
    then have same: "V(unat ?i2 := bytes_of_words 4 (table_words V ?i2)) = V" using i2 by (simp add: BLOCK_SZ_def)
    let ?v3 = "v @ [?i2] @ concat (map (\<lambda>e. e # table_words V e) ?es)"
    have "vs (unat ?i2 # H) V (if b > 0
              then andthen (index_at (table_words V ?i2) a) (\<lambda>entry.
                   andthen (collect_indirect bd entry b (?v3 @ [entry])) (\<lambda>v4. ret (v4, table_words V ?i2)))
              else ret (?v3, table_words V ?i2) :: (('d, 'z) cache_state_scheme, u32 list \<times> u32 list) prog)
            (\<lambda>(r, ws) V'. length ws = 128 \<and> Q r (V'(unat ?i2 := bytes_of_words 4 ws)))"
    proof (cases "0 < b")
      case True
      with al last fin same H show ?thesis
        by (simp, intro vs_andthen vs_index_at vs_collect_indirect vs_ret) auto
    next
      case False
      with fin same show ?thesis by (simp add: vs_ret)
    qed
    then show ?case
      using es H by (intro vs_andthen vs_collect_entries) auto
  qed (use H in simp)
qed

lemma vs_DiskInode_clear_size:
  assumes ok: "inode_ok (ids - set H) V di n" and n: "n = unat (data_blocks di)" and H: "Suc (length H) < BLOCK_CACHE_SIZE"
  shows "vs H V (DiskInode_clear_size bd di :: (('d, 'z) cache_state_scheme, u32 list \<times> DiskInode) prog)
    (\<lambda>(v, di') V'. V' = V \<and> di_size di' = 0 \<and> di_type di' = di_type di \<and> length (di_direct di') = 28 \<and>
       mset (map unat v) = mset (table_ids V di n @ data_ids V di n))"
proof -
  have len: "length (di_direct di) = 28" and n_le: "n \<le> 16540" using ok by (auto simp: inode_ok_def)
  let ?d = "overwrite 0 (replicate (min n 28) 0) (di_direct di)" and ?v1 = "take (min n 28) (di_direct di)"
  have cd: "clear_direct 0 (min n 28) (di_direct di) [] = (?d, ?v1)"
    using clear_direct_eq[of 0 "min n 28" "di_direct di" "[]"] len by simp
  have d: "length ?d = 28" using len by simp
  show ?thesis
  proof (cases "28 < n")
    case False
    then have "table_ids V di n = []" "data_ids V di n = map unat ?v1"
      using data_ids_direct[of n di V] len by (auto simp: table_ids_def)
    then show ?thesis
      unfolding DiskInode_clear_size_def counts n[symmetric] Let_def cd prod.case using False d by (simp add: vs_ret)
  next
    case True
    let ?m = "min n 156"
    let ?v2 = "(?v1 @ [di_indirect1 di]) @ take (min (n - 28) 128) (table_words V (di_indirect1 di))"
    have i1: "unat (di_indirect1 di) \<in> ids" "unat (di_indirect1 di) \<notin> set H" "length H < BLOCK_CACHE_SIZE"
      using ok True H table_ids_mem(1)[of n di V] by (auto simp: inode_ok_def)
    have m: "?m - 28 = min (n - 28) 128" "28 \<le> ?m" "?m \<le> 156" using True by auto
    have v2: "mset (map unat ?v2) = mset (table_ids V di ?m) + mset (data_ids V di ?m)"
      using data_ids_indirect1[OF m(2,3), of V di] data_ids_direct[of 28 di V] len m(1) True
      by (simp add: table_ids_def del: mset_map)
    let ?P = "\<lambda>(v, di') V'. V' = V \<and> di_size di' = 0 \<and> di_type di' = di_type di \<and> length (di_direct di') = 28 \<and>
       mset (map unat v) = mset (table_ids V di n @ data_ids V di n)"
    have rest: "vs H V (if n - 28 > 128 then
          andthen (assert_that (n - 28 - 128 \<le> INODE_INDIRECT2_COUNT)) (\<lambda>_.
          andthen (cache_modify bd (unat (di_indirect2 di)) 0 BLOCK_SZ decode_indirect encode_indirect (\<lambda>indirect2.
              andthen (collect_entries bd (take ((n - 28 - 128) div 128) indirect2) (?v2 @ [di_indirect2 di])) (\<lambda>v3.
              if (n - 28 - 128) mod 128 > 0
              then andthen (index_at indirect2 ((n - 28 - 128) div 128)) (\<lambda>entry.
                   andthen (collect_indirect bd entry ((n - 28 - 128) mod 128) (v3 @ [entry])) (\<lambda>v4. ret (v4, indirect2)))
              else ret (v3, indirect2)))) (\<lambda>v4. ret (v4, g v4)))
        else ret (?v2, d') :: (('d, 'z) cache_state_scheme, u32 list \<times> DiskInode) prog) ?P"
      if g: "\<And>v. di_size (g v) = 0 \<and> di_type (g v) = di_type di \<and> length (di_direct (g v)) = 28"
        and d': "di_size d' = 0 \<and> di_type d' = di_type di \<and> length (di_direct d') = 28" for g d'
    proof (cases "156 < n")
      case False
      then have "?m = n" by simp
      then show ?thesis using False v2 d' by (auto intro!: vs_ret)
    next
      case n156: True
      let ?a = "(n - 28 - 128) div 128" and ?b = "(n - 28 - 128) mod 128"
      have ab: "n = 156 + 128 * ?a + ?b" "?b < 128" using n156 by auto
      have m: "?m = 156" and c: "128 < n - 28" using n156 by auto
      have le: "n - 28 - 128 \<le> INODE_INDIRECT2_COUNT" using n_le by (simp add: layout_consts)
      have fin: "vs H V (ret (?v2 @ w, g (?v2 @ w)) :: (('d, 'z) cache_state_scheme, u32 list \<times> DiskInode) prog) ?P"
        if "mset (map unat ?v2 @ map unat w) + mset (table_ids V di 156) + mset (data_ids V di 156) =
          mset (map unat ?v2) + mset (table_ids V di n) + mset (data_ids V di n)" for w
        using mset_cancel[OF v2[unfolded m] that] g by (auto intro!: vs_ret simp del: mset_map)
      show ?thesis
        unfolding if_P[OF c]
        by (rule vs_andthen, rule vs_assert_that[OF le], rule vs_andthen, rule vs_clear_indirect2[OF ab n156 ok H], rule fin)
    qed
    show ?thesis
      unfolding DiskInode_clear_size_def counts n[symmetric] Let_def cd prod.case if_P[OF True]
      by (rule vs_andthen, rule vs_collect_indirect[OF i1], rule rest) (simp_all add: d)
  qed
qed

end

section \<open>Properties\<close>

text \<open>
  C8: growing a well-formed file with as many fresh blocks as \<^verbatim>\<open>blocks_num_needed\<close> asks for succeeds. The
  old blocks stay in place, the new index and data blocks are exactly the given ones, only index
  blocks are written, and the old contents are a prefix of the new ones.
\<close>

theorem DiskInode_increase_size_correct:
  assumes "block_device bd disk ids dinv" and "cache_inv disk ids dinv s" and "Suc (length (held s)) < BLOCK_CACHE_SIZE"
    and "inode_wf (ids - set (held s)) (disk_view disk s) di"
    and "di_size di \<le> new_size" and "unat new_size \<le> 16540 * 512"
    and "fresh_for (ids - set (held s)) (disk_view disk s) di (unat (data_blocks di)) nb"
    and "blocks_num_needed di new_size = Inr (of_nat (length nb))" and "length nb < 2 ^ 32"
  shows "\<exists>di' s' ts ds. DiskInode_increase_size bd di new_size nb s = Inr (di', s') \<and> cache_inv disk ids dinv s' \<and>
    di_size di' = new_size \<and> di_type di' = di_type di \<and> inode_wf (ids - set (held s')) (disk_view disk s') di' \<and>
    table_ids (disk_view disk s') di' (unat (data_blocks di')) = table_ids (disk_view disk s) di (unat (data_blocks di)) @ ts \<and>
    data_ids (disk_view disk s') di' (unat (data_blocks di')) = data_ids (disk_view disk s) di (unat (data_blocks di)) @ ds \<and>
    mset (map unat nb) = mset (ts @ ds) \<and>
    (\<forall>i. i \<notin> set (table_ids (disk_view disk s') di' (unat (data_blocks di'))) \<longrightarrow> disk_view disk s' i = disk_view disk s i) \<and>
    take (unat (di_size di)) (file_bytes (disk_view disk s') di') = file_bytes (disk_view disk s) di"
proof -
  have "total_blocks new_size - total_blocks (di_size di) = of_nat (length nb)"
    using assms(5,8) by (simp add: blocks_num_needed_def)
  then have cnt: "length nb = unat (total_blocks new_size - total_blocks (di_size di))"
    using assms(9) by (simp add: unsigned_of_nat take_bit_nat_eq_self)
  from vspec_run[OF block_device.vs_grow_file[OF assms(1,4,5,6,3,7) cnt] assms(2)]
  show ?thesis by (auto simp: ext_def data_blocks_def)
qed

theorem DiskInode_increase_size_correct_witness:
  "block_device BlockFile file_block {..<32} (\<lambda>f. length f = 32 * 512) \<and>
   cache_inv file_block {..<32} (\<lambda>f. length f = 32 * 512) (fresh_image 32) \<and>
   inode_wf ({..<32} - set (held (fresh_image 32))) (disk_view file_block (fresh_image 32)) demo_inode \<and>
   blocks_num_needed demo_inode 2000 = Inr 2 \<and>
   (\<exists>di' s' ds. DiskInode_increase_size BlockFile demo_inode 2000 [25, 24] (fresh_image 32) = Inr (di', s') \<and>
      data_ids (disk_view file_block s') di' (unat (data_blocks di')) =
      data_ids (disk_view file_block (fresh_image 32)) demo_inode (unat (data_blocks demo_inode)) @ ds)"
proof -
  have wf: "inode_wf ({..<32} - set (held (fresh_image 32))) (disk_view file_block (fresh_image 32)) demo_inode"
    using demo_inode_wf by (simp add: fresh_image_def)
  have H: "Suc (length (held (fresh_image 32))) < BLOCK_CACHE_SIZE"
    by (simp add: fresh_image_def BLOCK_CACHE_SIZE_def)
  have n: "unat (data_blocks demo_inode) = 2"
    by (simp add: data_blocks_def unat_data_blocks_of demo_inode_def)
  have "[0..<2] = [0, 1 :: nat]" by (simp add: upt_rec)
  then have fr: "fresh_for ({..<32} - set (held (fresh_image 32))) (disk_view file_block (fresh_image 32)) demo_inode
      (unat (data_blocks demo_inode)) [25, 24]"
    unfolding fresh_for_def n
    by (simp add: demo_inode_def table_ids_def data_ids_def block_of_def fresh_image_def)
  have need: "blocks_num_needed demo_inode 2000 = Inr (of_nat (length [25, 24 :: u32]))"
    by (simp add: blocks_num_needed_def demo_inode_def total_blocks_def data_blocks_of_def layout_consts)
  have sz: "di_size demo_inode \<le> 2000" by (simp add: demo_inode_def)
  have need2: "blocks_num_needed demo_inode 2000 = Inr 2" using need by simp
  have small: "unat (2000 :: u32) \<le> 16540 * 512" "length [25, 24 :: u32] < 2 ^ 32" by simp_all
  show ?thesis
    using DiskInode_increase_size_correct[OF bf.block_device_axioms fresh_image_inv H wf sz small(1) fr need small(2)]
      bf.block_device_axioms[of 32] fresh_image_inv[of 32] wf need2 by blast
qed

text \<open>
  C9: \<^verbatim>\<open>clear_size\<close> of a well-formed file returns its index and data blocks, each exactly once, as many
  as \<^verbatim>\<open>total_blocks\<close> says (the assertion in \<^verbatim>\<open>Inode::clear\<close>), leaves an empty inode of the same type, and
  does not change the disk.
\<close>

theorem DiskInode_clear_size_exact:
  assumes "block_device bd disk ids dinv" and "cache_inv disk ids dinv s" and "Suc (length (held s)) < BLOCK_CACHE_SIZE"
    and "inode_wf (ids - set (held s)) (disk_view disk s) di"
  shows "\<exists>v di' s'. DiskInode_clear_size bd di s = Inr ((v, di'), s') \<and> cache_inv disk ids dinv s' \<and>
    disk_view disk s' = disk_view disk s \<and> di_size di' = 0 \<and> di_type di' = di_type di \<and>
    mset (map unat v) = mset (table_ids (disk_view disk s) di (unat (data_blocks di)) @
      data_ids (disk_view disk s) di (unat (data_blocks di))) \<and>
    distinct v \<and> length v = unat (total_blocks (di_size di))"
proof -
  let ?V = "disk_view disk s" and ?n = "unat (data_blocks di)"
  have ok: "inode_ok (ids - set (held s)) ?V di ?n" and sz: "unat (di_size di) + 511 < 2 ^ 32"
    using assms(4) by (auto simp: inode_wf_def)
  obtain v di' s' where r: "DiskInode_clear_size bd di s = Inr ((v, di'), s')" "cache_inv disk ids dinv s'"
    "disk_view disk s' = ?V" "di_size di' = 0" "di_type di' = di_type di"
    "mset (map unat v) = mset (table_ids ?V di ?n @ data_ids ?V di ?n)"
    using vspec_run[OF block_device.vs_DiskInode_clear_size[OF assms(1) ok refl assms(3)] assms(2)] by auto
  have "distinct (table_ids ?V di ?n @ data_ids ?V di ?n)" using ok by (simp add: inode_ok_def)
  then have "distinct (map unat v)" using mset_eq_imp_distinct_iff[OF r(6)] by simp
  moreover have "length v = length (table_ids ?V di ?n) + ?n"
    using arg_cong[OF r(6), of size] by (simp add: data_ids_def)
  ultimately show ?thesis
    using r length_table_ids[of ?V di ?n] unat_total_blocks[OF sz] by (auto simp: distinct_map data_blocks_def)
qed

theorem DiskInode_clear_size_exact_witness:
  "block_device BlockFile file_block {..<32} (\<lambda>f. length f = 32 * 512) \<and>
   cache_inv file_block {..<32} (\<lambda>f. length f = 32 * 512) (fresh_image 32) \<and>
   inode_wf ({..<32} - set (held (fresh_image 32))) (disk_view file_block (fresh_image 32)) demo_inode \<and>
   (\<exists>v di' s'. DiskInode_clear_size BlockFile demo_inode (fresh_image 32) = Inr ((v, di'), s') \<and>
      length v = unat (total_blocks (di_size demo_inode)))"
proof -
  have wf: "inode_wf ({..<32} - set (held (fresh_image 32))) (disk_view file_block (fresh_image 32)) demo_inode"
    using demo_inode_wf by (simp add: fresh_image_def)
  have H: "Suc (length (held (fresh_image 32))) < BLOCK_CACHE_SIZE"
    by (simp add: fresh_image_def BLOCK_CACHE_SIZE_def)
  show ?thesis
    using DiskInode_clear_size_exact[OF bf.block_device_axioms fresh_image_inv H wf]
      bf.block_device_axioms[of 32] fresh_image_inv[of 32] wf by blast
qed

end
