(* ===== verification/User_Memory.thy ===== *)
theory User_Memory
  imports Page_Table_Ops
begin

unbundle bit_operations_syntax

text \<open>
  Access of the kernel to user memory (second half of \<^verbatim>\<open>os/src/mm/page_table.rs\<close>): translated byte
  buffers, strings and references, the user buffer and its iterator. A \<^verbatim>\<open>&'static mut [u8]\<close> into a
  physical page is the pair of its first address and its length; a pointer is a physical address.
\<close>

section \<open>Translated buffers\<close>

type_synonym mem_slice = "nat \<times> nat"

text \<open>The slices \<^verbatim>\<open>ppn.get_bytes_array()[from..]\<close> and \<^verbatim>\<open>[from..to]\<close>; the second panics when \<open>to < from\<close>.\<close>

definition page_slice :: "PhysPageNum \<Rightarrow> nat \<Rightarrow> nat \<Rightarrow> mem_slice res" where
  "page_slice ppn from to = (if from \<le> to then Inr (ppn_base ppn + from, to - from) else Inl IndexOutOfRange)"

text \<open>
  One round of the loop in \<^verbatim>\<open>translated_byte_buffer\<close>: the slice for the page of \<open>start\<close> and the next
  value of \<open>start\<close>. \<^verbatim>\<open>VirtAddr::from\<close> keeps 39 bits of an address.
\<close>

definition buffer_round :: "phys_mem \<Rightarrow> PageTable \<Rightarrow> usize \<Rightarrow> usize \<Rightarrow> (mem_slice \<times> usize) res" where
  "buffer_round m pt start end =
     (let start_va = VirtAddr_from start; vpn = va_floor start_va in
      case PageTable_translate m pt vpn of
        None \<Rightarrow> Inl UnwrapNone
      | Some pte \<Rightarrow>
          let next_va = VirtAddr_from_vpn (vpn_step vpn);
              end_va = (if va_0 next_va \<le> va_0 (VirtAddr_from end) then next_va else VirtAddr_from end) in
          (case page_slice (pte_ppn pte) (unat (va_page_offset start_va))
               (if va_page_offset end_va = 0 then 4096 else unat (va_page_offset end_va)) of
             Inl e \<Rightarrow> Inl e
           | Inr sl \<Rightarrow> Inr (sl, va_0 end_va)))"

text \<open>
  The loop itself. It need not end (see \<open>translated_byte_buffer_diverges\<close>), so it is a partial
  function: \<open>None\<close> is the value of a call that never returns.
\<close>

partial_function (option) translated_byte_buffer_loop ::
    "phys_mem \<Rightarrow> PageTable \<Rightarrow> usize \<Rightarrow> usize \<Rightarrow> mem_slice list \<Rightarrow> mem_slice list res option" where
  "translated_byte_buffer_loop m pt start end v =
     (if start < end then
        (case buffer_round m pt start end of
           Inl e \<Rightarrow> Some (Inl e)
         | Inr (sl, start') \<Rightarrow> translated_byte_buffer_loop m pt start' end (v @ [sl]))
      else Some (Inr v))"

definition translated_byte_buffer :: "phys_mem \<Rightarrow> usize \<Rightarrow> usize \<Rightarrow> usize \<Rightarrow> mem_slice list res option" where
  "translated_byte_buffer m token ptr len =
     translated_byte_buffer_loop m (PageTable_from_token token) ptr (ptr + len) []"

section \<open>Strings and references\<close>

definition translated_ptr :: "phys_mem \<Rightarrow> usize \<Rightarrow> usize \<Rightarrow> nat res" where
  "translated_ptr m token ptr =
     (case PageTable_translate_va m (PageTable_from_token token) (VirtAddr_from ptr) of
        None \<Rightarrow> Inl UnwrapNone
      | Some pa \<Rightarrow> Inr (unat (pa_0 pa)))"

text \<open>
  \<^verbatim>\<open>string.push(ch as char)\<close> appends the character with code \<open>ch\<close>: one byte of UTF-8 below 128, two
  above. Strings are their UTF-8 bytes.
\<close>

definition char_utf8 :: "byte \<Rightarrow> byte list" where
  "char_utf8 ch = (if ch < 0x80 then [ch] else [0xC0 OR drop_bit 6 ch, 0x80 OR (ch AND 0x3F)])"

partial_function (option) translated_str_loop :: "phys_mem \<Rightarrow> usize \<Rightarrow> usize \<Rightarrow> byte list \<Rightarrow> byte list res option" where
  "translated_str_loop m token va string =
     (case translated_ptr m token va of
        Inl e \<Rightarrow> Some (Inl e)
      | Inr a \<Rightarrow>
          (if m a = 0 then Some (Inr string)
           else translated_str_loop m token (va + 1) (string @ char_utf8 (m a))))"

definition translated_str :: "phys_mem \<Rightarrow> usize \<Rightarrow> usize \<Rightarrow> byte list res option" where
  "translated_str m token ptr = translated_str_loop m token ptr []"

text \<open>
  \<^verbatim>\<open>translated_ref\<close> and \<^verbatim>\<open>translated_refmut\<close> give the address of a value of type \<open>T\<close>; \<open>get_ref\<close> and
  \<open>get_mut\<close> of a \<^verbatim>\<open>PhysAddr\<close> cast it.
\<close>

definition translated_ref :: "phys_mem \<Rightarrow> usize \<Rightarrow> usize \<Rightarrow> nat res" where
  "translated_ref m token ptr = translated_ptr m token ptr"

definition translated_refmut :: "phys_mem \<Rightarrow> usize \<Rightarrow> usize \<Rightarrow> nat res" where
  "translated_refmut m token ptr = translated_ptr m token ptr"

section \<open>User buffers\<close>

record UserBuffer =
  buffers :: "mem_slice list"

definition UserBuffer_new :: "mem_slice list \<Rightarrow> UserBuffer" where
  "UserBuffer_new bufs = \<lparr>buffers = bufs\<rparr>"

definition UserBuffer_len :: "UserBuffer \<Rightarrow> nat" where
  "UserBuffer_len ub = foldl (\<lambda>total b. total + snd b) 0 (buffers ub)"

record UserBufferIterator =
  it_buffers :: "mem_slice list"
  current_buffer :: nat
  current_idx :: nat

definition UserBuffer_into_iter :: "UserBuffer \<Rightarrow> UserBufferIterator" where
  "UserBuffer_into_iter ub = \<lparr>it_buffers = buffers ub, current_buffer = 0, current_idx = 0\<rparr>"

text \<open>\<^verbatim>\<open>next\<close>: indexing an empty slice panics.\<close>

definition UserBufferIterator_next :: "UserBufferIterator \<Rightarrow> (nat option \<times> UserBufferIterator) res" where
  "UserBufferIterator_next it =
     (if current_buffer it \<ge> length (it_buffers it) then Inr (None, it)
      else
        let b = it_buffers it ! current_buffer it in
        if current_idx it \<ge> snd b then Inl IndexOutOfRange
        else Inr (Some (fst b + current_idx it),
          if current_idx it + 1 = snd b
          then it\<lparr>current_idx := 0, current_buffer := current_buffer it + 1\<rparr>
          else it\<lparr>current_idx := current_idx it + 1\<rparr>))"

section \<open>The iterator enumerates the bytes of the buffer\<close>

definition slice_addrs :: "mem_slice \<Rightarrow> nat list" where
  "slice_addrs b = [fst b..<fst b + snd b]"

definition buffer_addrs :: "UserBuffer \<Rightarrow> nat list" where
  "buffer_addrs ub = concat (map slice_addrs (buffers ub))"

lemma UserBuffer_len_addrs: "UserBuffer_len ub = length (buffer_addrs ub)"
proof -
  have "foldl (\<lambda>total b. total + snd b) n bs = n + length (concat (map slice_addrs bs))" for n and bs :: "mem_slice list"
    by (induction bs arbitrary: n) (simp_all add: slice_addrs_def)
  then show ?thesis by (simp add: UserBuffer_len_def buffer_addrs_def)
qed

definition it_rest :: "UserBufferIterator \<Rightarrow> nat list" where
  "it_rest it = drop (current_idx it) (concat (map slice_addrs (drop (current_buffer it) (it_buffers it))))"

definition it_ok :: "UserBufferIterator \<Rightarrow> bool" where
  "it_ok it \<longleftrightarrow> (\<forall>b\<in>set (it_buffers it). 0 < snd b) \<and>
     (current_buffer it < length (it_buffers it) \<longrightarrow> current_idx it < snd (it_buffers it ! current_buffer it)) \<and>
     (current_buffer it \<ge> length (it_buffers it) \<longrightarrow> current_idx it = 0)"

lemma it_next:
  assumes "it_ok it"
  shows "\<exists>it'. UserBufferIterator_next it = Inr (if it_rest it = [] then None else Some (hd (it_rest it)), it') \<and>
    it_ok it' \<and> it_rest it' = tl (it_rest it)"
proof (cases "current_buffer it < length (it_buffers it)")
  case False
  then show ?thesis using assms by (auto simp: UserBufferIterator_next_def it_rest_def it_ok_def)
next
  case True
  let ?k = "current_buffer it" and ?i = "current_idx it"
  let ?b = "it_buffers it ! ?k"
  have i: "?i < snd ?b" using assms True by (simp add: it_ok_def)
  have d: "drop ?k (it_buffers it) = ?b # drop (Suc ?k) (it_buffers it)"
    using True by (simp add: Cons_nth_drop_Suc)
  have rest: "it_rest it = drop ?i (slice_addrs ?b) @ concat (map slice_addrs (drop (Suc ?k) (it_buffers it)))"
    using i by (simp add: it_rest_def d slice_addrs_def)
  have sl: "drop ?i (slice_addrs ?b) = (fst ?b + ?i) # drop (Suc ?i) (slice_addrs ?b)"
    using i upt_conv_Cons[of "fst ?b + ?i" "fst ?b + snd ?b"] by (simp add: slice_addrs_def)
  show ?thesis
  proof (cases "?i + 1 = snd ?b")
    case True': True
    then have "drop (Suc ?i) (slice_addrs ?b) = []" by (simp add: slice_addrs_def)
    then show ?thesis
      using True True' i assms rest sl
      by (auto simp: UserBufferIterator_next_def it_ok_def it_rest_def not_le)
  next
    case False
    then show ?thesis
      using True i assms rest sl
      by (auto simp: UserBufferIterator_next_def it_ok_def it_rest_def not_le d slice_addrs_def)
  qed
qed

section \<open>Which bytes a translated buffer covers\<close>

text \<open>The physical address of the byte at user address \<open>a\<close>.\<close>

definition user_vpn :: "nat \<Rightarrow> VirtPageNum" where
  "user_vpn a = VirtPageNum (of_nat (a div 4096))"

definition user_byte :: "phys_mem \<Rightarrow> PageTable \<Rightarrow> nat \<Rightarrow> nat" where
  "user_byte m pt a = ppn_base (pte_ppn (the (PageTable_translate m pt (user_vpn a)))) + a mod 4096"

lemma VirtAddr_from_small: "unat v < 2 ^ 39 \<Longrightarrow> VirtAddr_from v = VirtAddr v"
  using unat_VirtAddr_from[of v] by (cases "VirtAddr_from v") (simp add: word_unat_eq_iff)

lemma unat_of_nat_64: "n < 2 ^ 64 \<Longrightarrow> unat (of_nat n :: usize) = n"
  by (simp add: unsigned_of_nat take_bit_nat_eq_self)

text \<open>The end of the part of a range that lies on the first page.\<close>

lemma page_end_cases:
  fixes a e :: nat
  assumes "a < e"
  defines "stop \<equiv> min e ((a div 4096 + 1) * 4096)"
  shows "a < stop" "stop \<le> e" "a mod 4096 + (stop - a) \<le> 4096" "stop < e \<Longrightarrow> stop mod 4096 = 0"
    "(if stop mod 4096 = 0 then 4096 else stop mod 4096) = a mod 4096 + (stop - a)"
    "\<And>k. k < stop - a \<Longrightarrow> (a + k) div 4096 = a div 4096 \<and> (a + k) mod 4096 = a mod 4096 + k"
proof -
  define q r where "q = a div 4096" and "r = a mod 4096"
  have a: "a = q * 4096 + r" "r < 4096" by (simp_all add: q_def r_def)
  have stop: "stop = min e (q * 4096 + 4096)" by (simp add: stop_def q_def add.commute)
  show "a < stop" "stop \<le> e" "a mod 4096 + (stop - a) \<le> 4096" "stop < e \<Longrightarrow> stop mod 4096 = 0"
    using assms(1) a(2) unfolding stop a(1) by auto
  show "(if stop mod 4096 = 0 then 4096 else stop mod 4096) = a mod 4096 + (stop - a)"
  proof (cases "e < q * 4096 + 4096")
    case True
    define d where "d = e - q * 4096"
    have "e = q * 4096 + d" "r < d" "d < 4096" using True assms(1) a by (auto simp: d_def)
    then show ?thesis unfolding stop using a by simp
  next
    case False
    then show ?thesis unfolding stop using a by simp
  qed
  show "(a + k) div 4096 = a div 4096 \<and> (a + k) mod 4096 = a mod 4096 + k" if "k < stop - a" for k
  proof -
    have "r + k < 4096" using that a unfolding stop by auto
    then show ?thesis unfolding a(1) by (simp add: add.assoc)
  qed
qed

lemma buffer_round_eq:
  assumes se: "start < end" and e: "unat end < 2 ^ 39"
    and pte: "PageTable_translate m pt (user_vpn (unat start)) = Some pte"
  defines "stop \<equiv> min (unat end) ((unat start div 4096 + 1) * 4096)"
  shows "buffer_round m pt start end =
    Inr ((ppn_base (pte_ppn pte) + unat start mod 4096, stop - unat start), of_nat stop)"
proof -
  have se': "unat start < unat end" using se by (simp add: word_less_nat_alt)
  note stop = page_end_cases[OF se', folded stop_def]
  have va: "VirtAddr_from start = VirtAddr start" "VirtAddr_from end = VirtAddr end"
    using se' e by (auto intro: VirtAddr_from_small)
  have q: "unat start div 4096 < 2 ^ 27" using se' e by (simp add: div_less_iff_less_mult)
  have fl: "va_floor (VirtAddr start) = user_vpn (unat start)"
    using q unat_va_floor[of "VirtAddr start"]
    by (simp add: user_vpn_def vpn_eq_iff word_unat_eq_iff unat_of_nat_64)
  have st: "unat (vpn_0 (vpn_step (user_vpn (unat start)))) = unat start div 4096 + 1"
    using q unat_of_nat_64[of "Suc (unat start div 4096)"] by (simp add: vpn_step_def user_vpn_def add.commute)
  have nx: "unat (va_0 (VirtAddr_from_vpn (vpn_step (user_vpn (unat start))))) = (unat start div 4096 + 1) * 4096"
    using q st by (subst unat_VirtAddr_from_vpn) simp_all
  define end_va where "end_va = (if va_0 (VirtAddr_from_vpn (vpn_step (user_vpn (unat start)))) \<le> end
    then VirtAddr_from_vpn (vpn_step (user_vpn (unat start))) else VirtAddr end)"
  have ev: "unat (va_0 end_va) = stop"
    using nx by (auto simp: end_va_def stop_def word_le_nat_alt)
  have off: "(if va_page_offset end_va = 0 then 4096 else unat (va_page_offset end_va)) = unat start mod 4096 + (stop - unat start)"
  proof -
    have o: "unat (va_page_offset end_va) = stop mod 4096" using ev unat_va_page_offset[of end_va] by simp
    then have "va_page_offset end_va = 0 \<longleftrightarrow> stop mod 4096 = 0" by (simp add: word_unat_eq_iff)
    then show ?thesis unfolding o stop(5)[symmetric] by (simp only:)
  qed
  have ofn: "va_0 end_va = of_nat stop" unfolding ev[symmetric] by simp
  show ?thesis
    unfolding buffer_round_def va fl Let_def pte option.case VirtAddr.sel end_va_def[symmetric] page_slice_def off ofn
    using unat_va_page_offset[of "VirtAddr start"] by simp
qed

lemma translated_byte_buffer_loop_ok:
  assumes "unat end < 2 ^ 39"
    and "\<And>a. unat start \<le> a \<Longrightarrow> a < unat end \<Longrightarrow> PageTable_translate m pt (user_vpn a) \<noteq> None"
  shows "\<exists>w. translated_byte_buffer_loop m pt start end v = Some (Inr (v @ w)) \<and>
    concat (map slice_addrs w) = map (user_byte m pt) [unat start..<unat end] \<and> (\<forall>b\<in>set w. 0 < snd b)"
  using assms
proof (induction "unat end - unat start" arbitrary: start v rule: less_induct)
  case less
  show ?case
  proof (cases "start < end")
    case False
    then show ?thesis
      by (subst translated_byte_buffer_loop.simps) (auto simp: word_less_nat_alt not_less)
  next
    case True
    then have se: "unat start < unat end" by (simp add: word_less_nat_alt)
    define stop where "stop = min (unat end) ((unat start div 4096 + 1) * 4096)"
    note st = page_end_cases[OF se, folded stop_def]
    obtain pte where pte: "PageTable_translate m pt (user_vpn (unat start)) = Some pte"
      using less.prems(2)[of "unat start"] se by auto
    have us: "unat (of_nat stop :: usize) = stop"
      using less.prems(1) by (intro unat_of_nat_64) (simp add: stop_def)
    let ?b = "(ppn_base (pte_ppn pte) + unat start mod 4096, stop - unat start)"
    have "unat end - stop < unat end - unat start" using st(1) se by linarith
    then obtain w where w: "translated_byte_buffer_loop m pt (of_nat stop) end (v @ [?b]) = Some (Inr ((v @ [?b]) @ w))"
      "concat (map slice_addrs w) = map (user_byte m pt) [stop..<unat end]" "\<forall>b\<in>set w. 0 < snd b"
      using less.hyps[of "of_nat stop" "v @ [?b]"] less.prems st(1) unfolding us by fastforce
    have "user_byte m pt (unat start + k) = fst ?b + k" if "k < snd ?b" for k
      using st(6)[of k] that pte by (simp add: user_byte_def user_vpn_def)
    then have b: "slice_addrs ?b = map (user_byte m pt) [unat start..<stop]"
      unfolding slice_addrs_def using st(1) by (intro nth_equalityI) auto
    have "[unat start..<unat end] = [unat start..<stop] @ [stop..<unat end]"
      using st(1,2) by (metis le_add_diff_inverse less_imp_le upt_add_eq_append)
    then have "concat (map slice_addrs (?b # w)) = map (user_byte m pt) [unat start..<unat end]"
      using b w(2) by simp
    moreover have "translated_byte_buffer_loop m pt start end v = Some (Inr (v @ ?b # w))"
      by (subst translated_byte_buffer_loop.simps)
        (simp add: True buffer_round_eq[OF True less.prems(1) pte, folded stop_def] w(1)[simplified])
    moreover have "\<forall>b\<in>set (?b # w). 0 < snd b" using w(3) st(1) by simp
    ultimately show ?thesis by blast
  qed
qed

text \<open>The bytes the iterator hands out, until it is at its end.\<close>

fun it_collect :: "nat \<Rightarrow> UserBufferIterator \<Rightarrow> nat list res" where
  "it_collect 0 it = Inr []"
| "it_collect (Suc n) it =
     (case UserBufferIterator_next it of
        Inl e \<Rightarrow> Inl e
      | Inr (None, it') \<Rightarrow> Inr []
      | Inr (Some a, it') \<Rightarrow> (case it_collect n it' of Inl e \<Rightarrow> Inl e | Inr as \<Rightarrow> Inr (a # as)))"

lemma it_collect_rest: "it_ok it \<Longrightarrow> length (it_rest it) \<le> n \<Longrightarrow> it_collect n it = Inr (it_rest it)"
proof (induction n arbitrary: it)
  case (Suc n)
  obtain it' where n: "UserBufferIterator_next it = Inr (if it_rest it = [] then None else Some (hd (it_rest it)), it')"
    "it_ok it'" "it_rest it' = tl (it_rest it)"
    using it_next[OF Suc.prems(1)] by blast
  show ?case
    using Suc.IH[OF n(2)] n Suc.prems(2) by (cases "it_rest it") auto
qed simp

lemma it_ok_into_iter: "\<forall>b\<in>set bs. 0 < snd b \<Longrightarrow> it_ok (UserBuffer_into_iter (UserBuffer_new bs))"
  by (auto simp: it_ok_def UserBuffer_into_iter_def UserBuffer_new_def)

lemma it_rest_into_iter: "it_rest (UserBuffer_into_iter ub) = buffer_addrs ub"
  by (simp add: it_rest_def UserBuffer_into_iter_def buffer_addrs_def)

section \<open>Properties\<close>

text \<open>
  C15: for a user range below \<open>2 ^ 39\<close> whose pages have table entries, \<^verbatim>\<open>translated_byte_buffer\<close> returns;
  the buffer has the length of the range, and its iterator yields, in order and without panicking,
  the physical addresses of exactly the bytes of the range.
\<close>

theorem translated_byte_buffer_covers:
  assumes "unat ptr + unat len < 2 ^ 39"
    and "\<forall>a. unat ptr \<le> a \<and> a < unat ptr + unat len \<longrightarrow>
      PageTable_translate m (PageTable_from_token token) (user_vpn a) \<noteq> None"
  shows "\<exists>v. translated_byte_buffer m token ptr len = Some (Inr v) \<and>
    UserBuffer_len (UserBuffer_new v) = unat len \<and>
    it_collect (unat len) (UserBuffer_into_iter (UserBuffer_new v)) =
      Inr (map (user_byte m (PageTable_from_token token)) [unat ptr..<unat ptr + unat len])"
proof -
  have e: "unat (ptr + len) = unat ptr + unat len"
    using assms(1) by (subst unat_add_lem[THEN iffD1]) simp_all
  obtain v where v: "translated_byte_buffer m token ptr len = Some (Inr v)" "\<forall>b\<in>set v. 0 < snd b"
    "concat (map slice_addrs v) = map (user_byte m (PageTable_from_token token)) [unat ptr..<unat (ptr + len)]"
    using translated_byte_buffer_loop_ok[of "ptr + len" ptr m "PageTable_from_token token" "[]"] assms
    unfolding translated_byte_buffer_def e by auto
  have addrs: "buffer_addrs (UserBuffer_new v) = map (user_byte m (PageTable_from_token token)) [unat ptr..<unat ptr + unat len]"
    using v(3) unfolding e by (simp add: buffer_addrs_def UserBuffer_new_def)
  then show ?thesis
    using v it_collect_rest[OF it_ok_into_iter[OF v(2)], of "unat len"]
    by (auto simp: UserBuffer_len_addrs it_rest_into_iter)
qed

text \<open>A page table in page 1 whose three levels for the first user page are pages 1, 2 and 3.\<close>

definition demo_user_mem :: phys_mem where
  "demo_user_mem = store_pte 12288 (pte_new (PhysPageNum 7) (PTE_R OR PTE_V))
     (store_pte 8192 (pte_new (PhysPageNum 3) PTE_V) (store_pte 4096 (pte_new (PhysPageNum 2) PTE_V) (\<lambda>_. 0)))"

lemma demo_user_translate:
  "PageTable_translate demo_user_mem (PageTable_from_token 1) (VirtPageNum 0) = Some (pte_new (PhysPageNum 7) (PTE_R OR PTE_V))"
proof -
  have ok: "ppn_ok (PhysPageNum 2)" "ppn_ok (PhysPageNum 3)" by (simp_all add: ppn_ok_def)
  have l3: "load_pte demo_user_mem 12288 = pte_new (PhysPageNum 7) (PTE_R OR PTE_V)"
    by (simp add: demo_user_mem_def)
  have l2: "load_pte demo_user_mem 8192 = pte_new (PhysPageNum 3) PTE_V"
    unfolding demo_user_mem_def load_pte_def store_pte_def by (subst load_store64_other) simp_all
  have l1: "load_pte demo_user_mem 4096 = pte_new (PhysPageNum 2) PTE_V"
    unfolding demo_user_mem_def load_pte_def store_pte_def by (subst load_store64_other, simp, subst load_store64_other, simp) simp
  have r: "root_ppn (PageTable_from_token 1) = PhysPageNum 1"
    unfolding PageTable_from_token_def and_push_bit_mask PhysPageNum_from_take by simp
  have i: "indexes (VirtPageNum 0) = [0, 0, 0]" by (simp add: indexes_def upt_rec)
  have a: "pte_addr (PhysPageNum 1) 0 = 4096" "pte_addr (PhysPageNum 2) 0 = 8192" "pte_addr (PhysPageNum 3) 0 = 12288"
    by (simp_all add: pte_addr_def ppn_base_eq ppn_ok_def)
  show ?thesis
    unfolding PageTable_translate_def find_pte_def i r by (simp add: a l1 l2 l3 pte_ppn_new[OF ok(1)] pte_ppn_new[OF ok(2)])
qed

theorem translated_byte_buffer_covers_witness:
  "unat (100 :: usize) + unat (50 :: usize) < 2 ^ 39 \<and>
   (\<exists>v. translated_byte_buffer demo_user_mem 1 100 50 = Some (Inr v) \<and> UserBuffer_len (UserBuffer_new v) = 50)"
proof -
  have "PageTable_translate demo_user_mem (PageTable_from_token 1) (user_vpn a) \<noteq> None" if "a < 150" for a
  proof -
    have "a div 4096 = 0" using that by simp
    then show ?thesis using demo_user_translate by (simp add: user_vpn_def)
  qed
  then show ?thesis
    using translated_byte_buffer_covers[of 100 50 demo_user_mem 1] by auto
qed

text \<open>A round looks at the low 39 bits of both addresses only, and one that starts at the end stays there.\<close>

lemma VirtAddr_from_39: "VirtAddr_from (of_nat (unat v mod 2 ^ 39)) = VirtAddr_from v"
  by (cases "VirtAddr_from v"; cases "VirtAddr_from (of_nat (unat v mod 2 ^ 39))")
    (use unat_VirtAddr_from[of v] unat_VirtAddr_from[of "of_nat (unat v mod 2 ^ 39)"]
      unat_of_nat_64[of "unat v mod 2 ^ 39"] in \<open>simp add: word_unat_eq_iff\<close>)

lemma buffer_round_39:
  "buffer_round m pt (of_nat (unat start mod 2 ^ 39)) (of_nat (unat end mod 2 ^ 39)) = buffer_round m pt start end"
  unfolding buffer_round_def VirtAddr_from_39 ..

lemma buffer_round_end:
  assumes e: "unat end < 2 ^ 39" and pte: "PageTable_translate m pt (user_vpn (unat end)) = Some pte"
  shows "\<exists>sl. buffer_round m pt end end = Inr (sl, end)"
proof -
  have va: "VirtAddr_from end = VirtAddr end" using e by (rule VirtAddr_from_small)
  have q: "unat end div 4096 < 2 ^ 27" using e by (simp add: div_less_iff_less_mult)
  have fl: "va_floor (VirtAddr end) = user_vpn (unat end)"
    using q unat_va_floor[of "VirtAddr end"]
    by (simp add: user_vpn_def vpn_eq_iff word_unat_eq_iff unat_of_nat_64)
  have st: "unat (vpn_0 (vpn_step (user_vpn (unat end)))) = unat end div 4096 + 1"
    using q unat_of_nat_64[of "Suc (unat end div 4096)"] by (simp add: vpn_step_def user_vpn_def add.commute)
  have nx: "unat (va_0 (VirtAddr_from_vpn (vpn_step (user_vpn (unat end))))) = (unat end div 4096 + 1) * 4096"
    using q st by (subst unat_VirtAddr_from_vpn) simp_all
  have lt: "unat end < (unat end div 4096 + 1) * 4096"
    using div_mult_mod_eq[of "unat end" 4096] mod_less_divisor[of 4096 "unat end"] by simp
  have le: "\<not> va_0 (VirtAddr_from_vpn (vpn_step (user_vpn (unat end)))) \<le> end"
    unfolding word_le_nat_alt nx using lt by simp
  show ?thesis
    unfolding buffer_round_def va fl Let_def pte option.case VirtAddr.sel if_not_P[OF le] page_slice_def by simp
qed

text \<open>
  A loop whose end lies at or above \<open>2 ^ 39\<close>, over page tables that exist: \<^verbatim>\<open>start\<close> moves up to the low 39
  bits of \<^verbatim>\<open>end\<close> and stays there, below \<^verbatim>\<open>end\<close>.
\<close>

definition stuck :: "phys_mem \<Rightarrow> PageTable \<Rightarrow> usize \<Rightarrow> usize \<Rightarrow> bool" where
  "stuck m pt start end \<longleftrightarrow> start < end \<and> 2 ^ 39 \<le> unat end \<and> unat start mod 2 ^ 39 \<le> unat end mod 2 ^ 39 \<and>
     (\<forall>a. unat start mod 2 ^ 39 \<le> a \<and> a \<le> unat end mod 2 ^ 39 \<longrightarrow> PageTable_translate m pt (user_vpn a) \<noteq> None)"

lemma stuck_round:
  assumes "stuck m pt start end"
  shows "\<exists>sl start'. buffer_round m pt start end = Inr (sl, start') \<and> stuck m pt start' end"
proof -
  define a e where "a = unat start mod 2 ^ 39" and "e = unat end mod 2 ^ 39"
  have ae: "a \<le> e" "e < 2 ^ 39" "e < unat end" using assms by (auto simp: stuck_def a_def e_def)
  have tr: "PageTable_translate m pt (user_vpn b) \<noteq> None" if "a \<le> b" "b \<le> e" for b
    using assms that by (auto simp: stuck_def a_def e_def)
  have u: "unat (of_nat b :: usize) = b" if "b \<le> e" for b
    using that ae(2) by (intro unat_of_nat_64) simp
  have next_ok: "stuck m pt (of_nat b) end" if "a \<le> b" "b \<le> e" for b
    using that ae tr u[OF that(2)] assms unfolding stuck_def word_less_nat_alt e_def[symmetric] by auto
  obtain pte where pte: "PageTable_translate m pt (user_vpn a) = Some pte" using tr[of a] ae(1) by auto
  have "\<exists>sl b. buffer_round m pt (of_nat a) (of_nat e) = Inr (sl, of_nat b) \<and> a \<le> b \<and> b \<le> e"
  proof (cases "a = e")
    case True
    then show ?thesis
      using buffer_round_end[of "of_nat e" m pt pte] u[of e] ae(2) pte by auto
  next
    case False
    then have lt: "(of_nat a :: usize) < of_nat e" using ae(1) u[of a] u[of e] by (simp add: word_less_nat_alt)
    show ?thesis
      using buffer_round_eq[OF lt, of m pt pte] page_end_cases(1,2)[of a e] u[of a] u[of e] ae False pte by fastforce
  qed
  then show ?thesis
    using next_ok unfolding a_def e_def buffer_round_39 by blast
qed

lemma translated_byte_buffer_loop_stuck:
  "translated_byte_buffer_loop m pt start end v = Some r \<Longrightarrow> \<not> stuck m pt start end"
proof (rule translated_byte_buffer_loop.raw_induct[where P = "\<lambda>m pt start end v r. \<not> stuck m pt start end"])
  fix loop :: "phys_mem \<Rightarrow> PageTable \<Rightarrow> usize \<Rightarrow> usize \<Rightarrow> mem_slice list \<Rightarrow> mem_slice list res option"
    and m pt "end" v r and start :: usize
  assume IH: "\<And>m pt start end v r. loop m pt start end v = Some r \<Longrightarrow> \<not> stuck m pt start end"
    and body: "(if start < end then case buffer_round m pt start end of Inl e \<Rightarrow> Some (Inl e)
        | Inr (sl, start') \<Rightarrow> loop m pt start' end (v @ [sl]) else Some (Inr v)) = Some r"
  show "\<not> stuck m pt start end"
  proof
    assume s: "stuck m pt start end"
    then obtain sl start' where "buffer_round m pt start end = Inr (sl, start')" "stuck m pt start' end"
      using stuck_round by blast
    then show False using IH[of m pt start' "end" "v @ [sl]" r] body s by (auto simp: stuck_def split: if_splits)
  qed
qed

text \<open>
  C31: for a non-empty user range that starts at or above \<open>2 ^ 39\<close>, wraps around neither \<open>2 ^ 64\<close> nor a
  multiple of \<open>2 ^ 39\<close>, and whose pages (read modulo \<open>2 ^ 39\<close>, that of the end address included) have table
  entries, \<^verbatim>\<open>translated_byte_buffer\<close> never returns: the loop continues from a 39-bit address and compares it
  with the untruncated end. (The vector of slices, unbounded here, grows in every round.)
\<close>

theorem translated_byte_buffer_diverges:
  assumes "2 ^ 39 \<le> unat ptr" and "0 < unat len" and "unat ptr + unat len < 2 ^ 64"
    and "unat ptr mod 2 ^ 39 + unat len < 2 ^ 39"
    and "\<forall>a. unat ptr mod 2 ^ 39 \<le> a \<and> a \<le> unat ptr mod 2 ^ 39 + unat len \<longrightarrow>
      PageTable_translate m (PageTable_from_token token) (user_vpn a) \<noteq> None"
  shows "translated_byte_buffer m token ptr len = None"
proof -
  have e: "unat (ptr + len) = unat ptr + unat len" using assms(3) by (simp add: unat_add_lem[symmetric])
  have "(unat ptr + unat len) mod 2 ^ 39 = (unat ptr mod 2 ^ 39 + unat len) mod 2 ^ 39"
    by (rule mod_add_left_eq[symmetric])
  then have m: "(unat ptr + unat len) mod 2 ^ 39 = unat ptr mod 2 ^ 39 + unat len"
    using assms(4) by (simp only: mod_less)
  have "stuck m (PageTable_from_token token) ptr (ptr + len)"
    unfolding stuck_def word_less_nat_alt e m using assms by auto
  then show ?thesis
    using translated_byte_buffer_loop_stuck unfolding translated_byte_buffer_def by (metis not_Some_eq)
qed

theorem translated_byte_buffer_diverges_witness:
  "2 ^ 39 \<le> unat (2 ^ 39 + 100 :: usize) \<and> translated_byte_buffer demo_user_mem 1 (2 ^ 39 + 100) 50 = None"
proof -
  have u: "unat (2 ^ 39 + 100 :: usize) = 2 ^ 39 + 100" by simp
  have "PageTable_translate demo_user_mem (PageTable_from_token 1) (user_vpn a) \<noteq> None" if "a \<le> 150" for a
  proof -
    have "a div 4096 = 0" using that by simp
    then show ?thesis using demo_user_translate by (simp add: user_vpn_def)
  qed
  then show ?thesis
    using translated_byte_buffer_diverges[of "2 ^ 39 + 100" 50 demo_user_mem 1] unfolding u by simp
qed

end
