(* ===== verification/Pipe.thy ===== *)
theory Pipe
  imports User_Memory
begin

text \<open>
  Pipes (\<^verbatim>\<open>os/src/fs/pipe.rs\<close>): the ring buffer, and the loops of \<^verbatim>\<open>read\<close> and \<^verbatim>\<open>write\<close> up to the points where
  they give up the processor. \<open>bounded_fifo\<close> is the contract of the ring buffer; the loops are proved
  against the queue it represents.
\<close>

section \<open>The contract of a bounded queue\<close>

locale bounded_fifo =
  fixes invar :: "'q \<Rightarrow> bool" and queue_of :: "'q \<Rightarrow> 'e list" and capacity :: nat
    and fifo_new :: 'q and put :: "'e \<Rightarrow> 'q \<Rightarrow> 'q" and get :: "'q \<Rightarrow> 'e \<times> 'q"
    and used :: "'q \<Rightarrow> nat" and free :: "'q \<Rightarrow> nat"
  assumes new_invar: "invar fifo_new" and new_queue: "queue_of fifo_new = []"
    and put_invar: "invar q \<Longrightarrow> free q > 0 \<Longrightarrow> invar (put x q)"
    and put_queue: "invar q \<Longrightarrow> free q > 0 \<Longrightarrow> queue_of (put x q) = queue_of q @ [x]"
    and get_invar: "invar q \<Longrightarrow> used q > 0 \<Longrightarrow> invar (snd (get q))"
    and get_queue: "invar q \<Longrightarrow> used q > 0 \<Longrightarrow> queue_of q = fst (get q) # queue_of (snd (get q))"
    and used_length: "invar q \<Longrightarrow> used q = length (queue_of q)"
    and free_length: "invar q \<Longrightarrow> free q = capacity - length (queue_of q)"
    and within_capacity: "invar q \<Longrightarrow> length (queue_of q) \<le> capacity"
begin

text \<open>A sequence of puts and gets, each guarded by the available space or data.\<close>

fun run :: "'e option list \<Rightarrow> 'q \<Rightarrow> 'e list \<Rightarrow> 'e list \<Rightarrow> 'e list \<times> 'e list \<times> 'q" where
  "run [] q ins outs = (ins, outs, q)"
| "run (Some x # ops) q ins outs = (if free q > 0 then run ops (put x q) (ins @ [x]) outs else run ops q ins outs)"
| "run (None # ops) q ins outs =
     (if used q > 0 then run ops (snd (get q)) ins (outs @ [fst (get q)]) else run ops q ins outs)"

lemma run_fifo:
  assumes "invar q" and "ins = outs @ queue_of q" and "run ops q ins outs = (ins', outs', q')"
  shows "invar q' \<and> ins' = outs' @ queue_of q' \<and> length (queue_of q') \<le> capacity"
  using assms
proof (induction ops q ins outs rule: run.induct)
  case (1 q ins outs)
  then show ?case using within_capacity by auto
next
  case (2 x ops q ins outs)
  then show ?case
    using put_invar[of q x] put_queue[of q x] by (auto split: if_splits)
next
  case (3 ops q ins outs)
  then show ?case
    using get_invar[of q] get_queue[of q] by (auto split: if_splits)
qed

end

section \<open>The ring buffer\<close>

definition RING_BUFFER_SIZE :: nat where "RING_BUFFER_SIZE = 32"

datatype RingBufferStatus = Full | Empty | Normal

text \<open>\<open>write_end\<close> is the weak reference to the write end: the identity of the \<^verbatim>\<open>Pipe\<close> object.\<close>

record PipeRingBuffer =
  arr :: "byte list"
  head :: nat
  tail :: nat
  status :: RingBufferStatus
  write_end :: "nat option"

definition PipeRingBuffer_new :: PipeRingBuffer where
  "PipeRingBuffer_new =
     \<lparr>arr = replicate RING_BUFFER_SIZE 0, head = 0, tail = 0, status = Empty, write_end = None\<rparr>"

definition set_write_end :: "nat \<Rightarrow> PipeRingBuffer \<Rightarrow> PipeRingBuffer" where
  "set_write_end w rb = rb\<lparr>write_end := Some w\<rparr>"

definition write_byte :: "byte \<Rightarrow> PipeRingBuffer \<Rightarrow> PipeRingBuffer" where
  "write_byte b rb =
     (let tail' = (tail rb + 1) mod RING_BUFFER_SIZE in
      rb\<lparr>arr := (arr rb)[tail rb := b], tail := tail', status := (if tail' = head rb then Full else Normal)\<rparr>)"

definition read_byte :: "PipeRingBuffer \<Rightarrow> byte \<times> PipeRingBuffer" where
  "read_byte rb =
     (let head' = (head rb + 1) mod RING_BUFFER_SIZE in
      (arr rb ! head rb, rb\<lparr>head := head', status := (if head' = tail rb then Empty else Normal)\<rparr>))"

definition available_read :: "PipeRingBuffer \<Rightarrow> nat" where
  "available_read rb =
     (if status rb = Empty then 0
      else if tail rb > head rb then tail rb - head rb
      else tail rb + RING_BUFFER_SIZE - head rb)"

definition available_write :: "PipeRingBuffer \<Rightarrow> nat" where
  "available_write rb = (if status rb = Full then 0 else RING_BUFFER_SIZE - available_read rb)"

text \<open>\<open>alive w\<close>: a strong reference to the pipe end \<open>w\<close> exists, so that \<^verbatim>\<open>upgrade\<close> succeeds.\<close>

definition all_write_ends_closed :: "(nat \<Rightarrow> bool) \<Rightarrow> PipeRingBuffer \<Rightarrow> bool res" where
  "all_write_ends_closed alive rb = (case write_end rb of None \<Rightarrow> Inl UnwrapNone | Some w \<Rightarrow> Inr (\<not> alive w))"

definition rb_queue :: "PipeRingBuffer \<Rightarrow> byte list" where
  "rb_queue rb = map (\<lambda>k. arr rb ! ((head rb + k) mod 32)) [0..<available_read rb]"

definition rb_inv :: "PipeRingBuffer \<Rightarrow> bool" where
  "rb_inv rb \<longleftrightarrow> length (arr rb) = 32 \<and> head rb < 32 \<and> tail rb < 32 \<and>
     (status rb \<noteq> Normal \<longrightarrow> head rb = tail rb) \<and> (status rb = Normal \<longrightarrow> head rb \<noteq> tail rb)"

lemma available_read_bounds:
  assumes "rb_inv rb"
  shows "available_read rb \<le> 32" "available_write rb = 32 - available_read rb"
    "tail rb = (head rb + available_read rb) mod 32"
proof -
  show "available_read rb \<le> 32" "available_write rb = 32 - available_read rb"
    using assms by (auto simp: available_read_def available_write_def rb_inv_def RING_BUFFER_SIZE_def)
  show "tail rb = (head rb + available_read rb) mod 32"
    using assms by (cases "status rb")
      (auto simp: available_read_def rb_inv_def RING_BUFFER_SIZE_def)
qed

lemma mod_32_inj_le:
  fixes a b :: nat
  assumes "a \<le> b" "b < 32" "(h + a) mod 32 = (h + b) mod 32"
  shows "a = b"
proof -
  have "32 dvd (h + b) - (h + a)" using assms mod_eq_dvd_iff_nat[of "h + a" "h + b" 32] by simp
  then have "32 dvd b - a" by simp
  then show ?thesis using assms(1,2) dvd_imp_le[of 32 "b - a"] by fastforce
qed

lemma mod_32_inj: "a < 32 \<Longrightarrow> b < 32 \<Longrightarrow> (h + a) mod 32 = (h + b) mod 32 \<Longrightarrow> a = (b :: nat)"
  using mod_32_inj_le[of a b h] mod_32_inj_le[of b a h] by (cases "a \<le> b") auto

lemma Suc_mod_32: "h < 32 \<Longrightarrow> Suc h mod 32 = (if h = 31 then 0 else Suc h)"
  by auto

lemma write_byte_ok:
  assumes inv: "rb_inv rb" and free: "available_write rb > 0"
  shows "rb_inv (write_byte b rb)" "rb_queue (write_byte b rb) = rb_queue rb @ [b]"
    "available_read (write_byte b rb) = Suc (available_read rb)"
proof -
  let ?rb = "write_byte b rb" and ?n = "available_read rb"
  have n: "?n < 32" and t: "tail rb = (head rb + ?n) mod 32" and h: "head rb < 32"
    using available_read_bounds[OF inv] free inv by (auto simp: rb_inv_def)
  show inv': "rb_inv ?rb"
    using inv by (auto simp: write_byte_def rb_inv_def RING_BUFFER_SIZE_def Let_def)
  show n': "available_read ?rb = Suc ?n"
  proof (cases "status rb")
    case Full
    then show ?thesis using free by (simp add: available_write_def)
  qed (use inv in \<open>auto simp: write_byte_def available_read_def rb_inv_def RING_BUFFER_SIZE_def Let_def Suc_mod_32\<close>)
  have "arr ?rb ! ((head rb + k) mod 32) = (if k = ?n then b else arr rb ! ((head rb + k) mod 32))" if "k < Suc ?n" for k
    using that n t mod_32_inj[of k ?n "head rb"] inv
    by (auto simp: write_byte_def Let_def rb_inv_def nth_list_update)
  then show "rb_queue ?rb = rb_queue rb @ [b]"
    unfolding rb_queue_def n' by (simp add: write_byte_def Let_def)
qed

lemma read_byte_ok:
  assumes inv: "rb_inv rb" and used: "available_read rb > 0"
  shows "rb_inv (snd (read_byte rb))" "rb_queue rb = fst (read_byte rb) # rb_queue (snd (read_byte rb))"
    "Suc (available_read (snd (read_byte rb))) = available_read rb"
proof -
  let ?rb = "snd (read_byte rb)"
  show inv': "rb_inv ?rb"
    using inv used by (auto simp: read_byte_def rb_inv_def RING_BUFFER_SIZE_def Let_def available_read_def)
  show n': "Suc (available_read ?rb) = available_read rb"
  proof (cases "status rb")
    case Empty
    then show ?thesis using used by (simp add: available_read_def)
  qed (use inv in \<open>auto simp: read_byte_def available_read_def rb_inv_def RING_BUFFER_SIZE_def Let_def Suc_mod_32\<close>)
  have "rb_queue rb = map (\<lambda>k. arr rb ! ((head rb + k) mod 32)) [0..<Suc (available_read ?rb)]"
    unfolding rb_queue_def n' by (rule refl)
  also have "\<dots> = arr rb ! head rb # map (\<lambda>k. arr rb ! ((head rb + Suc k) mod 32)) [0..<available_read ?rb]"
    using inv by (simp only: upt_conv_Cons[of 0] map_Suc_upt[symmetric] zero_less_Suc list.map map_map comp_def)
      (simp add: rb_inv_def)
  finally show "rb_queue rb = fst (read_byte rb) # rb_queue ?rb"
    by (simp add: rb_queue_def read_byte_def Let_def RING_BUFFER_SIZE_def mod_Suc_eq mod_add_left_eq flip: add_Suc)
qed

interpretation ring: bounded_fifo rb_inv rb_queue 32 PipeRingBuffer_new write_byte read_byte available_read available_write
proof unfold_locales
  show "rb_inv PipeRingBuffer_new" "rb_queue PipeRingBuffer_new = []"
    by (simp_all add: rb_inv_def rb_queue_def available_read_def PipeRingBuffer_new_def RING_BUFFER_SIZE_def)
  show "available_read q = length (rb_queue q)" for q by (simp add: rb_queue_def)
  show "available_write q = 32 - length (rb_queue q)" "length (rb_queue q) \<le> 32" if "rb_inv q" for q
    using available_read_bounds[OF that] by (simp_all add: rb_queue_def)
qed (rule write_byte_ok(1,2) read_byte_ok(1,2); assumption)+

section \<open>Pipe ends and the transfer loops\<close>

record Pipe =
  pipe_readable :: bool
  pipe_writable :: bool
  pipe_buffer :: nat

definition read_end_with_buffer :: "nat \<Rightarrow> Pipe" where
  "read_end_with_buffer buffer = \<lparr>pipe_readable = True, pipe_writable = False, pipe_buffer = buffer\<rparr>"

definition write_end_with_buffer :: "nat \<Rightarrow> Pipe" where
  "write_end_with_buffer buffer = \<lparr>pipe_readable = False, pipe_writable = True, pipe_buffer = buffer\<rparr>"

text \<open>
  The inner loops. They stop early when the user buffer is at its end; the flag says so. \<open>m\<close> is the
  memory the user buffer points into.
\<close>

fun read_bytes ::
    "nat \<Rightarrow> PipeRingBuffer \<Rightarrow> UserBufferIterator \<Rightarrow> phys_mem \<Rightarrow> nat \<Rightarrow>
     (bool \<times> PipeRingBuffer \<times> UserBufferIterator \<times> phys_mem \<times> nat) res" where
  "read_bytes 0 rb it m read_size = Inr (False, rb, it, m, read_size)"
| "read_bytes (Suc n) rb it m read_size =
     (case UserBufferIterator_next it of
        Inl e \<Rightarrow> Inl e
      | Inr (None, it') \<Rightarrow> Inr (True, rb, it', m, read_size)
      | Inr (Some byte_ref, it') \<Rightarrow>
          (case read_byte rb of (c, rb') \<Rightarrow> read_bytes n rb' it' (m(byte_ref := c)) (read_size + 1)))"

fun write_bytes ::
    "nat \<Rightarrow> PipeRingBuffer \<Rightarrow> UserBufferIterator \<Rightarrow> phys_mem \<Rightarrow> nat \<Rightarrow>
     (bool \<times> PipeRingBuffer \<times> UserBufferIterator \<times> nat) res" where
  "write_bytes 0 rb it m write_size = Inr (False, rb, it, write_size)"
| "write_bytes (Suc n) rb it m write_size =
     (case UserBufferIterator_next it of
        Inl e \<Rightarrow> Inl e
      | Inr (None, it') \<Rightarrow> Inr (True, rb, it', write_size)
      | Inr (Some byte_ref, it') \<Rightarrow> write_bytes n (write_byte (m byte_ref) rb) it' m (write_size + 1))"

text \<open>
  The outer loops, from the entry or from the return of \<^verbatim>\<open>suspend_current_and_run_next\<close> to the next
  return or suspension. What the loop carries over a suspension is its count and the iterator.
\<close>

datatype transfer = Transferred nat | WaitFor nat UserBufferIterator

partial_function (option) pipe_read_loop ::
    "(nat \<Rightarrow> bool) \<Rightarrow> PipeRingBuffer \<Rightarrow> UserBufferIterator \<Rightarrow> phys_mem \<Rightarrow> nat \<Rightarrow>
     (transfer \<times> PipeRingBuffer \<times> phys_mem) res option" where
  "pipe_read_loop alive rb it m read_size =
     (let loop_read = available_read rb in
      if loop_read = 0 then
        (case all_write_ends_closed alive rb of
           Inl e \<Rightarrow> Some (Inl e)
         | Inr closed \<Rightarrow>
             Some (Inr (if closed then Transferred read_size else WaitFor read_size it, rb, m)))
      else
        (case read_bytes loop_read rb it m read_size of
           Inl e \<Rightarrow> Some (Inl e)
         | Inr (at_end, rb', it', m', read_size') \<Rightarrow>
             if at_end then Some (Inr (Transferred read_size', rb', m'))
             else pipe_read_loop alive rb' it' m' read_size'))"

partial_function (option) pipe_write_loop ::
    "PipeRingBuffer \<Rightarrow> UserBufferIterator \<Rightarrow> phys_mem \<Rightarrow> nat \<Rightarrow> (transfer \<times> PipeRingBuffer) res option" where
  "pipe_write_loop rb it m write_size =
     (let loop_write = available_write rb in
      if loop_write = 0 then Some (Inr (WaitFor write_size it, rb))
      else
        (case write_bytes loop_write rb it m write_size of
           Inl e \<Rightarrow> Some (Inl e)
         | Inr (at_end, rb', it', write_size') \<Rightarrow>
             if at_end then Some (Inr (Transferred write_size', rb'))
             else pipe_write_loop rb' it' m write_size'))"

section \<open>What the loops transfer\<close>

fun store_list :: "nat list \<Rightarrow> byte list \<Rightarrow> phys_mem \<Rightarrow> phys_mem" where
  "store_list (a # as) (b # bs) m = store_list as bs (m(a := b))"
| "store_list as bs m = m"

lemma read_bytes_ok:
  assumes "rb_inv rb" and "n \<le> length (rb_queue rb)" and "it_ok it"
  defines "k \<equiv> min n (length (it_rest it))"
  shows "\<exists>rb' it'. read_bytes n rb it m size0 =
      Inr (length (it_rest it) < n, rb', it', store_list (take k (it_rest it)) (take k (rb_queue rb)) m, size0 + k) \<and>
    rb_inv rb' \<and> rb_queue rb' = drop k (rb_queue rb) \<and> write_end rb' = write_end rb \<and>
    it_ok it' \<and> it_rest it' = drop k (it_rest it)"
  using assms(1-3) unfolding k_def
proof (induction n arbitrary: rb it m size0)
  case (Suc n)
  obtain it' where nx: "UserBufferIterator_next it = Inr (if it_rest it = [] then None else Some (hd (it_rest it)), it')"
    "it_ok it'" "it_rest it' = tl (it_rest it)"
    using it_next[OF Suc.prems(3)] by blast
  show ?case
  proof (cases "it_rest it")
    case Nil
    then show ?thesis using nx Suc.prems by simp
  next
    case (Cons a as)
    have pos: "available_read rb > 0" using Suc.prems(2) ring.used_length[OF Suc.prems(1)] by linarith
    note rd = read_byte_ok[OF Suc.prems(1) pos]
    obtain c rb1 where c: "read_byte rb = (c, rb1)" by fastforce
    have w: "write_end rb1 = write_end rb" using c by (auto simp: read_byte_def Let_def)
    define m1 where "m1 = m(a := c)"
    show ?thesis
      using Suc.IH[of rb1 it' m1 "size0 + 1"] rd nx Cons Suc.prems(2) w by (simp add: c m1_def[symmetric])
  qed
qed simp

lemma write_bytes_ok:
  assumes "rb_inv rb" and "n \<le> available_write rb" and "it_ok it"
  defines "k \<equiv> min n (length (it_rest it))"
  shows "\<exists>rb' it'. write_bytes n rb it m size0 = Inr (length (it_rest it) < n, rb', it', size0 + k) \<and>
    rb_inv rb' \<and> rb_queue rb' = rb_queue rb @ map m (take k (it_rest it)) \<and> write_end rb' = write_end rb \<and>
    it_ok it' \<and> it_rest it' = drop k (it_rest it)"
  using assms(1-3) unfolding k_def
proof (induction n arbitrary: rb it size0)
  case (Suc n)
  obtain it' where nx: "UserBufferIterator_next it = Inr (if it_rest it = [] then None else Some (hd (it_rest it)), it')"
    "it_ok it'" "it_rest it' = tl (it_rest it)"
    using it_next[OF Suc.prems(3)] by blast
  show ?case
  proof (cases "it_rest it")
    case Nil
    then show ?thesis using nx Suc.prems by simp
  next
    case (Cons a as)
    have pos: "available_write rb > 0" using Suc.prems by simp
    note wr = write_byte_ok[OF Suc.prems(1) pos, of "m a"]
    have "n \<le> available_write (write_byte (m a) rb)"
      using wr(3) Suc.prems(2) available_read_bounds(2)[OF Suc.prems(1)] available_read_bounds(2)[OF wr(1)] by simp
    moreover have "write_end (write_byte (m a) rb) = write_end rb" by (simp add: write_byte_def Let_def)
    ultimately show ?thesis
      using Suc.IH[OF wr(1) _ nx(2), of "size0 + 1"] wr nx Cons by auto
  qed
qed simp

lemma pipe_read_loop_empty:
  assumes "rb_queue rb = []" "rb_inv rb" "write_end rb = Some w"
  shows "pipe_read_loop alive rb it m n = Some (Inr (if alive w then WaitFor n it else Transferred n, rb, m))"
  using ring.used_length[OF assms(2)] assms(1,3)
  by (subst pipe_read_loop.simps) (simp add: all_write_ends_closed_def)

text \<open>One segment of \<^verbatim>\<open>read\<close>: as much as the buffer holds and the user asked for.\<close>

lemma pipe_read_loop_ok:
  assumes inv: "rb_inv rb" and it: "it_ok it" and w: "write_end rb = Some w"
  defines "q \<equiv> rb_queue rb" and "r \<equiv> it_rest it"
  defines "k \<equiv> min (length q) (length r)"
  shows "\<exists>out rb'. pipe_read_loop alive rb it m n = Some (Inr (out, rb', store_list (take k r) (take k q) m)) \<and>
    rb_inv rb' \<and> rb_queue rb' = drop k q \<and> write_end rb' = Some w \<and>
    (if length r < length q \<or> \<not> alive w then out = Transferred (n + k)
     else \<exists>it'. out = WaitFor (n + k) it' \<and> it_ok it' \<and> it_rest it' = drop k r)"
proof (cases "q = []")
  case True
  then show ?thesis using pipe_read_loop_empty[OF _ inv w] it inv w by (auto simp: q_def k_def r_def)
next
  case False
  have len: "available_read rb = length q" unfolding q_def by (rule ring.used_length[OF inv])
  obtain rb' it' where rd: "read_bytes (length q) rb it m n = Inr (length r < length q, rb', it', store_list (take k r) (take k q) m, n + k)"
    "rb_inv rb'" "rb_queue rb' = drop k q" "write_end rb' = write_end rb" "it_ok it'" "it_rest it' = drop k r"
    using read_bytes_ok[OF inv _ it, of "length q" m n] unfolding q_def r_def k_def by auto
  show ?thesis
  proof (cases "length r < length q")
    case True
    then show ?thesis
      using rd False w len by (subst pipe_read_loop.simps) auto
  next
    case False': False
    then have "rb_queue rb' = []" using rd(3) by (simp add: k_def)
    then have "pipe_read_loop alive rb' it' (store_list (take k r) (take k q) m) (n + k) =
        Some (Inr (if alive w then WaitFor (n + k) it' else Transferred (n + k), rb', store_list (take k r) (take k q) m))"
      using pipe_read_loop_empty rd(2,4) w by simp
    then show ?thesis
      using rd False False' w len by (subst pipe_read_loop.simps) auto
  qed
qed

text \<open>One segment of \<^verbatim>\<open>write\<close>: as much as fits.\<close>

lemma pipe_write_loop_full:
  "rb_inv rb \<Longrightarrow> length (rb_queue rb) = 32 \<Longrightarrow> pipe_write_loop rb it m n = Some (Inr (WaitFor n it, rb))"
  by (subst pipe_write_loop.simps) (simp add: ring.free_length)

lemma pipe_write_loop_ok:
  assumes inv: "rb_inv rb" and it: "it_ok it"
  defines "q \<equiv> rb_queue rb" and "r \<equiv> it_rest it"
  defines "k \<equiv> min (32 - length q) (length r)"
  shows "\<exists>out rb'. pipe_write_loop rb it m n = Some (Inr (out, rb')) \<and>
    rb_inv rb' \<and> rb_queue rb' = q @ map m (take k r) \<and> write_end rb' = write_end rb \<and>
    (if length r < 32 - length q then out = Transferred (n + k)
     else \<exists>it'. out = WaitFor (n + k) it' \<and> it_ok it' \<and> it_rest it' = drop k r)"
proof (cases "length q = 32")
  case True
  then show ?thesis using pipe_write_loop_full[OF inv] it inv by (auto simp: q_def k_def r_def)
next
  case False
  have len: "available_write rb = 32 - length q" "length q \<le> 32"
    unfolding q_def by (rule ring.free_length[OF inv], rule ring.within_capacity[OF inv])
  have pos: "0 < 32 - length q" using False len(2) by simp
  obtain rb' it' where wr: "write_bytes (32 - length q) rb it m n = Inr (length r < 32 - length q, rb', it', n + k)"
    "rb_inv rb'" "rb_queue rb' = q @ map m (take k r)" "write_end rb' = write_end rb" "it_ok it'" "it_rest it' = drop k r"
    using write_bytes_ok[OF inv _ it, of "32 - length q" m n] len unfolding q_def r_def k_def by auto
  show ?thesis
  proof (cases "length r < 32 - length q")
    case True
    then show ?thesis
      using wr pos len by (subst pipe_write_loop.simps) auto
  next
    case False
    then have "length (rb_queue rb') = 32" using wr(3) len(2) by (simp add: k_def)
    then have "pipe_write_loop rb' it' m (n + k) = Some (Inr (WaitFor (n + k) it', rb'))"
      using pipe_write_loop_full wr(2) by simp
    then show ?thesis
      using wr pos False len by (subst pipe_write_loop.simps) auto
  qed
qed

section \<open>Properties\<close>

text \<open>
  C16: under every sequence of guarded writes and reads the ring buffer is a queue of capacity 32: the
  bytes that went in are the bytes that came out, in order, followed by the bytes still in it.
\<close>

theorem PipeRingBuffer_fifo:
  assumes "ring.run ops PipeRingBuffer_new [] [] = (ins, outs, rb)"
  shows "ins = outs @ rb_queue rb \<and> length (rb_queue rb) \<le> RING_BUFFER_SIZE \<and>
    available_read rb = length ins - length outs \<and> available_write rb = RING_BUFFER_SIZE - (length ins - length outs)"
  using ring.run_fifo[OF ring.new_invar _ assms] ring.new_queue ring.used_length[of rb] ring.free_length[of rb]
  by (auto simp: RING_BUFFER_SIZE_def)

theorem PipeRingBuffer_fifo_witness:
  "ring.run [Some 5, None] PipeRingBuffer_new [] [] = ([5], [fst (read_byte (write_byte 5 PipeRingBuffer_new))],
      snd (read_byte (write_byte 5 PipeRingBuffer_new))) \<and>
   [5] = [fst (read_byte (write_byte 5 PipeRingBuffer_new))] @ rb_queue (snd (read_byte (write_byte 5 PipeRingBuffer_new)))"
proof -
  have free: "0 < available_write PipeRingBuffer_new" using ring.free_length[OF ring.new_invar] ring.new_queue by simp
  have used: "0 < available_read (write_byte 5 PipeRingBuffer_new)" using write_byte_ok(3)[OF ring.new_invar free] by simp
  have r: "ring.run [Some 5, None] PipeRingBuffer_new [] [] = ([5], [fst (read_byte (write_byte 5 PipeRingBuffer_new))],
      snd (read_byte (write_byte 5 PipeRingBuffer_new)))"
    using free used by simp
  show ?thesis using r PipeRingBuffer_fifo[OF r] by blast
qed

text \<open>A pipe with two bytes in it and user buffers of given length.\<close>

definition demo_ring :: PipeRingBuffer where
  "demo_ring = write_byte 8 (write_byte 7 (set_write_end 1 PipeRingBuffer_new))"

definition demo_iter :: "nat \<Rightarrow> UserBufferIterator" where
  "demo_iter n = UserBuffer_into_iter (UserBuffer_new [(1000, n)])"

lemma demo_ring_ok: "rb_inv demo_ring" "rb_queue demo_ring = [7, 8]" "write_end demo_ring = Some 1"
proof -
  let ?r = "set_write_end 1 PipeRingBuffer_new"
  have r: "rb_inv ?r" "rb_queue ?r = []" "available_write ?r > 0"
    by (simp_all add: set_write_end_def rb_inv_def rb_queue_def available_read_def available_write_def PipeRingBuffer_new_def
        RING_BUFFER_SIZE_def)
  note a = write_byte_ok[OF r(1,3), of 7]
  have f: "available_write (write_byte 7 ?r) > 0"
    using a ring.free_length[OF a(1)] r(2) by simp
  note b = write_byte_ok[OF a(1) f, of 8]
  show "rb_inv demo_ring" "rb_queue demo_ring = [7, 8]" "write_end demo_ring = Some 1"
    using a b r(2) by (auto simp: demo_ring_def write_byte_def set_write_end_def Let_def)
qed

lemma demo_iter_ok: "0 < n \<Longrightarrow> it_ok (demo_iter n)" "it_rest (demo_iter n) = [1000..<1000 + n]"
proof -
  show "0 < n \<Longrightarrow> it_ok (demo_iter n)" unfolding demo_iter_def by (rule it_ok_into_iter) simp
  show "it_rest (demo_iter n) = [1000..<1000 + n]"
    by (simp add: demo_iter_def it_rest_into_iter buffer_addrs_def UserBuffer_new_def slice_addrs_def)
qed

text \<open>
  C25: a segment of \<^verbatim>\<open>Pipe::read\<close> always ends. It moves as many bytes as the pipe holds and the user buffer
  takes, from the front of the queue to the buffer in order, and touches no other memory. It returns
  the count when the pipe held more than was asked for, or when it is drained and its write ends are
  closed; otherwise it waits for more.
\<close>

theorem Pipe_read_segment:
  assumes "rb_inv rb" and "it_ok it" and "write_end rb = Some w"
  shows "\<exists>out rb'. pipe_read_loop alive rb it m n =
      Some (Inr (out, rb', store_list (take (length (rb_queue rb)) (it_rest it)) (take (length (it_rest it)) (rb_queue rb)) m)) \<and>
    rb_inv rb' \<and> rb_queue rb' = drop (length (it_rest it)) (rb_queue rb) \<and>
    (if length (it_rest it) < length (rb_queue rb) \<or> \<not> alive w
     then out = Transferred (n + min (length (rb_queue rb)) (length (it_rest it)))
     else \<exists>it'. out = WaitFor (n + length (rb_queue rb)) it' \<and> it_ok it' \<and> it_rest it' = drop (length (rb_queue rb)) (it_rest it))"
proof -
  have t: "take (min (length q) (length r)) r = take (length q) r" "take (min (length q) (length r)) q = take (length r) q"
    "drop (min (length q) (length r)) q = drop (length r) q" for q :: "byte list" and r :: "nat list"
    by (auto simp: min_def)
  let ?q = "rb_queue rb" and ?r = "it_rest it"
  obtain out rb' where o: "pipe_read_loop alive rb it m n = Some (Inr (out, rb', store_list (take (length ?q) ?r) (take (length ?r) ?q) m))"
    "rb_inv rb'" "rb_queue rb' = drop (length ?r) ?q"
    "if length ?r < length ?q \<or> \<not> alive w then out = Transferred (n + min (length ?q) (length ?r))
     else \<exists>it'. out = WaitFor (n + min (length ?q) (length ?r)) it' \<and> it_ok it' \<and> it_rest it' = drop (min (length ?q) (length ?r)) ?r"
    using pipe_read_loop_ok[OF assms, of alive m n] unfolding t by blast
  have "min (length ?q) (length ?r) = length ?q" if "\<not> length ?r < length ?q" using that by simp
  then show ?thesis using o by (intro exI[of _ out] exI[of _ rb']) (simp split: if_splits)
qed

theorem Pipe_read_segment_witness:
  "rb_inv demo_ring \<and> it_ok (demo_iter 5) \<and>
   (\<exists>rb'. pipe_read_loop (\<lambda>_. False) demo_ring (demo_iter 5) (\<lambda>_. 0) 0 =
      Some (Inr (Transferred 2, rb', store_list [1000, 1001] [7, 8] (\<lambda>_. 0))) \<and> rb_queue rb' = [])"
proof -
  have r: "it_ok (demo_iter 5)" "it_rest (demo_iter 5) = [1000, 1001, 1002, 1003, 1004]"
    using demo_iter_ok[of 5] by (simp_all add: upt_rec)
  show ?thesis
    using Pipe_read_segment[OF demo_ring_ok(1) r(1) demo_ring_ok(3), of "\<lambda>_. False" "\<lambda>_. 0" 0] r demo_ring_ok
    unfolding demo_ring_ok(2) r(2) by (auto simp: numeral_2_eq_2)
qed

text \<open>
  C26: a segment of \<^verbatim>\<open>Pipe::write\<close> always ends and appends to the pipe as much of the user's data as fits.
  It returns only when space is left over: data that fills the pipe exactly leaves the writer waiting,
  although all of it has been written.
\<close>

theorem Pipe_write_segment:
  assumes "rb_inv rb" and "it_ok it"
  shows "\<exists>out rb'. pipe_write_loop rb it m n = Some (Inr (out, rb')) \<and> rb_inv rb' \<and>
    rb_queue rb' = rb_queue rb @ map m (take (32 - length (rb_queue rb)) (it_rest it)) \<and>
    (if length (rb_queue rb) + length (it_rest it) < RING_BUFFER_SIZE then out = Transferred (n + length (it_rest it))
     else \<exists>it'. out = WaitFor (n + (RING_BUFFER_SIZE - length (rb_queue rb))) it' \<and> it_ok it' \<and>
       it_rest it' = drop (RING_BUFFER_SIZE - length (rb_queue rb)) (it_rest it))"
proof -
  have len: "length (rb_queue rb) \<le> 32" by (rule ring.within_capacity[OF assms(1)])
  let ?q = "rb_queue rb" and ?r = "it_rest it"
  have c: "length ?q + length ?r < RING_BUFFER_SIZE \<longleftrightarrow> length ?r < 32 - length ?q" using len by (auto simp: RING_BUFFER_SIZE_def)
  have t: "take (min (32 - length ?q) (length ?r)) ?r = take (32 - length ?q) ?r" by (simp add: min_def)
  obtain out rb' where o: "pipe_write_loop rb it m n = Some (Inr (out, rb'))" "rb_inv rb'"
    "rb_queue rb' = ?q @ map m (take (32 - length ?q) ?r)"
    "if length ?r < 32 - length ?q then out = Transferred (n + min (32 - length ?q) (length ?r))
     else \<exists>it'. out = WaitFor (n + min (32 - length ?q) (length ?r)) it' \<and> it_ok it' \<and>
       it_rest it' = drop (min (32 - length ?q) (length ?r)) ?r"
    using pipe_write_loop_ok[OF assms, of m n] unfolding t by blast
  show ?thesis
    using o by (intro exI[of _ out] exI[of _ rb']) (simp add: c[unfolded RING_BUFFER_SIZE_def] RING_BUFFER_SIZE_def min_def split: if_splits)
qed

theorem Pipe_write_segment_witness:
  "rb_inv demo_ring \<and> it_ok (demo_iter 30) \<and>
   (\<exists>it' rb'. pipe_write_loop demo_ring (demo_iter 30) (\<lambda>_. 9) 0 = Some (Inr (WaitFor 30 it', rb')) \<and> it_rest it' = [])"
  using Pipe_write_segment[OF demo_ring_ok(1) demo_iter_ok(1)[of 30], of "\<lambda>_. 9" 0] demo_ring_ok demo_iter_ok[of 30]
  by (auto simp: RING_BUFFER_SIZE_def)

end
