(* ===== verification/Sync.thy ===== *)
theory Sync
  imports Prelude
begin

text \<open>
  The synchronisation objects of \<^verbatim>\<open>os/src/sync/\<close>: spin and blocking mutexes, counting semaphores and
  condition variables, as functions on their inner state. Tasks are values of a type \<open>'t\<close>. An operation
  that may block says whether the calling task has to block; one that may wake a task says which.
  \<open>admission\<close> is the contract of a lock with a queue of waiting tasks; mutual exclusion is proved there
  once, for every interleaving of calls, and holds for mutexes and semaphores by interpretation.
\<close>

section \<open>The contract of a lock\<close>

locale admission =
  fixes enter :: "'t \<Rightarrow> 'm \<Rightarrow> bool \<times> 'm" and leave :: "'m \<Rightarrow> 't option \<times> 'm"
    and invar :: "'m \<Rightarrow> bool" and waiting :: "'m \<Rightarrow> 't list" and permits :: "'m \<Rightarrow> nat"
    and capacity :: nat and limit :: nat
  assumes enter_free: "invar m \<Longrightarrow> permits m > 0 \<Longrightarrow> \<exists>m'. enter t m = (False, m') \<and> invar m' \<and>
        waiting m' = waiting m \<and> permits m = Suc (permits m')"
    and enter_taken: "invar m \<Longrightarrow> permits m = 0 \<Longrightarrow> length (waiting m) < limit \<Longrightarrow>
        \<exists>m'. enter t m = (True, m') \<and> invar m' \<and> waiting m' = waiting m @ [t] \<and> permits m' = 0"
    and leave_wakes: "invar m \<Longrightarrow> permits m < capacity \<Longrightarrow> waiting m = t # ts \<Longrightarrow>
        \<exists>m'. leave m = (Some t, m') \<and> invar m' \<and> waiting m' = ts \<and> permits m' = 0"
    and leave_free: "invar m \<Longrightarrow> permits m < capacity \<Longrightarrow> waiting m = [] \<Longrightarrow>
        \<exists>m'. leave m = (None, m') \<and> invar m' \<and> waiting m' = [] \<and> permits m' = Suc (permits m)"
    and waiting_no_permits: "invar m \<Longrightarrow> waiting m \<noteq> [] \<Longrightarrow> permits m = 0"
begin

text \<open>
  Runs of the lock with the tasks that are inside: a task outside calls \<open>enter\<close>, a task inside calls
  \<open>leave\<close>, in any order.
\<close>

inductive reach :: "'m \<Rightarrow> 'm \<Rightarrow> 't set \<Rightarrow> bool" for m0 where
  start: "reach m0 m0 {}"
| entered: "reach m0 m ins \<Longrightarrow> t \<notin> ins \<Longrightarrow> t \<notin> set (waiting m) \<Longrightarrow> enter t m = (False, m') \<Longrightarrow>
    length (waiting m) < limit \<Longrightarrow> reach m0 m' (insert t ins)"
| queued: "reach m0 m ins \<Longrightarrow> t \<notin> ins \<Longrightarrow> t \<notin> set (waiting m) \<Longrightarrow> enter t m = (True, m') \<Longrightarrow>
    length (waiting m) < limit \<Longrightarrow> reach m0 m' ins"
| left: "reach m0 m ins \<Longrightarrow> t \<in> ins \<Longrightarrow> leave m = (None, m') \<Longrightarrow> reach m0 m' (ins - {t})"
| handed: "reach m0 m ins \<Longrightarrow> t \<in> ins \<Longrightarrow> leave m = (Some u, m') \<Longrightarrow> reach m0 m' (insert u (ins - {t}))"

lemma reach_inv:
  assumes "reach m0 m ins" and "invar m0" and "permits m0 = capacity" and "waiting m0 = []"
  shows "invar m \<and> finite ins \<and> distinct (waiting m) \<and> ins \<inter> set (waiting m) = {} \<and>
    card ins + permits m = capacity"
  using assms
proof (induction rule: reach.induct)
  case start
  then show ?case by simp
next
  case (entered m ins t m')
  then have "invar m" "length (waiting m) < limit" by auto
  then have "permits m > 0" using enter_taken[of m t] entered.hyps(4) by (cases "permits m = 0") auto
  then show ?case using enter_free[of m t] entered by auto
next
  case (queued m ins t m')
  then have "permits m = 0" using enter_free[of m t] by (cases "permits m = 0") auto
  then show ?case using enter_taken[of m t] queued by auto
next
  case (left m ins t m')
  have "0 < card ins" using left by (auto simp: card_gt_0_iff)
  then have c: "permits m < capacity" using left by linarith
  have "waiting m = []" using leave_wakes[OF _ c] left by (cases "waiting m") auto
  then show ?case using leave_free[OF _ c] left c by (auto simp: card_Diff_singleton)
next
  case (handed m ins t u m')
  have "0 < card ins" using handed by (auto simp: card_gt_0_iff)
  then have c: "permits m < capacity" using handed by linarith
  obtain ts where w: "waiting m = u # ts"
    using leave_free[OF _ c] leave_wakes[OF _ c] handed by (cases "waiting m") auto
  have p: "permits m = 0" using waiting_no_permits w handed by auto
  have "card (insert u (ins - {t})) = card ins"
    using w handed \<open>0 < card ins\<close> by (auto simp: card_insert_if card_Diff_singleton)
  then show ?case using leave_wakes[OF _ c w] w p handed by auto
qed

lemma reach_exclusion:
  "reach m0 m ins \<Longrightarrow> invar m0 \<Longrightarrow> permits m0 = capacity \<Longrightarrow> waiting m0 = [] \<Longrightarrow> card ins \<le> capacity"
  using reach_inv by fastforce

lemma reach_no_lost_wakeup:
  assumes "reach m0 m ins" "invar m0" "permits m0 = capacity" "waiting m0 = []" and "waiting m \<noteq> []"
  shows "card ins = capacity"
  using reach_inv[OF assms(1-4)] waiting_no_permits assms(5) by fastforce

text \<open>Bounded waiting: every \<open>leave\<close> moves a waiting task one place forward, and nothing moves it back.\<close>

lemma leave_advances:
  assumes "invar m" "permits m < capacity" "waiting m ! k = t" "k < length (waiting m)"
  shows "\<exists>u m'. leave m = (Some u, m') \<and> (if k = 0 then u = t else k - 1 < length (waiting m') \<and> waiting m' ! (k - 1) = t)"
proof (cases "waiting m")
  case (Cons x xs)
  then show ?thesis using leave_wakes[OF assms(1,2) Cons] assms(3,4) by (cases k) auto
qed (use assms(4) in simp)

lemma enter_keeps_place:
  assumes "invar m" "k < length (waiting m)" "length (waiting m) < limit"
  shows "\<exists>m'. enter u m = (True, m') \<and> waiting m' ! k = waiting m ! k"
proof -
  have "permits m = 0" by (rule waiting_no_permits) (use assms(1,2) in auto)
  then show ?thesis using enter_taken[OF assms(1) _ assms(3)] assms(2) by (fastforce simp: nth_append)
qed

end

section \<open>Mutexes\<close>

text \<open>
  \<^verbatim>\<open>MutexSpin::lock\<close> tries until the flag is clear, giving up the processor in between; \<open>MutexSpin_try\<close>
  is one round of its loop and says whether the lock was taken.
\<close>

record MutexSpin =
  spin_locked :: bool

definition MutexSpin_new :: MutexSpin where
  "MutexSpin_new = \<lparr>spin_locked = False\<rparr>"

definition MutexSpin_try :: "MutexSpin \<Rightarrow> bool \<times> MutexSpin" where
  "MutexSpin_try m = (if spin_locked m then (False, m) else (True, m\<lparr>spin_locked := True\<rparr>))"

definition MutexSpin_unlock :: "MutexSpin \<Rightarrow> MutexSpin" where
  "MutexSpin_unlock m = m\<lparr>spin_locked := False\<rparr>"

record 't MutexBlockingInner =
  mb_locked :: bool
  mb_wait_queue :: "'t list"

definition MutexBlocking_new :: "'t MutexBlockingInner" where
  "MutexBlocking_new = \<lparr>mb_locked = False, mb_wait_queue = []\<rparr>"

definition MutexBlocking_lock :: "'t \<Rightarrow> 't MutexBlockingInner \<Rightarrow> bool \<times> 't MutexBlockingInner" where
  "MutexBlocking_lock current m =
     (if mb_locked m then (True, m\<lparr>mb_wait_queue := mb_wait_queue m @ [current]\<rparr>)
      else (False, m\<lparr>mb_locked := True\<rparr>))"

definition MutexBlocking_unlock :: "'t MutexBlockingInner \<Rightarrow> ('t option \<times> 't MutexBlockingInner) res" where
  "MutexBlocking_unlock m =
     (if \<not> mb_locked m then Inl AssertFailed
      else case mb_wait_queue m of
        waking_task # rest \<Rightarrow> Inr (Some waking_task, m\<lparr>mb_wait_queue := rest\<rparr>)
      | [] \<Rightarrow> Inr (None, m\<lparr>mb_locked := False\<rparr>))"

section \<open>Semaphores\<close>

text \<open>\<^verbatim>\<open>count\<close> is an \<^verbatim>\<open>isize\<close>: a 64-bit word read as a signed number.\<close>

record 't SemaphoreInner =
  sem_count :: "64 word"
  sem_wait_queue :: "'t list"

definition Semaphore_new :: "usize \<Rightarrow> 't SemaphoreInner" where
  "Semaphore_new res_count = \<lparr>sem_count = res_count, sem_wait_queue = []\<rparr>"

definition Semaphore_up :: "'t SemaphoreInner \<Rightarrow> 't option \<times> 't SemaphoreInner" where
  "Semaphore_up sem =
     (let count = sem_count sem + 1 in
      if sint count \<le> 0 then
        (case sem_wait_queue sem of
           task # rest \<Rightarrow> (Some task, sem\<lparr>sem_count := count, sem_wait_queue := rest\<rparr>)
         | [] \<Rightarrow> (None, sem\<lparr>sem_count := count\<rparr>))
      else (None, sem\<lparr>sem_count := count\<rparr>))"

definition Semaphore_down :: "'t \<Rightarrow> 't SemaphoreInner \<Rightarrow> bool \<times> 't SemaphoreInner" where
  "Semaphore_down current sem =
     (let count = sem_count sem - 1 in
      if sint count < 0 then (True, sem\<lparr>sem_count := count, sem_wait_queue := sem_wait_queue sem @ [current]\<rparr>)
      else (False, sem\<lparr>sem_count := count\<rparr>))"

section \<open>Condition variables\<close>

record 't CondvarInner =
  cv_wait_queue :: "'t list"

definition Condvar_new :: "'t CondvarInner" where
  "Condvar_new = \<lparr>cv_wait_queue = []\<rparr>"

definition Condvar_signal :: "'t CondvarInner \<Rightarrow> 't option \<times> 't CondvarInner" where
  "Condvar_signal cv = (case cv_wait_queue cv of
     task # rest \<Rightarrow> (Some task, cv\<lparr>cv_wait_queue := rest\<rparr>)
   | [] \<Rightarrow> (None, cv))"

text \<open>The part of \<^verbatim>\<open>wait\<close> between \<^verbatim>\<open>mutex.unlock()\<close> and \<^verbatim>\<open>block_current_and_run_next\<close>.\<close>

definition Condvar_enqueue :: "'t \<Rightarrow> 't CondvarInner \<Rightarrow> 't CondvarInner" where
  "Condvar_enqueue current cv = cv\<lparr>cv_wait_queue := cv_wait_queue cv @ [current]\<rparr>"

section \<open>The locks keep the contract\<close>

definition mb_leave :: "'t MutexBlockingInner \<Rightarrow> 't option \<times> 't MutexBlockingInner" where
  "mb_leave m = (case MutexBlocking_unlock m of Inl e \<Rightarrow> (None, m) | Inr r \<Rightarrow> r)"

interpretation mutex: admission MutexBlocking_lock mb_leave "\<lambda>m. mb_wait_queue m \<noteq> [] \<longrightarrow> mb_locked m"
  mb_wait_queue "\<lambda>m. if mb_locked m then 0 else 1" 1 limit for limit
  by unfold_locales
    (auto simp: MutexBlocking_lock_def MutexBlocking_unlock_def mb_leave_def split: if_splits)

definition sem_ok :: "'t SemaphoreInner \<Rightarrow> bool" where
  "sem_ok sem \<longleftrightarrow> - (2 ^ 62) \<le> sint (sem_count sem) \<and> sint (sem_count sem) \<le> 2 ^ 62 \<and>
     length (sem_wait_queue sem) = nat (- sint (sem_count sem))"

lemma sint_range_64: "- (2 ^ 63) \<le> sint (w :: 64 word) \<and> sint w < 2 ^ 63"
  using sint_ge[of w] sint_lt[of w] by simp

lemma sint_plus_1: "sint w + 1 < 2 ^ 63 \<Longrightarrow> sint (w + 1 :: 64 word) = sint w + 1"
  using sint_range_64[of w] by (simp add: sint_word_ariths signed_take_bit_int_eq_self)

lemma sint_minus_1: "- (2 ^ 63) \<le> sint w - 1 \<Longrightarrow> sint (w - 1 :: 64 word) = sint w - 1"
  using sint_range_64[of w] by (simp add: sint_word_ariths signed_take_bit_int_eq_self)

lemma Semaphore_down_count: "sem_ok sem \<Longrightarrow> sint (sem_count sem - 1) = sint (sem_count sem) - 1"
  by (rule sint_minus_1) (simp add: sem_ok_def)

lemma Semaphore_up_count: "sem_ok sem \<Longrightarrow> sint (sem_count sem + 1) = sint (sem_count sem) + 1"
  by (rule sint_plus_1) (simp add: sem_ok_def)

interpretation semaphore: admission Semaphore_down Semaphore_up "\<lambda>sem. sem_ok sem \<and> sint (sem_count sem) \<le> int capacity \<and> capacity \<le> 2 ^ 62"
  sem_wait_queue "\<lambda>sem. nat (sint (sem_count sem))" capacity "2 ^ 62" for capacity
proof (unfold_locales, goal_cases)
  case (1 m t)
  then show ?case using Semaphore_down_count[of m] by (auto simp: Semaphore_down_def sem_ok_def)
next
  case (2 m t)
  then show ?case using Semaphore_down_count[of m] by (auto simp: Semaphore_down_def sem_ok_def)
next
  case (3 m t ts)
  then have "sint (sem_count m) + 1 \<le> 0" by (auto simp: sem_ok_def)
  with 3 show ?case using Semaphore_up_count[of m] by (auto simp: Semaphore_up_def sem_ok_def Let_def)
next
  case (4 m)
  then show ?case using Semaphore_up_count[of m] by (auto simp: Semaphore_up_def sem_ok_def)
next
  case (5 m)
  then have "0 < length (sem_wait_queue m)" by simp
  with 5 show ?case unfolding sem_ok_def by linarith
qed

text \<open>
  C17: Mutual exclusion of blocking mutexes, for tasks that use the mutex with discipline: a task calls
  \<^verbatim>\<open>unlock\<close> only while it holds the mutex, and \<^verbatim>\<open>lock\<close> only while it neither holds it nor waits for it. (The
  code keeps no owner and does not check this.) In every interleaving of such calls on a new mutex at
  most one task holds it; the tasks in its queue are distinct and do not hold it; the flag is set exactly
  while a task holds the mutex; and if a task waits, some task holds the mutex (no wakeup is lost).
\<close>

theorem MutexBlocking_exclusion:
  assumes "mutex.reach limit MutexBlocking_new m holders"
  shows "card holders \<le> 1 \<and> distinct (mb_wait_queue m) \<and> holders \<inter> set (mb_wait_queue m) = {} \<and>
    (mb_wait_queue m \<noteq> [] \<longrightarrow> card holders = 1) \<and> (mb_locked m \<longleftrightarrow> card holders = 1)"
proof -
  have new: "mb_wait_queue MutexBlocking_new = []" "\<not> mb_locked MutexBlocking_new"
    by (simp_all add: MutexBlocking_new_def)
  have "(mb_wait_queue m \<noteq> [] \<longrightarrow> mb_locked m) \<and> finite holders \<and> distinct (mb_wait_queue m) \<and>
    holders \<inter> set (mb_wait_queue m) = {} \<and> card holders + (if mb_locked m then 0 else 1) = 1"
    by (rule mutex.reach_inv[OF assms]) (simp_all add: new)
  then show ?thesis by (auto split: if_splits)
qed

theorem MutexBlocking_exclusion_witness:
  "\<exists>m. mutex.reach 5 MutexBlocking_new m {1 :: nat} \<and> mb_wait_queue m = [2] \<and> card {1 :: nat} \<le> 1 \<and> mb_locked m"
proof -
  define m1 :: "nat MutexBlockingInner" where "m1 = \<lparr>mb_locked = True, mb_wait_queue = []\<rparr>"
  define m2 :: "nat MutexBlockingInner" where "m2 = \<lparr>mb_locked = True, mb_wait_queue = [2]\<rparr>"
  have "mutex.reach 5 MutexBlocking_new m1 {1}"
    by (rule mutex.reach.entered[OF mutex.reach.start]) (simp_all add: MutexBlocking_new_def MutexBlocking_lock_def m1_def)
  then have "mutex.reach 5 MutexBlocking_new m2 {1}"
    by (rule mutex.reach.queued[where t = 2]) (simp_all add: MutexBlocking_lock_def m1_def m2_def)
  from MutexBlocking_exclusion[OF this] this show ?thesis by (intro exI[of _ m2]) (simp add: m2_def)
qed

text \<open>
  The same contract gives, for tasks that call \<^verbatim>\<open>up\<close> only after their own \<^verbatim>\<open>down\<close>, that a semaphore with
  \<open>n\<close> permits has at most \<open>n\<close> of them inside.
\<close>

lemma Semaphore_critical_sections:
  assumes "semaphore.reach (Semaphore_new (of_nat n)) sem users" and "n \<le> 2 ^ 62"
  shows "card users \<le> n \<and> (sem_wait_queue sem \<noteq> [] \<longrightarrow> card users = n) \<and>
    sint (sem_count sem) = int n - int (card users) - int (length (sem_wait_queue sem))"
proof -
  have s: "sint (of_nat n :: 64 word) = int n"
    using assms(2) by (simp add: signed_of_nat signed_take_bit_int_eq_self)
  have new: "sem_ok (Semaphore_new (of_nat n) :: 'a SemaphoreInner)" "sem_wait_queue (Semaphore_new (of_nat n) :: 'a SemaphoreInner) = []"
    "sint (sem_count (Semaphore_new (of_nat n) :: 'a SemaphoreInner)) = int n"
    using assms(2) s by (simp_all add: Semaphore_new_def sem_ok_def)
  have "(sem_ok sem \<and> sint (sem_count sem) \<le> int n \<and> n \<le> 2 ^ 62) \<and> finite users \<and>
    distinct (sem_wait_queue sem) \<and> users \<inter> set (sem_wait_queue sem) = {} \<and>
    card users + nat (sint (sem_count sem)) = n"
    by (rule semaphore.reach_inv[OF assms(1)]) (use new assms(2) in simp_all)
  moreover have "sem_wait_queue sem \<noteq> [] \<longleftrightarrow> 0 < length (sem_wait_queue sem)" by simp
  ultimately show ?thesis unfolding sem_ok_def by linarith
qed

text \<open>
  Arbitrary sequences of calls on a semaphore, by any tasks in any order: the tasks that get past their
  \<^verbatim>\<open>down\<close>, because it did not block or because an \<^verbatim>\<open>up\<close> woke them, in the order in which they do.
\<close>

datatype 't sem_call = Down 't | Up

fun sem_calls :: "'t sem_call list \<Rightarrow> 't SemaphoreInner \<Rightarrow> 't list \<times> 't SemaphoreInner" where
  "sem_calls [] sem = ([], sem)"
| "sem_calls (Down t # cs) sem = (let (blocks, sem') = Semaphore_down t sem; (ts, sem'') = sem_calls cs sem' in
     (if blocks then ts else t # ts, sem''))"
| "sem_calls (Up # cs) sem = (let (woken, sem') = Semaphore_up sem; (ts, sem'') = sem_calls cs sem' in
     (case woken of None \<Rightarrow> ts | Some t \<Rightarrow> t # ts, sem''))"

fun downers :: "'t sem_call list \<Rightarrow> 't list" where
  "downers [] = []"
| "downers (Down t # cs) = t # downers cs"
| "downers (Up # cs) = downers cs"

definition ups :: "'t sem_call list \<Rightarrow> nat" where
  "ups cs = length (filter (\<lambda>c. c = Up) cs)"

lemma Semaphore_down_cases:
  assumes "sem_ok sem"
  shows "Semaphore_down t sem =
    (if sint (sem_count sem) \<le> 0 then (True, \<lparr>sem_count = sem_count sem - 1, sem_wait_queue = sem_wait_queue sem @ [t]\<rparr>)
     else (False, \<lparr>sem_count = sem_count sem - 1, sem_wait_queue = []\<rparr>))"
  using Semaphore_down_count[OF assms] assms by (auto simp: Semaphore_down_def sem_ok_def)

lemma Semaphore_up_cases:
  assumes "sem_ok sem"
  shows "Semaphore_up sem = (case sem_wait_queue sem of
      t # ts \<Rightarrow> (Some t, \<lparr>sem_count = sem_count sem + 1, sem_wait_queue = ts\<rparr>)
    | [] \<Rightarrow> (None, \<lparr>sem_count = sem_count sem + 1, sem_wait_queue = []\<rparr>))"
proof (cases "sem_wait_queue sem")
  case Nil
  then show ?thesis by (simp add: Semaphore_up_def Let_def)
next
  case (Cons t ts)
  then have "length (t # ts) = nat (- sint (sem_count sem))" using assms by (simp add: sem_ok_def)
  then have "sint (sem_count sem) < 0" by simp
  then show ?thesis using Semaphore_up_count[OF assms] Cons by (simp add: Semaphore_up_def)
qed

text \<open>
  From any consistent state: those already waiting come first, then the new callers, and the permits at
  hand and the \<^verbatim>\<open>up\<close> calls together say how many get through.
\<close>

lemma sem_calls_state:
  assumes "sem_ok sem" and "\<bar>sint (sem_count sem)\<bar> + int (length cs) \<le> 2 ^ 62"
  defines "k \<equiv> nat (sint (sem_count sem)) + ups cs" and "ts \<equiv> sem_wait_queue sem @ downers cs"
  shows "fst (sem_calls cs sem) = take k ts \<and> sem_wait_queue (snd (sem_calls cs sem)) = drop k ts \<and>
    sint (sem_count (snd (sem_calls cs sem))) = sint (sem_count sem) + int (ups cs) - int (length (downers cs))"
  using assms(1,2) unfolding k_def ts_def
proof (induction cs arbitrary: sem)
  case Nil
  then have "sem_wait_queue sem = [] \<or> nat (sint (sem_count sem)) = 0" by (auto simp: sem_ok_def)
  then show ?case by (auto simp: ups_def)
next
  case (Cons c cs)
  let ?c = "sint (sem_count sem)"
  have len: "length (sem_wait_queue sem) = nat (- ?c)" using Cons.prems(1) by (simp add: sem_ok_def)
  show ?case
  proof (cases c)
    case (Down t)
    let ?s = "snd (Semaphore_down t sem)"
    have c': "sint (sem_count ?s) = ?c - 1"
      using Semaphore_down_count[OF Cons.prems(1)] by (simp add: Semaphore_down_cases[OF Cons.prems(1)])
    have ok: "sem_ok ?s" "\<bar>sint (sem_count ?s)\<bar> + int (length cs) \<le> 2 ^ 62"
      using Cons.prems len c' unfolding sem_ok_def by (auto simp: Semaphore_down_cases[OF Cons.prems(1)])
    show ?thesis
      using Cons.IH[OF ok] c' len Down
      by (auto simp: Semaphore_down_cases[OF Cons.prems(1)] ups_def nat_diff_distrib take_Cons' drop_Cons'
          split: prod.splits if_splits)
  next
    case Up
    let ?s = "snd (Semaphore_up sem)"
    have c': "sint (sem_count ?s) = ?c + 1"
      using Semaphore_up_count[OF Cons.prems(1)] by (simp add: Semaphore_up_cases[OF Cons.prems(1)] split: list.split)
    have ok: "sem_ok ?s" "\<bar>sint (sem_count ?s)\<bar> + int (length cs) \<le> 2 ^ 62"
      using Cons.prems len c' unfolding sem_ok_def
      by (auto simp: Semaphore_up_cases[OF Cons.prems(1)] split: list.split)
    show ?thesis
    proof (cases "sem_wait_queue sem")
      case Nil
      then show ?thesis
        using Cons.IH[OF ok] c' len Up
        by (auto simp: Semaphore_up_cases[OF Cons.prems(1)] ups_def nat_add_distrib split: prod.splits)
    next
      case q: (Cons t ts)
      then have "?c = - int (Suc (length ts))" using len by simp
      then show ?thesis
        using Cons.IH[OF ok] c' Up q
        by (auto simp: Semaphore_up_cases[OF Cons.prems(1)] ups_def split: prod.splits)
    qed
  qed
qed

text \<open>
  C18: What a semaphore created with \<open>n\<close> permits does, whoever calls it and in whatever order. After any
  sequence of \<^verbatim>\<open>down\<close> and \<^verbatim>\<open>up\<close> calls (up to the range of the counter), exactly the first \<open>n + ups\<close> of the
  tasks that called \<^verbatim>\<open>down\<close> have got past it, in the order of their calls; the others are in the queue in
  that order; and the counter is \<open>n\<close> plus the number of \<^verbatim>\<open>up\<close> minus the number of \<^verbatim>\<open>down\<close> calls.
\<close>

theorem Semaphore_admits:
  assumes "n + length cs \<le> 2 ^ 62"
  shows "fst (sem_calls cs (Semaphore_new (of_nat n))) = take (n + ups cs) (downers cs) \<and>
    sem_wait_queue (snd (sem_calls cs (Semaphore_new (of_nat n)))) = drop (n + ups cs) (downers cs) \<and>
    sint (sem_count (snd (sem_calls cs (Semaphore_new (of_nat n))))) = int n + int (ups cs) - int (length (downers cs))"
proof -
  have s: "sint (of_nat n :: 64 word) = int n"
    using assms by (simp add: signed_of_nat signed_take_bit_int_eq_self)
  then show ?thesis
    using sem_calls_state[of "Semaphore_new (of_nat n)" cs] assms by (simp add: Semaphore_new_def sem_ok_def)
qed

theorem Semaphore_admits_witness:
  "fst (sem_calls [Down 1, Down 2, Up, Down 3] (Semaphore_new (of_nat 1))) = [1, 2 :: nat] \<and>
   sem_wait_queue (snd (sem_calls [Down 1, Down 2, Up, Down 3] (Semaphore_new (of_nat 1)))) = [3 :: nat] \<and>
   1 + length [Down 1, Down 2, Up, Down (3 :: nat)] \<le> 2 ^ 62"
  using Semaphore_admits[of 1 "[Down 1, Down 2, Up, Down (3 :: nat)]"] by (simp add: ups_def)

text \<open>A sequence of calls on a mutex, with the tasks its \<^verbatim>\<open>unlock\<close> calls wake, in order.\<close>

datatype 't mutex_call = Lock 't | Unlock

fun mutex_calls :: "'t mutex_call list \<Rightarrow> 't MutexBlockingInner \<Rightarrow> 't list \<times> 't MutexBlockingInner" where
  "mutex_calls [] m = ([], m)"
| "mutex_calls (Lock t # cs) m = mutex_calls cs (snd (MutexBlocking_lock t m))"
| "mutex_calls (Unlock # cs) m = (let (woken, m') = mb_leave m; (ws, m'') = mutex_calls cs m' in
     ((case woken of None \<Rightarrow> [] | Some t \<Rightarrow> [t]) @ ws, m''))"

definition unlocks :: "'t mutex_call list \<Rightarrow> nat" where
  "unlocks cs = length (filter (\<lambda>c. c = Unlock) cs)"

text \<open>
  C27: Bounded waiting on a mutex. The task at place \<open>k\<close> of the queue of a locked mutex is woken by the
  \<open>(k+1)\<close>-th \<^verbatim>\<open>unlock\<close> from now, however many \<^verbatim>\<open>lock\<close> calls other tasks make in between.
\<close>

theorem MutexBlocking_bounded_waiting:
  assumes "mb_locked m" and "k < length (mb_wait_queue m)" and "k < unlocks cs"
  shows "k < length (fst (mutex_calls cs m)) \<and> fst (mutex_calls cs m) ! k = mb_wait_queue m ! k"
  using assms
proof (induction cs arbitrary: m k)
  case (Cons c cs)
  show ?case
  proof (cases c)
    case (Lock t)
    have "k < length (fst (mutex_calls cs (m\<lparr>mb_wait_queue := mb_wait_queue m @ [t]\<rparr>))) \<and>
      fst (mutex_calls cs (m\<lparr>mb_wait_queue := mb_wait_queue m @ [t]\<rparr>)) ! k = (mb_wait_queue m @ [t]) ! k"
      using Cons.IH[of "m\<lparr>mb_wait_queue := mb_wait_queue m @ [t]\<rparr>" k] Cons.prems Lock by (simp add: unlocks_def)
    then show ?thesis using Cons.prems Lock by (simp add: MutexBlocking_lock_def nth_append)
  next
    case Unlock
    obtain u us where q: "mb_wait_queue m = u # us" using Cons.prems(2) by (cases "mb_wait_queue m") auto
    have leave: "mb_leave m = (Some u, m\<lparr>mb_wait_queue := us\<rparr>)"
      using Cons.prems(1) q by (simp add: mb_leave_def MutexBlocking_unlock_def)
    have calls: "fst (mutex_calls (c # cs) m) = u # fst (mutex_calls cs (m\<lparr>mb_wait_queue := us\<rparr>))"
      by (simp add: Unlock leave split: prod.splits)
    show ?thesis
    proof (cases k)
      case 0
      then show ?thesis by (simp add: calls q del: mutex_calls.simps)
    next
      case (Suc k')
      have "k' < length us" "k' < unlocks cs" using Cons.prems Suc q Unlock by (simp_all add: unlocks_def)
      then show ?thesis using Cons.IH[of "m\<lparr>mb_wait_queue := us\<rparr>" k'] Cons.prems(1) Suc
        by (simp add: calls q del: mutex_calls.simps)
    qed
  qed
qed (simp add: unlocks_def)

theorem MutexBlocking_bounded_waiting_witness:
  "fst (mutex_calls [Unlock, Lock 4, Unlock] \<lparr>mb_locked = True, mb_wait_queue = [2, 3 :: nat]\<rparr>) ! 1 = 3"
  using MutexBlocking_bounded_waiting[of "\<lparr>mb_locked = True, mb_wait_queue = [2, 3 :: nat]\<rparr>" 1 "[Unlock, Lock 4, Unlock]"]
  by (simp add: unlocks_def)

end
