(* ===== verification/Timer.thy ===== *)
theory Timer
  imports Prelude "HOL-Library.Multiset"
begin

text \<open>
  \<^verbatim>\<open>os/src/timer.rs\<close>: the clock conversions and the heap of sleeping tasks. The time register is a parameter
  \<open>now\<close> of the definitions that read it. \<^verbatim>\<open>BinaryHeap\<close> is the list of its elements; \<^verbatim>\<open>peek\<close> and \<^verbatim>\<open>pop\<close> take a
  greatest element in the order of \<^verbatim>\<open>TimerCondVar::cmp\<close> (the oldest one among equals).
\<close>

section \<open>The clock\<close>

definition TICKS_PER_SEC :: usize where "TICKS_PER_SEC = 100"
definition MSEC_PER_SEC :: usize where "MSEC_PER_SEC = 1000"

definition CLOCK_FREQ_qemu :: usize where "CLOCK_FREQ_qemu = 12500000"
definition CLOCK_FREQ_k210 :: usize where "CLOCK_FREQ_k210 = 403000000 div 62"

definition get_time_ms :: "usize \<Rightarrow> usize \<Rightarrow> usize" where
  "get_time_ms CLOCK_FREQ now = now div (CLOCK_FREQ div MSEC_PER_SEC)"

definition next_trigger :: "usize \<Rightarrow> usize \<Rightarrow> usize" where
  "next_trigger CLOCK_FREQ now = now + CLOCK_FREQ div TICKS_PER_SEC"

section \<open>The heap of timers\<close>

record 't TimerCondVar =
  expire_ms :: usize
  timer_task :: 't

definition timer_key :: "'t TimerCondVar \<Rightarrow> int" where
  "timer_key t = sint (- expire_ms t)"

definition TimerCondVar_le :: "'t TimerCondVar \<Rightarrow> 't TimerCondVar \<Rightarrow> bool" where
  "TimerCondVar_le a b \<longleftrightarrow> timer_key a \<le> timer_key b"

fun heap_peek :: "'t TimerCondVar list \<Rightarrow> 't TimerCondVar option" where
  "heap_peek [] = None"
| "heap_peek (t # ts) = (case heap_peek ts of
     None \<Rightarrow> Some t
   | Some u \<Rightarrow> if TimerCondVar_le u t then Some t else Some u)"

definition heap_pop :: "'t TimerCondVar list \<Rightarrow> 't TimerCondVar list" where
  "heap_pop ts = (case heap_peek ts of None \<Rightarrow> ts | Some t \<Rightarrow> remove1 t ts)"

definition add_timer :: "usize \<Rightarrow> 't \<Rightarrow> 't TimerCondVar list \<Rightarrow> 't TimerCondVar list" where
  "add_timer expire task timers = timers @ [\<lparr>expire_ms = expire, timer_task = task\<rparr>]"

lemma heap_peek_None: "heap_peek ts = None \<longleftrightarrow> ts = []"
  by (cases ts) (auto split: option.splits)

lemma heap_peek_in: "heap_peek ts = Some t \<Longrightarrow> t \<in> set ts"
  by (induction ts arbitrary: t) (auto split: option.splits if_splits)

lemma heap_peek_max: "heap_peek ts = Some t \<Longrightarrow> u \<in> set ts \<Longrightarrow> timer_key u \<le> timer_key t"
  by (induction ts arbitrary: t) (fastforce simp: TimerCondVar_le_def heap_peek_None split: option.splits if_splits)+

lemma length_heap_pop: "ts \<noteq> [] \<Longrightarrow> length (heap_pop ts) < length ts"
  using heap_peek_in[of ts] heap_peek_None[of ts]
  by (auto simp: heap_pop_def length_remove1 split: option.splits)

text \<open>The loop of \<^verbatim>\<open>check_timer\<close>: the tasks it hands to \<^verbatim>\<open>add_task\<close>, in order, and the heap it leaves.\<close>

function check_timer_loop :: "usize \<Rightarrow> 't TimerCondVar list \<Rightarrow> 't list \<times> 't TimerCondVar list" where
  "check_timer_loop current_ms timers = (case heap_peek timers of
     None \<Rightarrow> ([], timers)
   | Some timer \<Rightarrow>
       if expire_ms timer \<le> current_ms
       then (let (woken, rest) = check_timer_loop current_ms (heap_pop timers) in (timer_task timer # woken, rest))
       else ([], timers))"
  by pat_completeness auto
termination
  by (relation "measure (\<lambda>(_, ts). length ts)") (auto intro: length_heap_pop simp: heap_peek_None[symmetric])

declare check_timer_loop.simps [simp del]

section \<open>What the loop wakes\<close>

lemma timer_key_eq: "timer_key t = signed_take_bit 63 (- uint (expire_ms t))"
proof -
  have "- expire_ms t = word_of_int (- uint (expire_ms t))" by simp
  then show ?thesis unfolding timer_key_def by (simp only: signed_of_int) simp
qed

lemma timer_key_small: "expire_ms t < 2 ^ 63 \<Longrightarrow> timer_key t = - uint (expire_ms t)"
  unfolding timer_key_eq by (rule signed_take_bit_int_eq_self) (auto simp: word_less_def intro: le_less_trans[of _ 0])

lemma timer_key_big: "expire_ms t > 2 ^ 63 \<Longrightarrow> timer_key t > 0"
proof -
  assume "expire_ms t > 2 ^ 63"
  then have u: "uint (expire_ms t) > 2 ^ 63" "uint (expire_ms t) < 2 ^ 64"
    using uint_lt2p[of "expire_ms t"] by (auto simp: word_less_def)
  have "signed_take_bit 63 (- uint (expire_ms t)) = signed_take_bit 63 (2 ^ 64 - uint (expire_ms t))"
    using mod_add_self2[of "2 ^ 63 - uint (expire_ms t)" "2 ^ 64"]
    by (simp add: signed_take_bit_eq_take_bit_shift take_bit_eq_mod)
  also have "\<dots> = 2 ^ 64 - uint (expire_ms t)" by (rule signed_take_bit_int_eq_self) (use u in auto)
  finally show ?thesis unfolding timer_key_eq using u by simp
qed

lemma heap_pop_filter: "heap_peek ts = Some t \<Longrightarrow> \<not> P t \<Longrightarrow> filter P (heap_pop ts) = filter P ts"
  by (simp add: heap_pop_def filter_remove1 remove1_idem)

lemma heap_pop_mset: "heap_peek ts = Some t \<Longrightarrow> mset ts = add_mset t (mset (heap_pop ts))"
  by (simp add: heap_pop_def heap_peek_in)

lemma heap_pop_subset: "set (heap_pop ts) \<subseteq> set ts"
  using set_remove1_subset by (fastforce simp: heap_pop_def split: option.splits)

text \<open>
  C21: With expiry times below 2^63 milliseconds, \<^verbatim>\<open>check_timer\<close> wakes exactly the tasks whose time has come:
  the loop returns, the tasks it wakes are those of the expired timers, each as often as it has an expired
  timer, earliest expiry first, and the heap keeps the other timers.
\<close>

theorem check_timer_exact:
  assumes "\<forall>t \<in> set timers. expire_ms t < 2 ^ 63"
  shows "snd (check_timer_loop now timers) = filter (\<lambda>t. now < expire_ms t) timers \<and>
    (\<exists>expired. fst (check_timer_loop now timers) = map timer_task expired \<and>
       mset expired = mset (filter (\<lambda>t. expire_ms t \<le> now) timers) \<and> sorted (map expire_ms expired))"
  using assms
proof (induction now timers rule: check_timer_loop.induct)
  case (1 now timers)
  show ?case
  proof (cases "heap_peek timers")
    case None
    then show ?thesis by (simp add: check_timer_loop.simps heap_peek_None)
  next
    case (Some t)
    have mx: "expire_ms t \<le> expire_ms u" if "u \<in> set timers" for u
      using heap_peek_max[OF Some that] 1(2) that heap_peek_in[OF Some] by (simp add: timer_key_small word_le_def)
    show ?thesis
    proof (cases "expire_ms t \<le> now")
      case True
      obtain expired where e: "fst (check_timer_loop now (heap_pop timers)) = map timer_task expired"
        "mset expired = mset (filter (\<lambda>t. expire_ms t \<le> now) (heap_pop timers))" "sorted (map expire_ms expired)"
        "snd (check_timer_loop now (heap_pop timers)) = filter (\<lambda>t. now < expire_ms t) (heap_pop timers)"
        using 1(1)[OF Some True] 1(2) heap_pop_subset[of timers] by auto
      have "set expired \<subseteq> set timers"
        using mset_eq_setD[OF e(2)] heap_pop_subset[of timers] by auto
      then have "sorted (map expire_ms (t # expired))" using e(3) mx by auto
      moreover have "mset (t # expired) = mset (filter (\<lambda>t. expire_ms t \<le> now) timers)"
        using heap_pop_mset[OF Some] True e(2) by simp
      ultimately show ?thesis using e Some True heap_pop_filter[OF Some, of "\<lambda>t. now < expire_ms t"]
        by (subst (1 2) check_timer_loop.simps) (auto simp: case_prod_beta intro!: exI[of _ "t # expired"])
    next
      case False
      then have "\<forall>u \<in> set timers. now < expire_ms u" using mx by fastforce
      then show ?thesis using Some False
        by (subst (1 2) check_timer_loop.simps) (auto simp: filter_empty_conv not_le)
    qed
  qed
qed

theorem check_timer_exact_witness:
  "\<exists>expired. fst (check_timer_loop 5 [\<lparr>expire_ms = 9, timer_task = ''a''\<rparr>, \<lparr>expire_ms = 4, timer_task = ''b''\<rparr>]) =
     map timer_task expired \<and> mset expired = {#\<lparr>expire_ms = 4, timer_task = ''b''\<rparr>#}"
  using check_timer_exact[of "[\<lparr>expire_ms = 9, timer_task = ''a''\<rparr>, \<lparr>expire_ms = 4, timer_task = ''b''\<rparr>]" 5] by auto

text \<open>
  C30: One timer with an expiry time above 2^63 (a \<^verbatim>\<open>sleep\<close> with a large enough argument) stops all of them:
  negating it as \<^verbatim>\<open>isize\<close> puts it at the top of the heap, where it never expires, so \<^verbatim>\<open>check_timer\<close> wakes no
  task at all, however many of the other timers have expired.
\<close>

theorem check_timer_starved:
  assumes "t \<in> set timers" and "expire_ms t > 2 ^ 63" and "now \<le> 2 ^ 63"
  shows "check_timer_loop now timers = ([], timers)"
proof -
  obtain u where u: "heap_peek timers = Some u" using assms(1) heap_peek_None[of timers] by (cases "heap_peek timers") auto
  have "timer_key u > 0" using heap_peek_max[OF u assms(1)] timer_key_big[OF assms(2)] by simp
  then have "\<not> expire_ms u < 2 ^ 63" using timer_key_small[of u] by auto
  moreover have "expire_ms u \<noteq> 2 ^ 63"
    using \<open>timer_key u > 0\<close> by (auto simp: timer_key_def)
  ultimately have "now < expire_ms u" using assms(3) by (meson le_neq_trans le_less_trans not_less)
  then show ?thesis using u by (subst check_timer_loop.simps) (simp add: not_le[symmetric])
qed

theorem check_timer_starved_witness:
  "check_timer_loop 10 [\<lparr>expire_ms = 3, timer_task = ''a''\<rparr>, \<lparr>expire_ms = 18446744073709551615, timer_task = ''b''\<rparr>] =
     ([], [\<lparr>expire_ms = 3, timer_task = ''a''\<rparr>, \<lparr>expire_ms = 18446744073709551615, timer_task = ''b''\<rparr>])"
  by (rule check_timer_starved[where t = "\<lparr>expire_ms = 18446744073709551615, timer_task = ''b''\<rparr>"]) (auto simp: word_less_def word_le_def)

end
