(* ===== verification/Kernel_State.thy ===== *)
theory Kernel_State
  imports Memory_Set Pipe Sync Timer Efs Id_Alloc "HOL-Library.AList"
begin

unbundle bit_operations_syntax

text \<open>
  The state of the running kernel and how the code reaches it: task and process control blocks
  (\<^verbatim>\<open>os/src/task/task.rs\<close>, \<^verbatim>\<open>process.rs\<close>), the scheduler's queues (\<^verbatim>\<open>manager.rs\<close>, \<^verbatim>\<open>processor.rs\<close>), signals
  (\<^verbatim>\<open>signal.rs\<close>), trap contexts (\<^verbatim>\<open>os/src/trap/context.rs\<close>) and the global objects.

  An \<^verbatim>\<open>Arc<T>\<close> is the index of its object in the list of all objects of that type; a slot holds \<open>None\<close> when
  the object was dropped, which is when \<^verbatim>\<open>Weak::upgrade\<close> fails. Strong counts are computed from the
  places that hold an \<^verbatim>\<open>Arc\<close>. The \<^verbatim>\<open>UPSafeCell\<close> of a control block keeps track of being borrowed, so a second
  \<^verbatim>\<open>exclusive_access\<close> panics; the other cells are never borrowed twice, since no function that runs while one
  of them is borrowed accesses it.

  A task that gives up the processor inside the kernel continues later from where it stopped. What it
  has left to do, with the \<^verbatim>\<open>Arc\<close>s on its kernel stack, is a value of the type \<open>kcont\<close>.
\<close>

section \<open>Trap contexts and task contexts\<close>

record TrapContext =
  tc_x :: "usize list"
  tc_sstatus :: usize
  tc_sepc :: usize
  tc_kernel_satp :: usize
  tc_kernel_sp :: usize
  tc_trap_handler :: usize

definition set_sp :: "usize \<Rightarrow> TrapContext \<Rightarrow> TrapContext" where
  "set_sp sp cx = cx\<lparr>tc_x := (tc_x cx)[2 := sp]\<rparr>"

text \<open>
  What the code takes from the machine it runs on and from packages outside the repository: addresses of
  kernel functions, the value of \<^verbatim>\<open>sstatus\<close> and its \<^verbatim>\<open>set_spp(SPP::User)\<close>, the clock frequency, the linker
  symbols, the device registers of the board, the ELF parser and the block device.
\<close>

record 'd platform =
  trap_handler_addr :: usize
  trap_return_addr :: usize
  sstatus_read :: usize
  set_spp_user :: "usize \<Rightarrow> usize"
  clock_freq :: usize
  symbols :: linker_symbols
  MMIO :: "(usize \<times> usize) list"
  ElfFile_new :: "byte list \<Rightarrow> ElfFile option"
  BLOCK_DEVICE :: "'d BlockDevice"

definition app_init_context ::
    "'d platform \<Rightarrow> usize \<Rightarrow> usize \<Rightarrow> usize \<Rightarrow> usize \<Rightarrow> usize \<Rightarrow> TrapContext" where
  "app_init_context pf entry_va sp kernel_satp kernel_sp handler =
     set_sp sp \<lparr>tc_x = replicate 32 0, tc_sstatus = set_spp_user pf (sstatus_read pf), tc_sepc = entry_va,
       tc_kernel_satp = kernel_satp, tc_kernel_sp = kernel_sp, tc_trap_handler = handler\<rparr>"

text \<open>The \<^verbatim>\<open>repr(C)\<close> layout: 37 words of eight bytes.\<close>

definition trap_cx_bytes :: "TrapContext \<Rightarrow> byte list" where
  "trap_cx_bytes cx = concat (map (word_le_bytes 8)
     (tc_x cx @ [tc_sstatus cx, tc_sepc cx, tc_kernel_satp cx, tc_kernel_sp cx, tc_trap_handler cx]))"

definition trap_cx_word :: "PhysPageNum \<Rightarrow> nat \<Rightarrow> nat" where
  "trap_cx_word ppn i = ppn_base ppn + 8 * i"

definition SEPC_WORD :: nat where "SEPC_WORD = 33"
definition KERNEL_SP_WORD :: nat where "KERNEL_SP_WORD = 35"

record TaskContext =
  cx_ra :: usize
  cx_sp :: usize
  cx_s :: "usize list"

definition TaskContext_zero_init :: TaskContext where
  "TaskContext_zero_init = \<lparr>cx_ra = 0, cx_sp = 0, cx_s = replicate 12 0\<rparr>"

definition goto_trap_return :: "'d platform \<Rightarrow> usize \<Rightarrow> TaskContext" where
  "goto_trap_return pf kstack_ptr = \<lparr>cx_ra = trap_return_addr pf, cx_sp = kstack_ptr, cx_s = replicate 12 0\<rparr>"

section \<open>Files\<close>

datatype File = Stdin | Stdout | OSInodeFile nat | PipeFile Pipe

record OSInode =
  osi_readable :: bool
  osi_writable :: bool
  osi_offset :: nat
  osi_inode :: Inode

section \<open>What a suspended task has left to do\<close>

text \<open>
  \<open>K_start\<close>: a new task, started at \<^verbatim>\<open>trap_return\<close>. \<open>K_zero\<close>: \<^verbatim>\<open>sys_yield\<close> and \<^verbatim>\<open>sys_sleep\<close>, which return 0.
  \<open>K_timer\<close>: the end of a timer interrupt. \<open>K_spin\<close>: the loop of \<^verbatim>\<open>MutexSpin::lock\<close>. \<open>K_locked\<close>: the end of
  \<^verbatim>\<open>MutexBlocking::lock\<close>. \<open>K_down\<close>: the end of \<^verbatim>\<open>Semaphore::down\<close>. \<open>K_relock\<close>: the \<^verbatim>\<open>mutex.lock()\<close> that ends
  \<^verbatim>\<open>Condvar::wait\<close>. \<open>K_read\<close>, \<open>K_write\<close>: the loops of \<^verbatim>\<open>Pipe::read\<close> and \<^verbatim>\<open>Pipe::write\<close> with their count and iterator.
  \<open>K_stdin\<close>: the loop of \<^verbatim>\<open>Stdin::read\<close> with its buffer. \<open>K_none\<close>: the task runs, or it has exited. The last
  argument lists the processes that the system call holds.
\<close>

datatype kcont =
    K_start TaskContext
  | K_zero
  | K_timer
  | K_spin nat "nat list"
  | K_locked nat "nat list"
  | K_down nat "nat list"
  | K_relock nat nat "nat list"
  | K_read Pipe nat UserBufferIterator "nat list"
  | K_write Pipe nat UserBufferIterator "nat list"
  | K_stdin UserBuffer "nat list"
  | K_none

fun kcont_processes :: "kcont \<Rightarrow> nat list" where
  "kcont_processes (K_spin m ps) = ps"
| "kcont_processes (K_locked m ps) = ps"
| "kcont_processes (K_down s ps) = ps"
| "kcont_processes (K_relock c m ps) = ps"
| "kcont_processes (K_read p n it ps) = ps"
| "kcont_processes (K_write p n it ps) = ps"
| "kcont_processes (K_stdin ub ps) = ps"
| "kcont_processes _ = []"

fun kcont_pipes :: "kcont \<Rightarrow> Pipe list" where
  "kcont_pipes (K_read p n it ps) = [p]"
| "kcont_pipes (K_write p n it ps) = [p]"
| "kcont_pipes _ = []"

fun kcont_mutexes :: "kcont \<Rightarrow> nat list" where
  "kcont_mutexes (K_spin m ps) = [m]"
| "kcont_mutexes (K_locked m ps) = [m]"
| "kcont_mutexes (K_relock c m ps) = [m]"
| "kcont_mutexes _ = []"

fun kcont_semaphores :: "kcont \<Rightarrow> nat list" where
  "kcont_semaphores (K_down s ps) = [s]"
| "kcont_semaphores _ = []"

fun kcont_condvars :: "kcont \<Rightarrow> nat list" where
  "kcont_condvars (K_relock c m ps) = [c]"
| "kcont_condvars _ = []"

section \<open>Control blocks\<close>

type_synonym i32 = "32 word"

datatype TaskStatus = Ready | Running | Blocking

record TaskUserRes =
  tid :: usize
  ustack_base :: usize
  res_process :: nat

record TaskControlBlock =
  tcb_process :: nat
  kstack :: usize
  res :: "TaskUserRes option"
  trap_cx_ppn :: PhysPageNum
  task_cx :: kcont
  task_status :: TaskStatus
  tcb_exit_code :: "i32 option"

datatype Mutex = Spin MutexSpin | BlockingMutex "nat MutexBlockingInner"

record ProcessControlBlock =
  pid :: usize
  is_zombie :: bool
  memory_set :: MemorySet
  parent :: "nat option"
  children :: "nat list"
  exit_code :: i32
  fd_table :: "File option list"
  signals :: u32
  tasks :: "nat option list"
  task_res_allocator :: RecycleAllocator
  mutex_list :: "nat option list"
  semaphore_list :: "nat option list"
  condvar_list :: "nat option list"

section \<open>The kernel\<close>

record 'd kernel = machine +
  KERNEL_SPACE :: MemorySet
  PID_ALLOCATOR :: RecycleAllocator
  KSTACK_ALLOCATOR :: RecycleAllocator
  ready_queue :: "nat list"
  PID2PCB :: "(usize \<times> nat) list"
  current :: "nat option"
  TIMERS :: "nat TimerCondVar list"
  pcbs :: "ProcessControlBlock option list"
  tcbs :: "TaskControlBlock option list"
  mutexes :: "Mutex list"
  semaphores :: "nat SemaphoreInner list"
  condvars :: "nat CondvarInner list"
  pipe_buffers :: "PipeRingBuffer list"
  os_inodes :: "OSInode list"
  ROOT_INODE :: "(EasyFileSystem \<times> Inode) option"
  INITPROC :: "nat option"
  file_system :: "'d cache_state"
  borrowed_pcbs :: "nat list"
  borrowed_tcbs :: "nat list"
  lost_frames :: "kcont list"
  time :: usize
  next_timer :: usize
  satp :: usize
  console_in :: "usize list"
  console_out :: "usize list"

text \<open>Running file system code on the file system's part of the state.\<close>

definition on_fs :: "('d cache_state, 'a) prog \<Rightarrow> ('d kernel, 'a) prog" where
  "on_fs p k = (case p (file_system k) of Inl e \<Rightarrow> Inl e | Inr (x, c) \<Rightarrow> Inr (x, k\<lparr>file_system := c\<rparr>))"

section \<open>Access to control blocks\<close>

definition slot :: "'a option list \<Rightarrow> nat \<Rightarrow> 'a option" where
  "slot xs i = (if i < length xs then xs ! i else None)"

text \<open>
  \<open>pcb p\<close> is the block behind an \<^verbatim>\<open>Arc\<close>, or behind a \<^verbatim>\<open>Weak\<close> after \<^verbatim>\<open>upgrade().unwrap()\<close>. \<open>borrow_pcb\<close> and
  \<open>release_pcb\<close> are the two ends of the life of a \<^verbatim>\<open>RefMut\<close>; \<open>read_pcb\<close> and \<open>write_pcb\<close> borrow for one
  expression; \<open>pcb\<close> and \<open>set_pcb\<close> are accesses through a \<^verbatim>\<open>RefMut\<close> that is held.
\<close>

definition pcb :: "nat \<Rightarrow> ('d kernel, ProcessControlBlock) prog" where
  "pcb p = andthen (gets (\<lambda>k. slot (pcbs k) p)) unwrap"

definition set_pcb :: "nat \<Rightarrow> (ProcessControlBlock \<Rightarrow> ProcessControlBlock) \<Rightarrow> ('d kernel, unit) prog" where
  "set_pcb p f = andthen (pcb p) (\<lambda>b. modifies (\<lambda>k. k\<lparr>pcbs := (pcbs k)[p := Some (f b)]\<rparr>))"

definition borrow_pcb :: "nat \<Rightarrow> ('d kernel, unit) prog" where
  "borrow_pcb p = andthen (gets borrowed_pcbs) (\<lambda>bs.
     if p \<in> set bs then throw AlreadyBorrowed else modifies (\<lambda>k. k\<lparr>borrowed_pcbs := p # bs\<rparr>))"

definition release_pcb :: "nat \<Rightarrow> ('d kernel, unit) prog" where
  "release_pcb p = modifies (\<lambda>k. k\<lparr>borrowed_pcbs := removeAll p (borrowed_pcbs k)\<rparr>)"

definition with_pcb :: "nat \<Rightarrow> ('d kernel, 'a) prog \<Rightarrow> ('d kernel, 'a) prog" where
  "with_pcb p body = andthen (borrow_pcb p) (\<lambda>_. andthen body (\<lambda>x. andthen (release_pcb p) (\<lambda>_. ret x)))"

definition read_pcb :: "nat \<Rightarrow> (ProcessControlBlock \<Rightarrow> 'a) \<Rightarrow> ('d kernel, 'a) prog" where
  "read_pcb p f = with_pcb p (andthen (pcb p) (\<lambda>b. ret (f b)))"

definition write_pcb :: "nat \<Rightarrow> (ProcessControlBlock \<Rightarrow> ProcessControlBlock) \<Rightarrow> ('d kernel, unit) prog" where
  "write_pcb p f = with_pcb p (set_pcb p f)"

definition tcb :: "nat \<Rightarrow> ('d kernel, TaskControlBlock) prog" where
  "tcb t = andthen (gets (\<lambda>k. slot (tcbs k) t)) unwrap"

definition set_tcb :: "nat \<Rightarrow> (TaskControlBlock \<Rightarrow> TaskControlBlock) \<Rightarrow> ('d kernel, unit) prog" where
  "set_tcb t f = andthen (tcb t) (\<lambda>b. modifies (\<lambda>k. k\<lparr>tcbs := (tcbs k)[t := Some (f b)]\<rparr>))"

definition borrow_tcb :: "nat \<Rightarrow> ('d kernel, unit) prog" where
  "borrow_tcb t = andthen (gets borrowed_tcbs) (\<lambda>bs.
     if t \<in> set bs then throw AlreadyBorrowed else modifies (\<lambda>k. k\<lparr>borrowed_tcbs := t # bs\<rparr>))"

definition release_tcb :: "nat \<Rightarrow> ('d kernel, unit) prog" where
  "release_tcb t = modifies (\<lambda>k. k\<lparr>borrowed_tcbs := removeAll t (borrowed_tcbs k)\<rparr>)"

definition with_tcb :: "nat \<Rightarrow> ('d kernel, 'a) prog \<Rightarrow> ('d kernel, 'a) prog" where
  "with_tcb t body = andthen (borrow_tcb t) (\<lambda>_. andthen body (\<lambda>x. andthen (release_tcb t) (\<lambda>_. ret x)))"

definition read_tcb :: "nat \<Rightarrow> (TaskControlBlock \<Rightarrow> 'a) \<Rightarrow> ('d kernel, 'a) prog" where
  "read_tcb t f = with_tcb t (andthen (tcb t) (\<lambda>b. ret (f b)))"

definition write_tcb :: "nat \<Rightarrow> (TaskControlBlock \<Rightarrow> TaskControlBlock) \<Rightarrow> ('d kernel, unit) prog" where
  "write_tcb t f = with_tcb t (set_tcb t f)"

text \<open>Indexing a \<^verbatim>\<open>Vec\<close>.\<close>

definition vec_at :: "'a list \<Rightarrow> nat \<Rightarrow> ('s, 'a) prog" where
  "vec_at xs i = (if i < length xs then ret (xs ! i) else throw IndexOutOfRange)"

section \<open>Strong counts\<close>

definition live :: "'a option list \<Rightarrow> 'a list" where
  "live xs = concat (map (\<lambda>x. case x of None \<Rightarrow> [] | Some y \<Rightarrow> [y]) xs)"

definition frames :: "'d kernel \<Rightarrow> kcont list" where
  "frames k = map task_cx (live (tcbs k)) @ lost_frames k"

text \<open>
  The \<^verbatim>\<open>Arc<ProcessControlBlock>\<close>s outside the locals of the running function: in the children lists, in
  \<^verbatim>\<open>PID2PCB\<close>, in \<^verbatim>\<open>INITPROC\<close> and on the kernel stacks of the other tasks.
\<close>

definition process_strong_count :: "'d kernel \<Rightarrow> nat \<Rightarrow> nat" where
  "process_strong_count k p =
     length (filter (\<lambda>q. q = p)
       (concat (map children (live (pcbs k))) @ map snd (PID2PCB k) @
        (case INITPROC k of None \<Rightarrow> [] | Some q \<Rightarrow> [q]) @ concat (map kcont_processes (frames k))))"

definition mutex_waiters :: "Mutex \<Rightarrow> nat list" where
  "mutex_waiters m = (case m of Spin _ \<Rightarrow> [] | BlockingMutex b \<Rightarrow> mb_wait_queue b)"

text \<open>
  The \<^verbatim>\<open>Arc<TaskControlBlock>\<close>s: in the task lists of the processes, the ready queue, the processor, the
  timers and the queues of the synchronisation objects that some process or kernel stack holds.
\<close>

definition sync_objects :: "(ProcessControlBlock \<Rightarrow> nat option list) \<Rightarrow> (kcont \<Rightarrow> nat list) \<Rightarrow> 'd kernel \<Rightarrow> nat list" where
  "sync_objects f g k = remdups (concat (map (live \<circ> f) (live (pcbs k))) @ concat (map g (frames k)))"

definition task_strong_count :: "'d kernel \<Rightarrow> nat \<Rightarrow> nat" where
  "task_strong_count k t =
     length (filter (\<lambda>u. u = t)
       (concat (map (live \<circ> tasks) (live (pcbs k))) @ ready_queue k @
        (case current k of None \<Rightarrow> [] | Some u \<Rightarrow> [u]) @ map timer_task (TIMERS k) @
        concat (map (\<lambda>i. mutex_waiters (mutexes k ! i)) (sync_objects mutex_list kcont_mutexes k)) @
        concat (map (\<lambda>i. sem_wait_queue (semaphores k ! i)) (sync_objects semaphore_list kcont_semaphores k)) @
        concat (map (\<lambda>i. cv_wait_queue (condvars k ! i)) (sync_objects condvar_list kcont_condvars k))))"

text \<open>\<^verbatim>\<open>upgrade\<close> of the weak reference to the write end of pipe buffer \<open>b\<close>.\<close>

definition write_end_alive :: "'d kernel \<Rightarrow> nat \<Rightarrow> bool" where
  "write_end_alive k b \<longleftrightarrow>
     list_ex (\<lambda>f. case f of PipeFile p \<Rightarrow> pipe_writable p \<and> pipe_buffer p = b | _ \<Rightarrow> False)
       (concat (map (live \<circ> fd_table) (live (pcbs k)))) \<or>
     list_ex (\<lambda>p. pipe_writable p \<and> pipe_buffer p = b) (concat (map kcont_pipes (frames k)))"

section \<open>The scheduler's queues\<close>

definition TaskManager_add :: "'t \<Rightarrow> 't list \<Rightarrow> 't list" where
  "TaskManager_add task rq = rq @ [task]"

definition TaskManager_fetch :: "'t list \<Rightarrow> 't option \<times> 't list" where
  "TaskManager_fetch rq = (case rq of [] \<Rightarrow> (None, []) | task # rest \<Rightarrow> (Some task, rest))"

definition add_task :: "nat \<Rightarrow> ('d kernel, unit) prog" where
  "add_task task = modifies (\<lambda>k. k\<lparr>ready_queue := TaskManager_add task (ready_queue k)\<rparr>)"

definition fetch_task :: "('d kernel, nat option) prog" where
  "fetch_task = andthen (gets (\<lambda>k. TaskManager_fetch (ready_queue k))) (\<lambda>(r, rq).
     andthen (modifies (\<lambda>k. k\<lparr>ready_queue := rq\<rparr>)) (\<lambda>_. ret r))"

definition pid2process :: "usize \<Rightarrow> ('d kernel, nat option) prog" where
  "pid2process i = gets (\<lambda>k. map_of (PID2PCB k) i)"

definition insert_into_pid2process :: "usize \<Rightarrow> nat \<Rightarrow> ('d kernel, unit) prog" where
  "insert_into_pid2process i process = modifies (\<lambda>k. k\<lparr>PID2PCB := AList.update i process (PID2PCB k)\<rparr>)"

definition remove_from_pid2process :: "usize \<Rightarrow> ('d kernel, unit) prog" where
  "remove_from_pid2process i = andthen (pid2process i) (\<lambda>r.
     if r = None then throw ExplicitPanic
     else modifies (\<lambda>k. k\<lparr>PID2PCB := AList.delete i (PID2PCB k)\<rparr>))"

definition take_current_task :: "('d kernel, nat option) prog" where
  "take_current_task = andthen (gets current) (\<lambda>r. andthen (modifies (\<lambda>k. k\<lparr>current := None\<rparr>)) (\<lambda>_. ret r))"

definition current_task :: "('d kernel, nat option) prog" where
  "current_task = gets current"

text \<open>\<^verbatim>\<open>task.process.upgrade().unwrap()\<close>.\<close>

definition process_of :: "nat \<Rightarrow> ('d kernel, nat) prog" where
  "process_of t = andthen (tcb t) (\<lambda>b. andthen (pcb (tcb_process b)) (\<lambda>_. ret (tcb_process b)))"

definition current_process :: "('d kernel, nat) prog" where
  "current_process = andthen current_task (\<lambda>r. andthen (unwrap r) process_of)"

definition get_user_token :: "nat \<Rightarrow> ('d kernel, usize) prog" where
  "get_user_token t = andthen (process_of t) (\<lambda>p. read_pcb p (\<lambda>b. MemorySet_token (memory_set b)))"

definition current_user_token :: "('d kernel, usize) prog" where
  "current_user_token = andthen current_task (\<lambda>r. andthen (unwrap r) get_user_token)"

definition current_trap_cx :: "('d kernel, PhysPageNum) prog" where
  "current_trap_cx = andthen current_task (\<lambda>r. andthen (unwrap r) (\<lambda>t. read_tcb t trap_cx_ppn))"

section \<open>Signals\<close>

definition SIGINT :: u32 where "SIGINT = push_bit 2 1"
definition SIGILL :: u32 where "SIGILL = push_bit 4 1"
definition SIGABRT :: u32 where "SIGABRT = push_bit 6 1"
definition SIGFPE :: u32 where "SIGFPE = push_bit 8 1"
definition SIGSEGV :: u32 where "SIGSEGV = push_bit 11 1"

definition SignalFlags_contains :: "u32 \<Rightarrow> u32 \<Rightarrow> bool" where
  "SignalFlags_contains flags f \<longleftrightarrow> flags AND f = f"

definition SignalFlags_from_bits :: "u32 \<Rightarrow> u32 option" where
  "SignalFlags_from_bits bits =
     (if bits AND NOT (SIGINT OR SIGILL OR SIGABRT OR SIGFPE OR SIGSEGV) = 0 then Some bits else None)"

definition check_error :: "u32 \<Rightarrow> (i32 \<times> string) option" where
  "check_error flags =
     (if SignalFlags_contains flags SIGINT then Some (- 2, ''Killed, SIGINT=2'')
      else if SignalFlags_contains flags SIGILL then Some (- 4, ''Illegal Instruction, SIGILL=4'')
      else if SignalFlags_contains flags SIGABRT then Some (- 6, ''Aborted, SIGABRT=6'')
      else if SignalFlags_contains flags SIGFPE then Some (- 8, ''Erroneous Arithmetic Operation, SIGFPE=8'')
      else if SignalFlags_contains flags SIGSEGV then Some (- 11, ''Segmentation Fault, SIGSEGV=11'')
      else None)"

definition check_signals_of_current :: "('d kernel, (i32 \<times> string) option) prog" where
  "check_signals_of_current = andthen current_process (\<lambda>p. read_pcb p (\<lambda>b. check_error (signals b)))"

definition current_add_signal :: "u32 \<Rightarrow> ('d kernel, unit) prog" where
  "current_add_signal signal =
     andthen current_process (\<lambda>p. write_pcb p (\<lambda>b. b\<lparr>signals := signals b OR signal\<rparr>))"

section \<open>The clock and the console\<close>

definition kernel_get_time_ms :: "'d platform \<Rightarrow> ('d kernel, usize) prog" where
  "kernel_get_time_ms pf = gets (\<lambda>k. get_time_ms (clock_freq pf) (time k))"

definition set_next_trigger :: "'d platform \<Rightarrow> ('d kernel, unit) prog" where
  "set_next_trigger pf = modifies (\<lambda>k. k\<lparr>next_timer := next_trigger (clock_freq pf) (time k)\<rparr>)"

definition check_timer :: "'d platform \<Rightarrow> ('d kernel, unit) prog" where
  "check_timer pf =
     andthen (kernel_get_time_ms pf) (\<lambda>current_ms.
     andthen (gets (\<lambda>k. check_timer_loop current_ms (TIMERS k))) (\<lambda>(woken, timers).
     andthen (for_each woken add_task) (\<lambda>_.
     modifies (\<lambda>k. k\<lparr>TIMERS := timers\<rparr>))))"

text \<open>\<^verbatim>\<open>print!\<close> gives the characters of a string to the console.\<close>

definition console_print :: "usize list \<Rightarrow> ('d kernel, unit) prog" where
  "console_print cs = modifies (\<lambda>k. k\<lparr>console_out := console_out k @ cs\<rparr>)"

definition println :: "string \<Rightarrow> ('d kernel, unit) prog" where
  "println s = console_print (map (\<lambda>c. of_nat (of_char c)) (s @ [CHR 0x0A]))"

text \<open>\<^verbatim>\<open>console_getchar\<close> returns the next word of the console's input, 0 when there is none.\<close>

definition console_getchar :: "('d kernel, usize) prog" where
  "console_getchar = andthen (gets console_in) (\<lambda>cs. case cs of
     [] \<Rightarrow> ret 0
   | c # rest \<Rightarrow> andthen (modifies (\<lambda>k. k\<lparr>console_in := rest\<rparr>)) (\<lambda>_. ret c))"

end
