(* ===== verification/Process.thy ===== *)
theory Process
  imports Kernel_State
begin

unbundle bit_operations_syntax

text \<open>
  Tasks and processes: kernel stacks and the user resources of threads (\<^verbatim>\<open>os/src/task/id.rs\<close>), task control
  blocks (\<^verbatim>\<open>task.rs\<close>) and process control blocks with \<^verbatim>\<open>new\<close>, \<^verbatim>\<open>exec\<close> and \<^verbatim>\<open>fork\<close> (\<^verbatim>\<open>process.rs\<close>), and what runs when
  the last reference to one of them goes away.
\<close>

section \<open>Pids and kernel stacks\<close>

definition pid_alloc :: "('d kernel, usize) prog" where
  "pid_alloc = andthen (gets (\<lambda>k. RecycleAllocator_alloc (PID_ALLOCATOR k))) (\<lambda>(i, a).
     andthen (modifies (\<lambda>k. k\<lparr>PID_ALLOCATOR := a\<rparr>)) (\<lambda>_. ret i))"

definition PidHandle_drop :: "usize \<Rightarrow> ('d kernel, unit) prog" where
  "PidHandle_drop i = andthen (gets (\<lambda>k. RecycleAllocator_dealloc i (PID_ALLOCATOR k))) (\<lambda>r.
     andthen (lift_res r) (\<lambda>a. modifies (\<lambda>k. k\<lparr>PID_ALLOCATOR := a\<rparr>)))"

definition kernel_stack_position :: "usize \<Rightarrow> usize \<times> usize" where
  "kernel_stack_position kstack_id =
     (let top = TRAMPOLINE - kstack_id * (KERNEL_STACK_SIZE + PAGE_SIZE);
          bottom = top - KERNEL_STACK_SIZE
      in (bottom, top))"

definition kstack_alloc :: "('d kernel, usize) prog" where
  "kstack_alloc =
     andthen (gets (\<lambda>k. RecycleAllocator_alloc (KSTACK_ALLOCATOR k))) (\<lambda>(kstack_id, a).
     andthen (modifies (\<lambda>k. k\<lparr>KSTACK_ALLOCATOR := a\<rparr>)) (\<lambda>_.
     case kernel_stack_position kstack_id of (kstack_bottom, kstack_top) \<Rightarrow>
     andthen (gets KERNEL_SPACE) (\<lambda>ks.
     andthen (MemorySet_insert_framed_area ks (VirtAddr_from kstack_bottom) (VirtAddr_from kstack_top) (MP_R OR MP_W)) (\<lambda>ks'.
     andthen (modifies (\<lambda>k. k\<lparr>KERNEL_SPACE := ks'\<rparr>)) (\<lambda>_.
     ret kstack_id)))))"

definition KernelStack_drop :: "usize \<Rightarrow> ('d kernel, unit) prog" where
  "KernelStack_drop kstack_id =
     andthen (lift_res (VirtPageNum_from_va (VirtAddr_from (fst (kernel_stack_position kstack_id))))) (\<lambda>vpn.
     andthen (gets KERNEL_SPACE) (\<lambda>ks.
     andthen (MemorySet_remove_area_with_start_vpn ks vpn) (\<lambda>ks'.
     modifies (\<lambda>k. k\<lparr>KERNEL_SPACE := ks'\<rparr>))))"

definition KernelStack_get_top :: "usize \<Rightarrow> usize" where
  "KernelStack_get_top kstack_id = snd (kernel_stack_position kstack_id)"

section \<open>The user resources of a thread\<close>

definition trap_cx_bottom_from_tid :: "usize \<Rightarrow> usize" where
  "trap_cx_bottom_from_tid i = TRAP_CONTEXT_BASE - i * PAGE_SIZE"

definition ustack_bottom_from_tid :: "usize \<Rightarrow> usize \<Rightarrow> usize" where
  "ustack_bottom_from_tid base i = base + i * (PAGE_SIZE + USER_STACK_SIZE)"

definition alloc_tid :: "ProcessControlBlock \<Rightarrow> usize \<times> ProcessControlBlock" where
  "alloc_tid b = (case RecycleAllocator_alloc (task_res_allocator b) of (i, a) \<Rightarrow> (i, b\<lparr>task_res_allocator := a\<rparr>))"

definition dealloc_tid :: "usize \<Rightarrow> ProcessControlBlock \<Rightarrow> ProcessControlBlock res" where
  "dealloc_tid i b = (case RecycleAllocator_dealloc i (task_res_allocator b) of
     Inl e \<Rightarrow> Inl e | Inr a \<Rightarrow> Inr (b\<lparr>task_res_allocator := a\<rparr>))"

definition on_memory_set :: "nat \<Rightarrow> (MemorySet \<Rightarrow> ('d kernel, MemorySet) prog) \<Rightarrow> ('d kernel, unit) prog" where
  "on_memory_set p f = andthen (pcb p) (\<lambda>b. andthen (f (memory_set b)) (\<lambda>ms. set_pcb p (\<lambda>b. b\<lparr>memory_set := ms\<rparr>)))"

definition alloc_user_res :: "TaskUserRes \<Rightarrow> ('d kernel, unit) prog" where
  "alloc_user_res r =
     andthen (pcb (res_process r)) (\<lambda>_.
     with_pcb (res_process r)
       (let ustack_bottom = ustack_bottom_from_tid (ustack_base r) (tid r);
            ustack_top = ustack_bottom + USER_STACK_SIZE;
            trap_cx_bottom = trap_cx_bottom_from_tid (tid r);
            trap_cx_top = trap_cx_bottom + PAGE_SIZE in
        andthen (on_memory_set (res_process r) (\<lambda>ms. MemorySet_insert_framed_area ms
          (VirtAddr_from ustack_bottom) (VirtAddr_from ustack_top) (MP_R OR MP_W OR MP_U))) (\<lambda>_.
        on_memory_set (res_process r) (\<lambda>ms. MemorySet_insert_framed_area ms
          (VirtAddr_from trap_cx_bottom) (VirtAddr_from trap_cx_top) (MP_R OR MP_W)))))"

definition TaskUserRes_new :: "nat \<Rightarrow> usize \<Rightarrow> bool \<Rightarrow> ('d kernel, TaskUserRes) prog" where
  "TaskUserRes_new process base with_user_res =
     andthen (with_pcb process (andthen (pcb process) (\<lambda>b. case alloc_tid b of (i, b') \<Rightarrow>
       andthen (set_pcb process (\<lambda>_. b')) (\<lambda>_. ret i)))) (\<lambda>i.
     let r = \<lparr>tid = i, ustack_base = base, res_process = process\<rparr> in
     andthen (if with_user_res then alloc_user_res r else ret ()) (\<lambda>_. ret r))"

definition remove_user_area :: "nat \<Rightarrow> usize \<Rightarrow> ('d kernel, unit) prog" where
  "remove_user_area process bottom =
     andthen (lift_res (VirtPageNum_from_va (VirtAddr_from bottom))) (\<lambda>vpn.
     on_memory_set process (\<lambda>ms. MemorySet_remove_area_with_start_vpn ms vpn))"

definition dealloc_user_res :: "TaskUserRes \<Rightarrow> ('d kernel, unit) prog" where
  "dealloc_user_res r =
     andthen (pcb (res_process r)) (\<lambda>_.
     with_pcb (res_process r)
       (andthen (remove_user_area (res_process r) (ustack_bottom_from_tid (ustack_base r) (tid r))) (\<lambda>_.
        remove_user_area (res_process r) (trap_cx_bottom_from_tid (tid r)))))"

definition TaskUserRes_dealloc_tid :: "TaskUserRes \<Rightarrow> ('d kernel, unit) prog" where
  "TaskUserRes_dealloc_tid r =
     andthen (pcb (res_process r)) (\<lambda>_.
     with_pcb (res_process r) (andthen (pcb (res_process r)) (\<lambda>b.
       andthen (lift_res (dealloc_tid (tid r) b)) (\<lambda>b'. set_pcb (res_process r) (\<lambda>_. b')))))"

definition TaskUserRes_drop :: "TaskUserRes \<Rightarrow> ('d kernel, unit) prog" where
  "TaskUserRes_drop r = andthen (TaskUserRes_dealloc_tid r) (\<lambda>_. dealloc_user_res r)"

definition trap_cx_user_va :: "TaskUserRes \<Rightarrow> usize" where
  "trap_cx_user_va r = trap_cx_bottom_from_tid (tid r)"

definition TaskUserRes_trap_cx_ppn :: "TaskUserRes \<Rightarrow> ('d kernel, PhysPageNum) prog" where
  "TaskUserRes_trap_cx_ppn r =
     andthen (pcb (res_process r)) (\<lambda>_.
     with_pcb (res_process r)
       (andthen (pcb (res_process r)) (\<lambda>b.
        andthen (lift_res (VirtPageNum_from_va (VirtAddr_from (trap_cx_bottom_from_tid (tid r))))) (\<lambda>vpn.
        andthen (gets (\<lambda>k. MemorySet_translate (mem k) (memory_set b) vpn)) (\<lambda>pte.
        andthen (unwrap pte) (\<lambda>e. ret (pte_ppn e)))))))"

definition ustack_top :: "TaskUserRes \<Rightarrow> usize" where
  "ustack_top r = ustack_bottom_from_tid (ustack_base r) (tid r) + USER_STACK_SIZE"

text \<open>Assigning \<^verbatim>\<open>task_inner.res = None\<close> drops the old value.\<close>

definition clear_res :: "nat \<Rightarrow> ('d kernel, unit) prog" where
  "clear_res t =
     andthen (tcb t) (\<lambda>b.
     andthen (case res b of None \<Rightarrow> ret () | Some r \<Rightarrow> TaskUserRes_drop r) (\<lambda>_.
     set_tcb t (\<lambda>b. b\<lparr>res := None\<rparr>)))"

section \<open>Task control blocks\<close>

definition Arc_new_tcb :: "TaskControlBlock \<Rightarrow> ('d kernel, nat) prog" where
  "Arc_new_tcb b = andthen (gets (\<lambda>k. length (tcbs k))) (\<lambda>t.
     andthen (modifies (\<lambda>k. k\<lparr>tcbs := tcbs k @ [Some b]\<rparr>)) (\<lambda>_. ret t))"

definition TaskControlBlock_new ::
    "'d platform \<Rightarrow> nat \<Rightarrow> usize \<Rightarrow> bool \<Rightarrow> ('d kernel, TaskControlBlock) prog" where
  "TaskControlBlock_new pf process base with_user_res =
     andthen (TaskUserRes_new process base with_user_res) (\<lambda>r.
     andthen (TaskUserRes_trap_cx_ppn r) (\<lambda>ppn.
     andthen kstack_alloc (\<lambda>ks.
     ret \<lparr>tcb_process = process, kstack = ks, res = Some r, trap_cx_ppn = ppn,
          task_cx = K_start (goto_trap_return pf (KernelStack_get_top ks)),
          task_status = Ready, tcb_exit_code = None\<rparr>)))"

text \<open>
  Dropping the last reference to a task frees its kernel stack and then its resources. What is left on
  that stack is never run, so the references there are never given back.
\<close>

definition drop_task :: "nat \<Rightarrow> ('d kernel, unit) prog" where
  "drop_task t =
     andthen (tcb t) (\<lambda>b.
     andthen (modifies (\<lambda>k. k\<lparr>tcbs := (tcbs k)[t := None], lost_frames := lost_frames k @ [task_cx b]\<rparr>)) (\<lambda>_.
     andthen (KernelStack_drop (kstack b)) (\<lambda>_.
     case res b of None \<Rightarrow> ret () | Some r \<Rightarrow> TaskUserRes_drop r)))"

definition drop_task_arc :: "nat \<Rightarrow> ('d kernel, unit) prog" where
  "drop_task_arc t = andthen (gets (\<lambda>k. task_strong_count k t = 0 \<and> slot (tcbs k) t \<noteq> None)) (\<lambda>unused.
     if unused then drop_task t else ret ())"

section \<open>Process control blocks\<close>

definition Arc_new_pcb :: "ProcessControlBlock \<Rightarrow> ('d kernel, nat) prog" where
  "Arc_new_pcb b = andthen (gets (\<lambda>k. length (pcbs k))) (\<lambda>p.
     andthen (modifies (\<lambda>k. k\<lparr>pcbs := pcbs k @ [Some b]\<rparr>)) (\<lambda>_. ret p))"

definition get_task :: "ProcessControlBlock \<Rightarrow> usize \<Rightarrow> ('d kernel, nat) prog" where
  "get_task b i = andthen (vec_at (tasks b) (unat i)) unwrap"

definition alloc_fd :: "ProcessControlBlock \<Rightarrow> nat \<times> ProcessControlBlock" where
  "alloc_fd b = (case position (\<lambda>f. f = None) (fd_table b) of
     Some fd \<Rightarrow> (fd, b)
   | None \<Rightarrow> (length (fd_table b), b\<lparr>fd_table := fd_table b @ [None]\<rparr>))"

definition thread_count :: "ProcessControlBlock \<Rightarrow> nat" where
  "thread_count b = length (tasks b)"

text \<open>
  Dropping the last reference to a process: its pid, its address space, its children, its tasks and the
  tasks that wait on its synchronisation objects. A dropped process is out of the list of processes,
  so the recursion ends within as many rounds as there are processes.
\<close>

definition process_waiters :: "'d kernel \<Rightarrow> ProcessControlBlock \<Rightarrow> nat list" where
  "process_waiters k b =
     concat (map (\<lambda>i. mutex_waiters (mutexes k ! i)) (live (mutex_list b))) @
     concat (map (\<lambda>i. sem_wait_queue (semaphores k ! i)) (live (semaphore_list b))) @
     concat (map (\<lambda>i. cv_wait_queue (condvars k ! i)) (live (condvar_list b)))"

fun drop_process :: "nat \<Rightarrow> nat \<Rightarrow> ('d kernel, unit) prog" where
  "drop_process 0 p = throw NeverReturns"
| "drop_process (Suc n) p =
     andthen (pcb p) (\<lambda>b.
     andthen (modifies (\<lambda>k. k\<lparr>pcbs := (pcbs k)[p := None]\<rparr>)) (\<lambda>_.
     andthen (PidHandle_drop (pid b)) (\<lambda>_.
     andthen (MemorySet_drop (memory_set b)) (\<lambda>_.
     andthen (for_each (children b) (\<lambda>c. andthen (gets (\<lambda>k. process_strong_count k c = 0 \<and> slot (pcbs k) c \<noteq> None)) (\<lambda>unused.
       if unused then drop_process n c else ret ()))) (\<lambda>_.
     andthen (for_each (live (tasks b)) drop_task_arc) (\<lambda>_.
     andthen (gets (\<lambda>k. process_waiters k b)) (\<lambda>ws.
     for_each ws drop_task_arc)))))))"

definition drop_process_arc :: "nat \<Rightarrow> ('d kernel, unit) prog" where
  "drop_process_arc p = andthen (gets (\<lambda>k. process_strong_count k p = 0 \<and> slot (pcbs k) p \<noteq> None)) (\<lambda>unused.
     if unused then andthen (gets (\<lambda>k. length (pcbs k))) (\<lambda>n. drop_process (Suc n) p) else ret ())"

section \<open>Creating a process\<close>

definition write_trap_cx :: "PhysPageNum \<Rightarrow> TrapContext \<Rightarrow> ('d kernel, unit) prog" where
  "write_trap_cx ppn cx = modifies (\<lambda>k. k\<lparr>mem := store_bytes (ppn_base ppn) (trap_cx_bytes cx) (mem k)\<rparr>)"

definition set_trap_cx_word :: "PhysPageNum \<Rightarrow> nat \<Rightarrow> usize \<Rightarrow> ('d kernel, unit) prog" where
  "set_trap_cx_word ppn i v = modifies (\<lambda>k. k\<lparr>mem := store64 (trap_cx_word ppn i) v (mem k)\<rparr>)"

definition kernel_token :: "('d kernel, usize) prog" where
  "kernel_token = gets (\<lambda>k. MemorySet_token (KERNEL_SPACE k))"

definition ProcessControlBlock_new :: "'d platform \<Rightarrow> byte list \<Rightarrow> ('d kernel, nat) prog" where
  "ProcessControlBlock_new pf elf_data =
     andthen (MemorySet_from_elf (ElfFile_new pf) (strampoline (symbols pf)) elf_data) (\<lambda>(ms, base, entry_va).
     andthen pid_alloc (\<lambda>pid_handle.
     andthen (Arc_new_pcb \<lparr>pid = pid_handle, is_zombie = False, memory_set = ms, parent = None, children = [],
       exit_code = 0, fd_table = [Some Stdin, Some Stdout, Some Stdout], signals = 0, tasks = [],
       task_res_allocator = RecycleAllocator_new, mutex_list = [], semaphore_list = [], condvar_list = []\<rparr>) (\<lambda>process.
     andthen (TaskControlBlock_new pf process base True) (\<lambda>b.
     andthen (Arc_new_tcb b) (\<lambda>task.
     andthen (read_tcb task (\<lambda>b. (trap_cx_ppn b, res b))) (\<lambda>(ppn, r).
     andthen (unwrap r) (\<lambda>r.
     andthen kernel_token (\<lambda>token.
     andthen (write_trap_cx ppn (app_init_context pf entry_va (ustack_top r) token (KernelStack_get_top (kstack b))
       (trap_handler_addr pf))) (\<lambda>_.
     andthen (write_pcb process (\<lambda>b. b\<lparr>tasks := tasks b @ [Some task]\<rparr>)) (\<lambda>_.
     andthen (insert_into_pid2process pid_handle process) (\<lambda>_.
     andthen (add_task task) (\<lambda>_.
     ret process))))))))))))"

section \<open>exec\<close>

fun map_prog :: "('a \<Rightarrow> ('s, 'b) prog) \<Rightarrow> 'a list \<Rightarrow> ('s, 'b list) prog" where
  "map_prog f [] = ret []"
| "map_prog f (x # xs) = andthen (f x) (\<lambda>y. andthen (map_prog f xs) (\<lambda>ys. ret (y # ys)))"

definition user_refmut :: "usize \<Rightarrow> usize \<Rightarrow> ('d kernel, nat) prog" where
  "user_refmut token ptr = andthen (gets (\<lambda>k. translated_refmut (mem k) token ptr)) lift_res"

definition store_word :: "nat \<Rightarrow> usize \<Rightarrow> ('d kernel, unit) prog" where
  "store_word a v = modifies (\<lambda>k. k\<lparr>mem := store64 a v (mem k)\<rparr>)"

definition store_user_byte :: "usize \<Rightarrow> usize \<Rightarrow> byte \<Rightarrow> ('d kernel, unit) prog" where
  "store_user_byte token ptr v = andthen (user_refmut token ptr) (\<lambda>a. modifies (\<lambda>k. k\<lparr>mem := (mem k)(a := v)\<rparr>))"

fun store_user_bytes :: "usize \<Rightarrow> usize \<Rightarrow> byte list \<Rightarrow> ('d kernel, usize) prog" where
  "store_user_bytes token p [] = ret p"
| "store_user_bytes token p (c # cs) =
     andthen (store_user_byte token p c) (\<lambda>_. store_user_bytes token (p + 1) cs)"

fun push_args :: "usize \<Rightarrow> nat list \<Rightarrow> byte list list \<Rightarrow> usize \<Rightarrow> ('d kernel, usize) prog" where
  "push_args token argv [] user_sp = ret user_sp"
| "push_args token argv (arg # args) user_sp =
     (let user_sp' = user_sp - of_nat (length arg + 1) in
      andthen (vec_at argv 0) (\<lambda>a.
      andthen (store_word a user_sp') (\<lambda>_.
      andthen (store_user_bytes token user_sp' arg) (\<lambda>p.
      andthen (store_user_byte token p 0) (\<lambda>_.
      push_args token (tl argv) args user_sp')))))"

definition exec :: "'d platform \<Rightarrow> nat \<Rightarrow> byte list \<Rightarrow> byte list list \<Rightarrow> ('d kernel, unit) prog" where
  "exec pf p elf_data args =
     andthen (read_pcb p thread_count) (\<lambda>n.
     andthen (assert_that (n = 1)) (\<lambda>_.
     andthen (MemorySet_from_elf (ElfFile_new pf) (strampoline (symbols pf)) elf_data) (\<lambda>(ms, base, entry_va).
     let new_token = MemorySet_token ms in
     andthen (with_pcb p (andthen (pcb p) (\<lambda>b.
       andthen (MemorySet_drop (memory_set b)) (\<lambda>_. set_pcb p (\<lambda>b. b\<lparr>memory_set := ms\<rparr>))))) (\<lambda>_.
     andthen (with_pcb p (andthen (pcb p) (\<lambda>b. get_task b 0))) (\<lambda>task.
     with_tcb task
       (andthen (tcb task) (\<lambda>b.
        andthen (unwrap (res b)) (\<lambda>r0.
        let r = r0\<lparr>ustack_base := base\<rparr> in
        andthen (set_tcb task (\<lambda>b. b\<lparr>res := Some r\<rparr>)) (\<lambda>_.
        andthen (alloc_user_res r) (\<lambda>_.
        andthen (TaskUserRes_trap_cx_ppn r) (\<lambda>ppn.
        andthen (set_tcb task (\<lambda>b. b\<lparr>trap_cx_ppn := ppn\<rparr>)) (\<lambda>_.
        let argv_base = ustack_top r - of_nat (length args + 1) * 8 in
        andthen (map_prog (\<lambda>arg. user_refmut new_token (argv_base + of_nat arg * 8)) [0..<length args + 1]) (\<lambda>argv.
        andthen (vec_at argv (length args)) (\<lambda>a.
        andthen (store_word a 0) (\<lambda>_.
        andthen (push_args new_token argv args argv_base) (\<lambda>user_sp.
        andthen kernel_token (\<lambda>token.
        let trap_cx = app_init_context pf entry_va (user_sp - user_sp mod 8) token
              (KernelStack_get_top (kstack b)) (trap_handler_addr pf) in
        write_trap_cx ppn (trap_cx\<lparr>tc_x := (tc_x trap_cx)[10 := of_nat (length args), 11 := argv_base]\<rparr>))))))))))))))))))"

section \<open>fork\<close>

definition fork :: "'d platform \<Rightarrow> nat \<Rightarrow> ('d kernel, nat) prog" where
  "fork pf p = with_pcb p
     (andthen (pcb p) (\<lambda>parent_inner.
      andthen (assert_that (thread_count parent_inner = 1)) (\<lambda>_.
      andthen (MemorySet_from_existed_user (strampoline (symbols pf)) (memory_set parent_inner)) (\<lambda>ms.
      andthen pid_alloc (\<lambda>pid_handle.
      andthen (Arc_new_pcb \<lparr>pid = pid_handle, is_zombie = False, memory_set = ms, parent = Some p, children = [],
        exit_code = 0, fd_table = fd_table parent_inner, signals = 0, tasks = [],
        task_res_allocator = RecycleAllocator_new, mutex_list = [], semaphore_list = [], condvar_list = []\<rparr>) (\<lambda>child.
      andthen (set_pcb p (\<lambda>b. b\<lparr>children := children b @ [child]\<rparr>)) (\<lambda>_.
      andthen (get_task parent_inner 0) (\<lambda>parent_task.
      andthen (read_tcb parent_task res) (\<lambda>r.
      andthen (unwrap r) (\<lambda>r.
      andthen (TaskControlBlock_new pf child (ustack_base r) False) (\<lambda>b.
      andthen (Arc_new_tcb b) (\<lambda>task.
      andthen (write_pcb child (\<lambda>b. b\<lparr>tasks := tasks b @ [Some task]\<rparr>)) (\<lambda>_.
      andthen (read_tcb task trap_cx_ppn) (\<lambda>ppn.
      andthen (set_trap_cx_word ppn KERNEL_SP_WORD (KernelStack_get_top (kstack b))) (\<lambda>_.
      andthen (insert_into_pid2process pid_handle child) (\<lambda>_.
      andthen (add_task task) (\<lambda>_.
      ret child)))))))))))))))))"

end
