(* ===== verification/Stacks.thy ===== *)
theory Stacks
  imports Process
begin

text \<open>
  Where kernel stacks, user stacks and trap context pages lie (\<^verbatim>\<open>os/src/task/id.rs\<close>): no two of them overlap,
  and an unmapped page lies between any two stacks.
\<close>

lemma stack_sizes [simp]:
  "unat KERNEL_STACK_SIZE = 8192" "unat USER_STACK_SIZE = 8192" "unat PAGE_SIZE = 4096" "unat TRAMPOLINE = 2 ^ 64 - 4096"
  by (simp_all add: KERNEL_STACK_SIZE_def USER_STACK_SIZE_def PAGE_SIZE_def TRAMPOLINE_def)

lemma unat_of_nat_times: "i * c < 2 ^ 64 \<Longrightarrow> 0 < c \<Longrightarrow> unat (of_nat i * (of_nat c :: usize)) = i * c"
  by (metis of_nat_mult unat_of_nat_64)

lemma unat_minus: "b \<le> a \<Longrightarrow> unat (a - b :: usize) = unat a - unat b"
  by (simp add: unat_sub)

lemma unat_lt: "unat (a :: usize) < 2 ^ 64"
  using unsigned_less[of a] by simp

lemma next_multiple: "i < j \<Longrightarrow> i * c + c \<le> j * (c :: nat)"
  using mult_le_mono1[of "Suc i" j c] by simp

lemma unat_times: "unat i * c < 2 ^ 64 \<Longrightarrow> 0 < c \<Longrightarrow> unat (i * (of_nat c :: usize)) = unat i * c"
  using unat_of_nat_times[of "unat i" c] by simp

lemma unat_minus_times:
  assumes "unat i * c \<le> unat a" and "0 < c"
  shows "unat (a - i * (of_nat c :: usize)) = unat a - unat i * c"
proof -
  have "unat i * c < 2 ^ 64" using assms(1) unat_lt[of a] by simp
  then have u: "unat (i * (of_nat c :: usize)) = unat i * c" using assms(2) by (rule unat_times)
  then show ?thesis using assms(1) by (simp add: unat_minus word_le_nat_alt)
qed

lemma kernel_stack_nat:
  assumes "unat i < 2 ^ 24"
  shows "unat (snd (kernel_stack_position i)) = 2 ^ 64 - 4096 - unat i * 12288"
    and "unat (fst (kernel_stack_position i)) = 2 ^ 64 - 4096 - unat i * 12288 - 8192"
proof -
  have c: "KERNEL_STACK_SIZE + PAGE_SIZE = (of_nat 12288 :: usize)"
    by (simp add: KERNEL_STACK_SIZE_def PAGE_SIZE_def)
  have b: "unat i * 12288 < 2 ^ 38" using assms by simp
  have top: "unat (TRAMPOLINE - i * (of_nat 12288 :: usize)) = 2 ^ 64 - 4096 - unat i * 12288"
    using unat_minus_times[of i 12288 TRAMPOLINE] b by simp
  then show "unat (snd (kernel_stack_position i)) = 2 ^ 64 - 4096 - unat i * 12288"
    by (simp add: kernel_stack_position_def Let_def c del: of_nat_numeral)
  have "unat (TRAMPOLINE - i * (of_nat 12288 :: usize) - KERNEL_STACK_SIZE) = 2 ^ 64 - 4096 - unat i * 12288 - 8192"
    using top b by (subst unat_minus) (simp_all add: word_le_nat_alt)
  then show "unat (fst (kernel_stack_position i)) = 2 ^ 64 - 4096 - unat i * 12288 - 8192"
    by (simp add: kernel_stack_position_def Let_def c del: of_nat_numeral)
qed

text \<open>
  C22: Kernel stacks do not overlap. The stack of id \<open>j\<close> lies below the stack of every smaller id with at
  least one page between them, every stack has \<^verbatim>\<open>KERNEL_STACK_SIZE\<close> bytes, and all of them lie below the
  trampoline in the top 256 GiB of the address space, for ids below 2^24.
\<close>

theorem kernel_stacks_disjoint:
  assumes "i < j" and "unat j < 2 ^ 24"
  shows "unat (snd (kernel_stack_position j)) + unat PAGE_SIZE \<le> unat (fst (kernel_stack_position i)) \<and>
    unat (fst (kernel_stack_position i)) + unat KERNEL_STACK_SIZE = unat (snd (kernel_stack_position i)) \<and>
    unat (snd (kernel_stack_position i)) \<le> unat TRAMPOLINE \<and> 2 ^ 64 - 2 ^ 38 \<le> unat (fst (kernel_stack_position j))"
proof -
  have lt: "unat i < unat j" using assms(1) by (simp add: word_less_nat_alt)
  have "unat i * 12288 + 12288 \<le> unat j * 12288" "unat j * 12288 \<le> 206158430208"
    using next_multiple[OF lt, of 12288] mult_le_mono1[of "unat j" "2 ^ 24" 12288] assms(2) by simp_all
  then show ?thesis using lt assms(2) kernel_stack_nat[of i] kernel_stack_nat[of j] by simp linarith
qed

theorem kernel_stacks_disjoint_witness:
  "unat (snd (kernel_stack_position 1)) + unat PAGE_SIZE \<le> unat (fst (kernel_stack_position 0))"
  using kernel_stacks_disjoint[of 0 1] by simp

lemma trap_cx_bottom_nat:
  assumes "unat i < 2 ^ 24"
  shows "unat (trap_cx_bottom_from_tid i) = 2 ^ 64 - 8192 - unat i * 4096"
proof -
  have b: "unat i * 4096 < 2 ^ 36" using assms by simp
  have p: "PAGE_SIZE = (of_nat 4096 :: usize)" by (simp add: PAGE_SIZE_def)
  have t: "unat TRAP_CONTEXT_BASE = 2 ^ 64 - 8192" by (simp add: TRAP_CONTEXT_BASE_def TRAMPOLINE_def PAGE_SIZE_def)
  show ?thesis unfolding trap_cx_bottom_from_tid_def p using unat_minus_times[of i 4096 TRAP_CONTEXT_BASE] b t by simp
qed

lemma ustack_bottom_nat:
  assumes "unat base + (unat i + 1) * 12288 < 2 ^ 38"
  shows "unat (ustack_bottom_from_tid base i) = unat base + unat i * 12288"
proof -
  have c: "PAGE_SIZE + USER_STACK_SIZE = (of_nat 12288 :: usize)" by (simp add: USER_STACK_SIZE_def PAGE_SIZE_def)
  have u: "unat (i * (of_nat 12288 :: usize)) = unat i * 12288" using assms by (intro unat_times) simp_all
  show ?thesis unfolding ustack_bottom_from_tid_def c using assms u by (subst unat_add_lem[THEN iffD1]) simp_all
qed

text \<open>
  C23: The stacks and trap context pages of the threads of a process do not overlap. The stack of a thread
  lies at least one page above the stack of every thread with a smaller id, its trap context page below
  theirs, and all stacks lie below all trap context pages, while the stacks fit below 2^38.
\<close>

theorem thread_resources_disjoint:
  assumes "i < j" and "unat j < 2 ^ 24" and "unat base + (unat j + 1) * 12288 < 2 ^ 38"
  shows "unat (ustack_bottom_from_tid base i) + unat USER_STACK_SIZE + unat PAGE_SIZE \<le> unat (ustack_bottom_from_tid base j) \<and>
    unat (trap_cx_bottom_from_tid j) + unat PAGE_SIZE \<le> unat (trap_cx_bottom_from_tid i) \<and>
    unat (ustack_bottom_from_tid base j) + unat USER_STACK_SIZE < 2 ^ 38 \<and>
    2 ^ 64 - 2 ^ 38 \<le> unat (trap_cx_bottom_from_tid j) \<and>
    unat (trap_cx_bottom_from_tid i) + unat PAGE_SIZE \<le> unat TRAMPOLINE"
proof -
  have lt: "unat i < unat j" using assms(1) by (simp add: word_less_nat_alt)
  have m: "unat i * 12288 + 12288 \<le> unat j * 12288" "unat i * 4096 + 4096 \<le> unat j * 4096" "unat j * 4096 \<le> 68719476736"
    using next_multiple[OF lt, of 12288] next_multiple[OF lt, of 4096] mult_le_mono1[of "unat j" "2 ^ 24" 4096] assms(2)
    by simp_all
  then have i: "unat base + (unat i + 1) * 12288 < 2 ^ 38" using assms(3) by simp
  show ?thesis
    using lt assms(2,3) m ustack_bottom_nat[OF i] ustack_bottom_nat[OF assms(3)] trap_cx_bottom_nat[of i] trap_cx_bottom_nat[of j]
    by simp linarith
qed

theorem thread_resources_disjoint_witness:
  "unat (ustack_bottom_from_tid 4096 0) + unat USER_STACK_SIZE + unat PAGE_SIZE \<le> unat (ustack_bottom_from_tid 4096 1)"
  using thread_resources_disjoint[of 0 1 4096] by simp

end
