(* ===== verification/Scheduling.thy ===== *)
theory Scheduling
  imports Process
begin

unbundle bit_operations_syntax

text \<open>
  Giving up the processor (\<^verbatim>\<open>os/src/task/mod.rs\<close>), exit, and the synchronisation objects on the kernel's state
  (\<^verbatim>\<open>os/src/sync/\<close>). An operation that switches to the scheduler takes what its caller has left to do as an
  argument; when it returns in the model, the processor has no current task.
\<close>

section \<open>Switching\<close>

text \<open>\<^verbatim>\<open>__switch\<close> saves the state of the running task in its task context.\<close>

definition schedule :: "nat \<Rightarrow> kcont \<Rightarrow> ('d kernel, unit) prog" where
  "schedule t c = set_tcb t (\<lambda>b. b\<lparr>task_cx := c\<rparr>)"

definition suspend_current_and_run_next :: "kcont \<Rightarrow> ('d kernel, unit) prog" where
  "suspend_current_and_run_next c =
     andthen take_current_task (\<lambda>r.
     andthen (unwrap r) (\<lambda>task.
     andthen (write_tcb task (\<lambda>b. b\<lparr>task_status := Ready\<rparr>)) (\<lambda>_.
     andthen (add_task task) (\<lambda>_.
     schedule task c))))"

definition block_current_and_run_next :: "kcont \<Rightarrow> ('d kernel, unit) prog" where
  "block_current_and_run_next c =
     andthen take_current_task (\<lambda>r.
     andthen (unwrap r) (\<lambda>task.
     andthen (write_tcb task (\<lambda>b. b\<lparr>task_status := Blocking\<rparr>)) (\<lambda>_.
     schedule task c)))"

section \<open>Exit\<close>

definition adopt_children :: "nat \<Rightarrow> nat list \<Rightarrow> ('d kernel, unit) prog" where
  "adopt_children initproc cs = with_pcb initproc
     (for_each cs (\<lambda>child.
        andthen (write_pcb child (\<lambda>b. b\<lparr>parent := Some initproc\<rparr>)) (\<lambda>_.
        set_pcb initproc (\<lambda>b. b\<lparr>children := children b @ [child]\<rparr>))))"

text \<open>
  The part of \<^verbatim>\<open>exit_current_and_run_next\<close> for the main thread. \<^verbatim>\<open>INITPROC\<close> was created before the first task
  ran.
\<close>

definition exit_process :: "nat \<Rightarrow> i32 \<Rightarrow> ('d kernel, unit) prog" where
  "exit_process p code =
     andthen (pcb p) (\<lambda>b.
     andthen (remove_from_pid2process (pid b)) (\<lambda>_.
     with_pcb p
       (andthen (set_pcb p (\<lambda>b. b\<lparr>is_zombie := True, exit_code := code\<rparr>)) (\<lambda>_.
        andthen (gets INITPROC) (\<lambda>r.
        andthen (unwrap r) (\<lambda>initproc.
        andthen (pcb p) (\<lambda>b.
        andthen (adopt_children initproc (children b)) (\<lambda>_.
        andthen (for_each (live (tasks b)) (\<lambda>t. with_tcb t (clear_res t))) (\<lambda>_.
        andthen (set_pcb p (\<lambda>b. b\<lparr>children := []\<rparr>)) (\<lambda>_.
        andthen (on_memory_set p MemorySet_recycle_data_pages) (\<lambda>_.
        set_pcb p (\<lambda>b. b\<lparr>fd_table := []\<rparr>))))))))))))"

definition exit_current_and_run_next :: "i32 \<Rightarrow> ('d kernel, unit) prog" where
  "exit_current_and_run_next code =
     andthen take_current_task (\<lambda>r.
     andthen (unwrap r) (\<lambda>task.
     andthen (with_tcb task
       (andthen (process_of task) (\<lambda>process.
        andthen (tcb task) (\<lambda>b.
        andthen (unwrap (res b)) (\<lambda>r.
        andthen (set_tcb task (\<lambda>b. b\<lparr>tcb_exit_code := Some code\<rparr>)) (\<lambda>_.
        andthen (clear_res task) (\<lambda>_.
        ret (process, tid r)))))))) (\<lambda>(process, i).
     andthen (drop_task_arc task) (\<lambda>_.
     andthen (if i = 0 then exit_process process code else ret ()) (\<lambda>_.
     drop_process_arc process)))))"

section \<open>Mutexes, semaphores and condition variables\<close>

definition set_mutex :: "nat \<Rightarrow> Mutex \<Rightarrow> ('d kernel, unit) prog" where
  "set_mutex m mtx = modifies (\<lambda>k. k\<lparr>mutexes := (mutexes k)[m := mtx]\<rparr>)"

definition set_semaphore :: "nat \<Rightarrow> nat SemaphoreInner \<Rightarrow> ('d kernel, unit) prog" where
  "set_semaphore s sem = modifies (\<lambda>k. k\<lparr>semaphores := (semaphores k)[s := sem]\<rparr>)"

definition set_condvar :: "nat \<Rightarrow> nat CondvarInner \<Rightarrow> ('d kernel, unit) prog" where
  "set_condvar c cv = modifies (\<lambda>k. k\<lparr>condvars := (condvars k)[c := cv]\<rparr>)"

definition wake :: "nat option \<Rightarrow> ('d kernel, unit) prog" where
  "wake r = (case r of None \<Rightarrow> ret () | Some task \<Rightarrow> add_task task)"

text \<open>\<open>Mutex_lock m ps\<close> says whether the lock was taken; otherwise the task has been switched away.\<close>

definition Mutex_lock :: "nat \<Rightarrow> nat list \<Rightarrow> ('d kernel, bool) prog" where
  "Mutex_lock m ps =
     andthen (gets mutexes) (\<lambda>ms.
     andthen (vec_at ms m) (\<lambda>mtx.
     case mtx of
       Spin sp \<Rightarrow>
         (case MutexSpin_try sp of (taken, sp') \<Rightarrow>
            if taken then andthen (set_mutex m (Spin sp')) (\<lambda>_. ret True)
            else andthen (suspend_current_and_run_next (K_spin m ps)) (\<lambda>_. ret False))
     | BlockingMutex b \<Rightarrow>
         andthen current_task (\<lambda>r.
         andthen (unwrap r) (\<lambda>task.
         case MutexBlocking_lock task b of (blocks, b') \<Rightarrow>
         andthen (set_mutex m (BlockingMutex b')) (\<lambda>_.
         if blocks then andthen (block_current_and_run_next (K_locked m ps)) (\<lambda>_. ret False)
         else ret True)))))"

definition Mutex_unlock :: "nat \<Rightarrow> ('d kernel, unit) prog" where
  "Mutex_unlock m =
     andthen (gets mutexes) (\<lambda>ms.
     andthen (vec_at ms m) (\<lambda>mtx.
     case mtx of
       Spin sp \<Rightarrow> set_mutex m (Spin (MutexSpin_unlock sp))
     | BlockingMutex b \<Rightarrow>
         andthen (lift_res (MutexBlocking_unlock b)) (\<lambda>(woken, b').
         andthen (set_mutex m (BlockingMutex b')) (\<lambda>_. wake woken))))"

definition Semaphore_up_on :: "nat \<Rightarrow> ('d kernel, unit) prog" where
  "Semaphore_up_on s =
     andthen (gets semaphores) (\<lambda>ss.
     andthen (vec_at ss s) (\<lambda>sem.
     case Semaphore_up sem of (woken, sem') \<Rightarrow>
     andthen (set_semaphore s sem') (\<lambda>_. wake woken)))"

definition Semaphore_down_on :: "nat \<Rightarrow> nat list \<Rightarrow> ('d kernel, bool) prog" where
  "Semaphore_down_on s ps =
     andthen (gets semaphores) (\<lambda>ss.
     andthen (vec_at ss s) (\<lambda>sem.
     andthen current_task (\<lambda>r.
     andthen (unwrap r) (\<lambda>task.
     case Semaphore_down task sem of (blocks, sem') \<Rightarrow>
     andthen (set_semaphore s sem') (\<lambda>_.
     if blocks then andthen (block_current_and_run_next (K_down s ps)) (\<lambda>_. ret False)
     else ret True)))))"

definition Condvar_signal_on :: "nat \<Rightarrow> ('d kernel, unit) prog" where
  "Condvar_signal_on c =
     andthen (gets condvars) (\<lambda>cs.
     andthen (vec_at cs c) (\<lambda>cv.
     case Condvar_signal cv of (woken, cv') \<Rightarrow>
     andthen (set_condvar c cv') (\<lambda>_. wake woken)))"

text \<open>\<^verbatim>\<open>wait\<close> up to its block; \<open>K_relock\<close> is the rest.\<close>

definition Condvar_wait :: "nat \<Rightarrow> nat \<Rightarrow> nat list \<Rightarrow> ('d kernel, unit) prog" where
  "Condvar_wait c m ps =
     andthen (Mutex_unlock m) (\<lambda>_.
     andthen (gets condvars) (\<lambda>cs.
     andthen (vec_at cs c) (\<lambda>cv.
     andthen current_task (\<lambda>r.
     andthen (unwrap r) (\<lambda>task.
     andthen (set_condvar c (Condvar_enqueue task cv)) (\<lambda>_.
     block_current_and_run_next (K_relock c m ps)))))))"

end
