(* ===== verification/Kernel_Files.thy ===== *)
theory Kernel_Files
  imports Scheduling
begin

unbundle bit_operations_syntax

text \<open>
  The files a process can hold: inodes with an offset (\<^verbatim>\<open>os/src/fs/inode.rs\<close>), the console
  (\<^verbatim>\<open>os/src/fs/stdio.rs\<close>) and the ends of pipes (\<^verbatim>\<open>os/src/fs/pipe.rs\<close>), with \<^verbatim>\<open>open_file\<close>. Reading and writing give a
  value of type \<open>io\<close>: the number of bytes, or that the task was switched away inside the operation.
\<close>

section \<open>Opening files\<close>

definition WRONLY :: u32 where "WRONLY = push_bit 0 1"
definition RDWR :: u32 where "RDWR = push_bit 1 1"
definition CREATE :: u32 where "CREATE = push_bit 9 1"
definition TRUNC :: u32 where "TRUNC = push_bit 10 1"

definition OpenFlags_from_bits :: "u32 \<Rightarrow> u32 option" where
  "OpenFlags_from_bits bits = (if bits AND NOT (WRONLY OR RDWR OR CREATE OR TRUNC) = 0 then Some bits else None)"

definition OpenFlags_contains :: "u32 \<Rightarrow> u32 \<Rightarrow> bool" where
  "OpenFlags_contains flags f \<longleftrightarrow> flags AND f = f"

definition read_write :: "u32 \<Rightarrow> bool \<times> bool" where
  "read_write flags =
     (if flags = 0 then (True, False)
      else if OpenFlags_contains flags WRONLY then (False, True)
      else (True, True))"

definition OSInode_new :: "bool \<Rightarrow> bool \<Rightarrow> Inode \<Rightarrow> OSInode" where
  "OSInode_new readable writable inode =
     \<lparr>osi_readable = readable, osi_writable = writable, osi_offset = 0, osi_inode = inode\<rparr>"

definition Arc_new_os_inode :: "OSInode \<Rightarrow> ('d kernel, nat) prog" where
  "Arc_new_os_inode i = andthen (gets (\<lambda>k. length (os_inodes k))) (\<lambda>n.
     andthen (modifies (\<lambda>k. k\<lparr>os_inodes := os_inodes k @ [i]\<rparr>)) (\<lambda>_. ret n))"

text \<open>\<^verbatim>\<open>ROOT_INODE\<close> is initialised at its first use.\<close>

definition force_ROOT_INODE :: "'d platform \<Rightarrow> ('d kernel, EasyFileSystem \<times> Inode) prog" where
  "force_ROOT_INODE pf = andthen (gets ROOT_INODE) (\<lambda>r. case r of
     Some root \<Rightarrow> ret root
   | None \<Rightarrow>
       andthen (on_fs (EasyFileSystem_open (BLOCK_DEVICE pf))) (\<lambda>efs.
       andthen (modifies (\<lambda>k. k\<lparr>ROOT_INODE := Some (efs, root_inode efs)\<rparr>)) (\<lambda>_.
       ret (efs, root_inode efs))))"

definition open_file :: "'d platform \<Rightarrow> byte list \<Rightarrow> u32 \<Rightarrow> ('d kernel, nat option) prog" where
  "open_file pf name flags =
     (case read_write flags of (readable, writable) \<Rightarrow>
      andthen (force_ROOT_INODE pf) (\<lambda>(efs, root).
      andthen (on_fs (Inode_find (BLOCK_DEVICE pf) efs root name)) (\<lambda>found.
      if OpenFlags_contains flags CREATE then
        (case found of
           Some inode \<Rightarrow>
             andthen (on_fs (Inode_clear (BLOCK_DEVICE pf) efs inode)) (\<lambda>_.
             andthen (Arc_new_os_inode (OSInode_new readable writable inode)) (\<lambda>i. ret (Some i)))
         | None \<Rightarrow>
             andthen (on_fs (Inode_create (BLOCK_DEVICE pf) efs root name)) (\<lambda>created.
             case created of
               None \<Rightarrow> ret None
             | Some inode \<Rightarrow>
                 andthen (Arc_new_os_inode (OSInode_new readable writable inode)) (\<lambda>i. ret (Some i))))
      else
        (case found of
           None \<Rightarrow> ret None
         | Some inode \<Rightarrow>
             andthen (if OpenFlags_contains flags TRUNC then on_fs (Inode_clear (BLOCK_DEVICE pf) efs inode) else ret ()) (\<lambda>_.
             andthen (Arc_new_os_inode (OSInode_new readable writable inode)) (\<lambda>i. ret (Some i)))))))"

section \<open>Inodes\<close>

text \<open>\<^verbatim>\<open>read_all\<close> reads 512 bytes per round until a round reads nothing.\<close>

partial_function (option) read_all_loop ::
    "'d BlockDevice \<Rightarrow> Inode \<Rightarrow> nat \<Rightarrow> byte list \<Rightarrow> byte list \<Rightarrow> 'd cache_state \<Rightarrow>
     (panic + (nat \<times> byte list) \<times> 'd cache_state) option" where
  "read_all_loop bd inode offset buffer v s =
     (case Inode_read_at bd inode offset buffer s of
        Inl e \<Rightarrow> Some (Inl e)
      | Inr (r, s') \<Rightarrow>
          if fst r = 0 then Some (Inr ((offset, v), s'))
          else read_all_loop bd inode (offset + fst r) (snd r) (v @ take (fst r) (snd r)) s')"

definition set_os_inode :: "nat \<Rightarrow> OSInode \<Rightarrow> ('d kernel, unit) prog" where
  "set_os_inode i f = modifies (\<lambda>k. k\<lparr>os_inodes := (os_inodes k)[i := f]\<rparr>)"

definition read_all :: "'d platform \<Rightarrow> nat \<Rightarrow> ('d kernel, byte list) prog" where
  "read_all pf i =
     andthen (gets os_inodes) (\<lambda>is.
     andthen (vec_at is i) (\<lambda>f.
     andthen (on_fs (\<lambda>s. case read_all_loop (BLOCK_DEVICE pf) (osi_inode f) (osi_offset f) (replicate 512 0) [] s of
        None \<Rightarrow> Inl NeverReturns | Some r \<Rightarrow> r)) (\<lambda>(offset, v).
     andthen (set_os_inode i (f\<lparr>osi_offset := offset\<rparr>)) (\<lambda>_. ret v))))"

definition load_slice :: "mem_slice \<Rightarrow> ('d kernel, byte list) prog" where
  "load_slice sl = gets (\<lambda>k. load_bytes (mem k) (fst sl) (snd sl))"

definition store_slice :: "mem_slice \<Rightarrow> byte list \<Rightarrow> ('d kernel, unit) prog" where
  "store_slice sl bs = modifies (\<lambda>k. k\<lparr>mem := store_bytes (fst sl) bs (mem k)\<rparr>)"

fun inode_read_slices ::
    "'d platform \<Rightarrow> Inode \<Rightarrow> mem_slice list \<Rightarrow> nat \<Rightarrow> nat \<Rightarrow> ('d kernel, nat \<times> nat) prog" where
  "inode_read_slices pf inode [] offset total_size = ret (offset, total_size)"
| "inode_read_slices pf inode (sl # sls) offset total_size =
     andthen (load_slice sl) (\<lambda>buf.
     andthen (on_fs (Inode_read_at (BLOCK_DEVICE pf) inode offset buf)) (\<lambda>(read_size, buf').
     andthen (store_slice sl buf') (\<lambda>_.
     if read_size = 0 then ret (offset, total_size)
     else inode_read_slices pf inode sls (offset + read_size) (total_size + read_size))))"

fun inode_write_slices ::
    "'d platform \<Rightarrow> EasyFileSystem \<Rightarrow> Inode \<Rightarrow> mem_slice list \<Rightarrow> nat \<Rightarrow> nat \<Rightarrow> ('d kernel, nat \<times> nat) prog" where
  "inode_write_slices pf efs inode [] offset total_size = ret (offset, total_size)"
| "inode_write_slices pf efs inode (sl # sls) offset total_size =
     andthen (load_slice sl) (\<lambda>buf.
     andthen (on_fs (Inode_write_at (BLOCK_DEVICE pf) efs inode offset buf)) (\<lambda>write_size.
     andthen (assert_that (write_size = length buf)) (\<lambda>_.
     inode_write_slices pf efs inode sls (offset + write_size) (total_size + write_size))))"

definition OSInode_read :: "'d platform \<Rightarrow> nat \<Rightarrow> UserBuffer \<Rightarrow> ('d kernel, nat) prog" where
  "OSInode_read pf i ub =
     andthen (gets os_inodes) (\<lambda>is.
     andthen (vec_at is i) (\<lambda>f.
     andthen (inode_read_slices pf (osi_inode f) (buffers ub) (osi_offset f) 0) (\<lambda>(offset, total_size).
     andthen (set_os_inode i (f\<lparr>osi_offset := offset\<rparr>)) (\<lambda>_. ret total_size))))"

text \<open>An inode keeps a reference to its file system, the one of \<^verbatim>\<open>ROOT_INODE\<close>.\<close>

definition OSInode_write :: "'d platform \<Rightarrow> nat \<Rightarrow> UserBuffer \<Rightarrow> ('d kernel, nat) prog" where
  "OSInode_write pf i ub =
     andthen (force_ROOT_INODE pf) (\<lambda>(efs, _).
     andthen (gets os_inodes) (\<lambda>is.
     andthen (vec_at is i) (\<lambda>f.
     andthen (inode_write_slices pf efs (osi_inode f) (buffers ub) (osi_offset f) 0) (\<lambda>(offset, total_size).
     andthen (set_os_inode i (f\<lparr>osi_offset := offset\<rparr>)) (\<lambda>_. ret total_size)))))"

section \<open>The console\<close>

datatype io = Done nat | Switched

text \<open>The characters of a valid UTF-8 string.\<close>

fun utf8_chars :: "byte list \<Rightarrow> usize list" where
  "utf8_chars [] = []"
| "utf8_chars (a # bs) =
     (if a \<le> 0x7F then ucast a # utf8_chars bs
      else if a \<le> 0xDF then
        (case bs of b # bs' \<Rightarrow>
           (push_bit 6 (ucast (a AND 0x1F)) OR ucast (b AND 0x3F)) # utf8_chars bs'
         | _ \<Rightarrow> [])
      else if a \<le> 0xEF then
        (case bs of b # c # bs' \<Rightarrow>
           (push_bit 12 (ucast (a AND 0x0F)) OR push_bit 6 (ucast (b AND 0x3F)) OR ucast (c AND 0x3F)) # utf8_chars bs'
         | _ \<Rightarrow> [])
      else
        (case bs of b # c # d # bs' \<Rightarrow>
           (push_bit 18 (ucast (a AND 0x07)) OR push_bit 12 (ucast (b AND 0x3F)) OR push_bit 6 (ucast (c AND 0x3F)) OR
            ucast (d AND 0x3F)) # utf8_chars bs'
         | _ \<Rightarrow> []))"

fun print_lines :: "byte list list \<Rightarrow> ('d kernel, unit) prog" where
  "print_lines [] = ret ()"
| "print_lines (l # ls) = andthen (console_print (utf8_chars l @ [10])) (\<lambda>_. print_lines ls)"

definition list_apps :: "'d platform \<Rightarrow> ('d kernel, unit) prog" where
  "list_apps pf =
     andthen (println ''/**** APPS ****'') (\<lambda>_.
     andthen (force_ROOT_INODE pf) (\<lambda>(efs, root).
     andthen (on_fs (Inode_ls (BLOCK_DEVICE pf) root)) (\<lambda>apps.
     andthen (print_lines apps) (\<lambda>_.
     println ''**************/''))))"

definition Stdin_read_loop :: "UserBuffer \<Rightarrow> nat list \<Rightarrow> ('d kernel, io) prog" where
  "Stdin_read_loop ub ps =
     andthen console_getchar (\<lambda>c.
     if c = 0 then andthen (suspend_current_and_run_next (K_stdin ub ps)) (\<lambda>_. ret Switched)
     else
       andthen (vec_at (buffers ub) 0) (\<lambda>sl.
       andthen (store_slice sl [ucast c]) (\<lambda>_. ret (Done 1))))"

definition Stdin_read :: "UserBuffer \<Rightarrow> nat list \<Rightarrow> ('d kernel, io) prog" where
  "Stdin_read ub ps = andthen (assert_that (UserBuffer_len ub = 1)) (\<lambda>_. Stdin_read_loop ub ps)"

definition Stdin_write :: "UserBuffer \<Rightarrow> ('d kernel, io) prog" where
  "Stdin_write ub = throw ExplicitPanic"

definition Stdout_read :: "UserBuffer \<Rightarrow> ('d kernel, io) prog" where
  "Stdout_read ub = throw ExplicitPanic"

definition Stdout_write :: "UserBuffer \<Rightarrow> ('d kernel, nat) prog" where
  "Stdout_write ub =
     andthen (for_each (buffers ub) (\<lambda>sl. andthen (load_slice sl) (\<lambda>bs.
       if valid_utf8 bs then console_print (utf8_chars bs) else throw UnwrapNone))) (\<lambda>_.
     ret (UserBuffer_len ub))"

section \<open>Pipes\<close>

definition make_pipe :: "('d kernel, Pipe \<times> Pipe) prog" where
  "make_pipe =
     andthen (gets (\<lambda>k. length (pipe_buffers k))) (\<lambda>buffer.
     andthen (modifies (\<lambda>k. k\<lparr>pipe_buffers := pipe_buffers k @ [set_write_end buffer PipeRingBuffer_new]\<rparr>)) (\<lambda>_.
     ret (read_end_with_buffer buffer, write_end_with_buffer buffer)))"

definition set_pipe_buffer :: "nat \<Rightarrow> PipeRingBuffer \<Rightarrow> ('d kernel, unit) prog" where
  "set_pipe_buffer b rb = modifies (\<lambda>k. k\<lparr>pipe_buffers := (pipe_buffers k)[b := rb]\<rparr>)"

text \<open>The loops from their start or from their last suspension on.\<close>

definition Pipe_read_loop :: "Pipe \<Rightarrow> nat \<Rightarrow> UserBufferIterator \<Rightarrow> nat list \<Rightarrow> ('d kernel, io) prog" where
  "Pipe_read_loop p read_size it ps =
     andthen (gets pipe_buffers) (\<lambda>bs.
     andthen (vec_at bs (pipe_buffer p)) (\<lambda>rb.
     andthen (gets (\<lambda>k. pipe_read_loop (write_end_alive k) rb it (mem k) read_size)) (\<lambda>r.
     andthen (lift_loop r) (\<lambda>(t, rb', m).
     andthen (set_pipe_buffer (pipe_buffer p) rb') (\<lambda>_.
     andthen (modifies (\<lambda>k. k\<lparr>mem := m\<rparr>)) (\<lambda>_.
     case t of
       Transferred n \<Rightarrow> ret (Done n)
     | WaitFor n it' \<Rightarrow>
         andthen (suspend_current_and_run_next (K_read p n it' ps)) (\<lambda>_. ret Switched)))))))"

definition Pipe_write_loop :: "Pipe \<Rightarrow> nat \<Rightarrow> UserBufferIterator \<Rightarrow> nat list \<Rightarrow> ('d kernel, io) prog" where
  "Pipe_write_loop p write_size it ps =
     andthen (gets pipe_buffers) (\<lambda>bs.
     andthen (vec_at bs (pipe_buffer p)) (\<lambda>rb.
     andthen (gets (\<lambda>k. pipe_write_loop rb it (mem k) write_size)) (\<lambda>r.
     andthen (lift_loop r) (\<lambda>(t, rb').
     andthen (set_pipe_buffer (pipe_buffer p) rb') (\<lambda>_.
     case t of
       Transferred n \<Rightarrow> ret (Done n)
     | WaitFor n it' \<Rightarrow>
         andthen (suspend_current_and_run_next (K_write p n it' ps)) (\<lambda>_. ret Switched))))))"

definition Pipe_read :: "Pipe \<Rightarrow> UserBuffer \<Rightarrow> nat list \<Rightarrow> ('d kernel, io) prog" where
  "Pipe_read p ub ps =
     andthen (assert_that (pipe_readable p)) (\<lambda>_. Pipe_read_loop p 0 (UserBuffer_into_iter ub) ps)"

definition Pipe_write :: "Pipe \<Rightarrow> UserBuffer \<Rightarrow> nat list \<Rightarrow> ('d kernel, io) prog" where
  "Pipe_write p ub ps =
     andthen (assert_that (pipe_writable p)) (\<lambda>_. Pipe_write_loop p 0 (UserBuffer_into_iter ub) ps)"

section \<open>The File trait\<close>

text \<open>
  A method call on a \<^verbatim>\<open>dyn File\<close> runs the method of the implementation: \<^verbatim>\<open>Stdin\<close> and \<^verbatim>\<open>Stdout\<close> of
  \<^verbatim>\<open>stdio.rs\<close>, \<^verbatim>\<open>OSInode\<close> of \<^verbatim>\<open>inode.rs\<close>, \<^verbatim>\<open>Pipe\<close> of \<^verbatim>\<open>pipe.rs\<close>.
\<close>

definition File_readable :: "File \<Rightarrow> ('d kernel, bool) prog" where
  "File_readable f = (case f of
     Stdin \<Rightarrow> ret True
   | Stdout \<Rightarrow> ret False
   | OSInodeFile i \<Rightarrow> andthen (gets os_inodes) (\<lambda>is. andthen (vec_at is i) (\<lambda>o'. ret (osi_readable o')))
   | PipeFile p \<Rightarrow> ret (pipe_readable p))"

definition File_writable :: "File \<Rightarrow> ('d kernel, bool) prog" where
  "File_writable f = (case f of
     Stdin \<Rightarrow> ret False
   | Stdout \<Rightarrow> ret True
   | OSInodeFile i \<Rightarrow> andthen (gets os_inodes) (\<lambda>is. andthen (vec_at is i) (\<lambda>o'. ret (osi_writable o')))
   | PipeFile p \<Rightarrow> ret (pipe_writable p))"

definition File_read :: "'d platform \<Rightarrow> File \<Rightarrow> UserBuffer \<Rightarrow> nat list \<Rightarrow> ('d kernel, io) prog" where
  "File_read pf f ub ps = (case f of
     Stdin \<Rightarrow> Stdin_read ub ps
   | Stdout \<Rightarrow> Stdout_read ub
   | OSInodeFile i \<Rightarrow> andthen (OSInode_read pf i ub) (\<lambda>n. ret (Done n))
   | PipeFile p \<Rightarrow> Pipe_read p ub ps)"

definition File_write :: "'d platform \<Rightarrow> File \<Rightarrow> UserBuffer \<Rightarrow> nat list \<Rightarrow> ('d kernel, io) prog" where
  "File_write pf f ub ps = (case f of
     Stdin \<Rightarrow> Stdin_write ub
   | Stdout \<Rightarrow> andthen (Stdout_write ub) (\<lambda>n. ret (Done n))
   | OSInodeFile i \<Rightarrow> andthen (OSInode_write pf i ub) (\<lambda>n. ret (Done n))
   | PipeFile p \<Rightarrow> Pipe_write p ub ps)"

end
