(* ===== verification/Syscalls.thy ===== *)
theory Syscalls
  imports Kernel_Files
begin

unbundle bit_operations_syntax

text \<open>
  The system calls (\<^verbatim>\<open>os/src/syscall/\<close>): files, processes, threads, synchronisation, and the dispatch on the
  call number. Arguments and results are the words in the user's registers; \<open>Away\<close> is a call that does
  not return now, because the task exited or was switched away.
\<close>

datatype sysret = Returned usize | Away

definition io_result :: "io \<Rightarrow> sysret" where
  "io_result r = (case r of Done n \<Rightarrow> Returned (of_nat n) | Switched \<Rightarrow> Away)"

definition lock_result :: "bool \<Rightarrow> sysret" where
  "lock_result taken = (if taken then Returned 0 else Away)"

section \<open>Files\<close>

definition user_buffer :: "usize \<Rightarrow> usize \<Rightarrow> usize \<Rightarrow> ('d kernel, UserBuffer) prog" where
  "user_buffer token buf len =
     andthen (gets (\<lambda>k. translated_byte_buffer (mem k) token buf len)) (\<lambda>r.
     andthen (lift_loop r) (\<lambda>sls. ret (UserBuffer_new sls)))"

text \<open>The file of a descriptor, if it is open and allows the access; the control block is borrowed meanwhile.\<close>

definition usable_file :: "nat \<Rightarrow> usize \<Rightarrow> (File \<Rightarrow> ('d kernel, bool) prog) \<Rightarrow> ('d kernel, File option) prog" where
  "usable_file p fd allows = with_pcb p
     (andthen (pcb p) (\<lambda>b.
      if unat fd \<ge> length (fd_table b) then ret None
      else case fd_table b ! unat fd of
        None \<Rightarrow> ret None
      | Some file \<Rightarrow> andthen (allows file) (\<lambda>ok. ret (if ok then Some file else None))))"

definition sys_write :: "'d platform \<Rightarrow> usize \<Rightarrow> usize \<Rightarrow> usize \<Rightarrow> ('d kernel, sysret) prog" where
  "sys_write pf fd buf len =
     andthen current_user_token (\<lambda>token.
     andthen current_process (\<lambda>p.
     andthen (usable_file p fd File_writable) (\<lambda>r.
     case r of
       None \<Rightarrow> ret (Returned (- 1))
     | Some file \<Rightarrow>
         andthen (user_buffer token buf len) (\<lambda>ub.
         andthen (File_write pf file ub [p]) (\<lambda>io. ret (io_result io))))))"

definition sys_read :: "'d platform \<Rightarrow> usize \<Rightarrow> usize \<Rightarrow> usize \<Rightarrow> ('d kernel, sysret) prog" where
  "sys_read pf fd buf len =
     andthen current_user_token (\<lambda>token.
     andthen current_process (\<lambda>p.
     andthen (usable_file p fd File_readable) (\<lambda>r.
     case r of
       None \<Rightarrow> ret (Returned (- 1))
     | Some file \<Rightarrow>
         andthen (user_buffer token buf len) (\<lambda>ub.
         andthen (File_read pf file ub [p]) (\<lambda>io. ret (io_result io))))))"

text \<open>\<^verbatim>\<open>let fd = inner.alloc_fd(); inner.fd_table[fd] = Some(file)\<close>.\<close>

definition install_file :: "nat \<Rightarrow> File \<Rightarrow> ('d kernel, nat) prog" where
  "install_file p file =
     andthen (pcb p) (\<lambda>b. case alloc_fd b of (fd, b') \<Rightarrow>
     andthen (set_pcb p (\<lambda>_. b'\<lparr>fd_table := (fd_table b')[fd := Some file]\<rparr>)) (\<lambda>_. ret fd))"

definition user_str :: "usize \<Rightarrow> usize \<Rightarrow> ('d kernel, byte list) prog" where
  "user_str token ptr = andthen (gets (\<lambda>k. translated_str (mem k) token ptr)) lift_loop"

definition sys_open :: "'d platform \<Rightarrow> usize \<Rightarrow> u32 \<Rightarrow> ('d kernel, sysret) prog" where
  "sys_open pf path flags =
     andthen current_process (\<lambda>p.
     andthen current_user_token (\<lambda>token.
     andthen (user_str token path) (\<lambda>name.
     andthen (unwrap (OpenFlags_from_bits flags)) (\<lambda>fl.
     andthen (open_file pf name fl) (\<lambda>r.
     case r of
       None \<Rightarrow> ret (Returned (- 1))
     | Some inode \<Rightarrow>
         andthen (with_pcb p (install_file p (OSInodeFile inode))) (\<lambda>fd. ret (Returned (of_nat fd))))))))"

definition sys_close :: "usize \<Rightarrow> ('d kernel, sysret) prog" where
  "sys_close fd =
     andthen current_process (\<lambda>p. with_pcb p
       (andthen (pcb p) (\<lambda>b.
        if unat fd \<ge> length (fd_table b) then ret (Returned (- 1))
        else if fd_table b ! unat fd = None then ret (Returned (- 1))
        else andthen (set_pcb p (\<lambda>b. b\<lparr>fd_table := (fd_table b)[unat fd := None]\<rparr>)) (\<lambda>_. ret (Returned 0)))))"

definition sys_pipe :: "usize \<Rightarrow> ('d kernel, sysret) prog" where
  "sys_pipe pipe =
     andthen current_process (\<lambda>p.
     andthen current_user_token (\<lambda>token.
     with_pcb p
       (andthen make_pipe (\<lambda>(pipe_read, pipe_write).
        andthen (install_file p (PipeFile pipe_read)) (\<lambda>read_fd.
        andthen (install_file p (PipeFile pipe_write)) (\<lambda>write_fd.
        andthen (user_refmut token pipe) (\<lambda>a.
        andthen (store_word a (of_nat read_fd)) (\<lambda>_.
        andthen (user_refmut token (pipe + 8)) (\<lambda>a'.
        andthen (store_word a' (of_nat write_fd)) (\<lambda>_.
        ret (Returned 0)))))))))))"

definition sys_dup :: "usize \<Rightarrow> ('d kernel, sysret) prog" where
  "sys_dup fd =
     andthen current_process (\<lambda>p. with_pcb p
       (andthen (pcb p) (\<lambda>b.
        if unat fd \<ge> length (fd_table b) then ret (Returned (- 1))
        else case fd_table b ! unat fd of
          None \<Rightarrow> ret (Returned (- 1))
        | Some file \<Rightarrow> andthen (install_file p file) (\<lambda>new_fd. ret (Returned (of_nat new_fd))))))"

section \<open>Processes\<close>

definition sys_exit :: "i32 \<Rightarrow> ('d kernel, sysret) prog" where
  "sys_exit code = andthen (exit_current_and_run_next code) (\<lambda>_. ret Away)"

definition sys_yield :: "('d kernel, sysret) prog" where
  "sys_yield = andthen (suspend_current_and_run_next K_zero) (\<lambda>_. ret Away)"

definition sys_get_time :: "'d platform \<Rightarrow> ('d kernel, sysret) prog" where
  "sys_get_time pf = andthen (kernel_get_time_ms pf) (\<lambda>ms. ret (Returned ms))"

definition getpid :: "nat \<Rightarrow> ('d kernel, usize) prog" where
  "getpid p = andthen (pcb p) (\<lambda>b. ret (pid b))"

definition sys_getpid :: "('d kernel, sysret) prog" where
  "sys_getpid = andthen current_process (\<lambda>p. andthen (getpid p) (\<lambda>i. ret (Returned i)))"

definition sys_fork :: "'d platform \<Rightarrow> ('d kernel, sysret) prog" where
  "sys_fork pf =
     andthen current_process (\<lambda>p.
     andthen (fork pf p) (\<lambda>new_process.
     andthen (getpid new_process) (\<lambda>new_pid.
     with_pcb new_process
       (andthen (pcb new_process) (\<lambda>b.
        andthen (get_task b 0) (\<lambda>task.
        andthen (read_tcb task trap_cx_ppn) (\<lambda>ppn.
        andthen (set_trap_cx_word ppn 10 0) (\<lambda>_.
        ret (Returned new_pid)))))))))"

partial_function (option) exec_args_loop ::
    "phys_mem \<Rightarrow> usize \<Rightarrow> usize \<Rightarrow> byte list list \<Rightarrow> byte list list res option" where
  "exec_args_loop m token args v =
     (case translated_ref m token args of
        Inl e \<Rightarrow> Some (Inl e)
      | Inr a \<Rightarrow>
          (if load64 m a = 0 then Some (Inr v)
           else (case translated_str m token (load64 m a) of
               None \<Rightarrow> None
             | Some r \<Rightarrow>
                 (case r of
                    Inl e \<Rightarrow> Some (Inl e)
                  | Inr arg \<Rightarrow> exec_args_loop m token (args + 8) (v @ [arg])))))"

definition sys_exec :: "'d platform \<Rightarrow> usize \<Rightarrow> usize \<Rightarrow> ('d kernel, sysret) prog" where
  "sys_exec pf path args =
     andthen current_user_token (\<lambda>token.
     andthen (user_str token path) (\<lambda>name.
     andthen (gets (\<lambda>k. exec_args_loop (mem k) token args [])) (\<lambda>r.
     andthen (lift_loop r) (\<lambda>args_vec.
     andthen (open_file pf name 0) (\<lambda>found.
     case found of
       None \<Rightarrow> ret (Returned (- 1))
     | Some app_inode \<Rightarrow>
         andthen (read_all pf app_inode) (\<lambda>all_data.
         andthen current_process (\<lambda>p.
         andthen (exec pf p all_data args_vec) (\<lambda>_.
         ret (Returned (of_nat (length args_vec)))))))))))"

definition pid_matches :: "usize \<Rightarrow> usize \<Rightarrow> bool" where
  "pid_matches wanted i \<longleftrightarrow> wanted = - 1 \<or> wanted = i"

fun find_zombie :: "usize \<Rightarrow> nat list \<Rightarrow> nat \<Rightarrow> ('d kernel, nat option) prog" where
  "find_zombie wanted [] idx = ret None"
| "find_zombie wanted (c # cs) idx =
     andthen (read_pcb c is_zombie) (\<lambda>z.
     andthen (getpid c) (\<lambda>i.
     if z \<and> pid_matches wanted i then ret (Some idx) else find_zombie wanted cs (idx + 1)))"

text \<open>
  \<^verbatim>\<open>Arc::strong_count(&child)\<close> is one when the local variable holds the only reference left. The child is
  dropped at the end of the call.
\<close>

definition reap :: "nat \<Rightarrow> nat \<Rightarrow> usize \<Rightarrow> ('d kernel, sysret) prog" where
  "reap p idx exit_code_ptr =
     andthen (pcb p) (\<lambda>b.
     andthen (vec_at (children b) idx) (\<lambda>child.
     andthen (set_pcb p (\<lambda>b. b\<lparr>children := take idx (children b) @ drop (idx + 1) (children b)\<rparr>)) (\<lambda>_.
     andthen (gets (\<lambda>k. process_strong_count k child + 1)) (\<lambda>strong.
     andthen (assert_that (strong = 1)) (\<lambda>_.
     andthen (getpid child) (\<lambda>found_pid.
     andthen (read_pcb child exit_code) (\<lambda>code.
     andthen (user_refmut (MemorySet_token (memory_set b)) exit_code_ptr) (\<lambda>a.
     andthen (modifies (\<lambda>k. k\<lparr>mem := store_bytes a (word_le_bytes 4 code) (mem k)\<rparr>)) (\<lambda>_.
     andthen (drop_process_arc child) (\<lambda>_.
     ret (Returned found_pid)))))))))))"

definition sys_waitpid :: "usize \<Rightarrow> usize \<Rightarrow> ('d kernel, sysret) prog" where
  "sys_waitpid wanted exit_code_ptr =
     andthen current_process (\<lambda>p. with_pcb p
       (andthen (pcb p) (\<lambda>b.
        andthen (map_prog getpid (children b)) (\<lambda>pids.
        if \<not> list_ex (pid_matches wanted) pids then ret (Returned (- 1))
        else
          andthen (find_zombie wanted (children b) 0) (\<lambda>r.
          case r of
            Some idx \<Rightarrow> reap p idx exit_code_ptr
          | None \<Rightarrow> ret (Returned (- 2)))))))"

definition sys_kill :: "usize \<Rightarrow> u32 \<Rightarrow> ('d kernel, sysret) prog" where
  "sys_kill i signal =
     andthen (pid2process i) (\<lambda>r.
     case r of
       None \<Rightarrow> ret (Returned (- 1))
     | Some p \<Rightarrow>
         (case SignalFlags_from_bits signal of
            None \<Rightarrow> ret (Returned (- 1))
          | Some flag \<Rightarrow>
              andthen (write_pcb p (\<lambda>b. b\<lparr>signals := signals b OR flag\<rparr>)) (\<lambda>_. ret (Returned 0))))"

section \<open>Synchronisation\<close>

definition sys_sleep :: "'d platform \<Rightarrow> usize \<Rightarrow> ('d kernel, sysret) prog" where
  "sys_sleep pf ms =
     andthen (kernel_get_time_ms pf) (\<lambda>now.
     andthen current_task (\<lambda>r.
     andthen (unwrap r) (\<lambda>task.
     andthen (modifies (\<lambda>k. k\<lparr>TIMERS := add_timer (now + ms) task (TIMERS k)\<rparr>)) (\<lambda>_.
     andthen (block_current_and_run_next K_zero) (\<lambda>_.
     ret Away)))))"

text \<open>The first free place of a list of objects, or a new one at its end.\<close>

definition place_in :: "'a option list \<Rightarrow> 'a \<Rightarrow> nat \<times> 'a option list" where
  "place_in xs x = (case position (\<lambda>item. item = None) xs of
     Some i \<Rightarrow> (i, xs[i := Some x])
   | None \<Rightarrow> (length xs, xs @ [Some x]))"

definition sys_mutex_create :: "bool \<Rightarrow> ('d kernel, sysret) prog" where
  "sys_mutex_create blocking =
     andthen current_process (\<lambda>p.
     andthen (gets (\<lambda>k. length (mutexes k))) (\<lambda>m.
     andthen (modifies (\<lambda>k. k\<lparr>mutexes := mutexes k @
       [if \<not> blocking then Spin MutexSpin_new else BlockingMutex MutexBlocking_new]\<rparr>)) (\<lambda>_.
     with_pcb p (andthen (pcb p) (\<lambda>b. case place_in (mutex_list b) m of (i, ms) \<Rightarrow>
       andthen (set_pcb p (\<lambda>b. b\<lparr>mutex_list := ms\<rparr>)) (\<lambda>_. ret (Returned (of_nat i))))))))"

definition object_of :: "nat \<Rightarrow> (ProcessControlBlock \<Rightarrow> nat option list) \<Rightarrow> usize \<Rightarrow> ('d kernel, nat) prog" where
  "object_of p f i = andthen (pcb p) (\<lambda>b. andthen (vec_at (f b) (unat i)) unwrap)"

definition sys_mutex_lock :: "usize \<Rightarrow> ('d kernel, sysret) prog" where
  "sys_mutex_lock mutex_id =
     andthen current_process (\<lambda>p.
     andthen (with_pcb p (object_of p mutex_list mutex_id)) (\<lambda>m.
     andthen (Mutex_lock m []) (\<lambda>taken. ret (lock_result taken))))"

definition sys_mutex_unlock :: "usize \<Rightarrow> ('d kernel, sysret) prog" where
  "sys_mutex_unlock mutex_id =
     andthen current_process (\<lambda>p.
     andthen (with_pcb p (object_of p mutex_list mutex_id)) (\<lambda>m.
     andthen (Mutex_unlock m) (\<lambda>_. ret (Returned 0))))"

definition sys_semaphore_create :: "usize \<Rightarrow> ('d kernel, sysret) prog" where
  "sys_semaphore_create res_count =
     andthen current_process (\<lambda>p. with_pcb p
       (andthen (gets (\<lambda>k. length (semaphores k))) (\<lambda>s.
        andthen (modifies (\<lambda>k. k\<lparr>semaphores := semaphores k @ [Semaphore_new res_count]\<rparr>)) (\<lambda>_.
        andthen (pcb p) (\<lambda>b. case place_in (semaphore_list b) s of (i, ss) \<Rightarrow>
        andthen (set_pcb p (\<lambda>b. b\<lparr>semaphore_list := ss\<rparr>)) (\<lambda>_. ret (Returned (of_nat i))))))))"

definition sys_semaphore_up :: "usize \<Rightarrow> ('d kernel, sysret) prog" where
  "sys_semaphore_up sem_id =
     andthen current_process (\<lambda>p.
     andthen (with_pcb p (object_of p semaphore_list sem_id)) (\<lambda>s.
     andthen (Semaphore_up_on s) (\<lambda>_. ret (Returned 0))))"

definition sys_semaphore_down :: "usize \<Rightarrow> ('d kernel, sysret) prog" where
  "sys_semaphore_down sem_id =
     andthen current_process (\<lambda>p.
     andthen (with_pcb p (object_of p semaphore_list sem_id)) (\<lambda>s.
     andthen (Semaphore_down_on s [p]) (\<lambda>taken. ret (lock_result taken))))"

definition sys_condvar_create :: "usize \<Rightarrow> ('d kernel, sysret) prog" where
  "sys_condvar_create arg =
     andthen current_process (\<lambda>p. with_pcb p
       (andthen (gets (\<lambda>k. length (condvars k))) (\<lambda>c.
        andthen (modifies (\<lambda>k. k\<lparr>condvars := condvars k @ [Condvar_new]\<rparr>)) (\<lambda>_.
        andthen (pcb p) (\<lambda>b. case place_in (condvar_list b) c of (i, cs) \<Rightarrow>
        andthen (set_pcb p (\<lambda>b. b\<lparr>condvar_list := cs\<rparr>)) (\<lambda>_. ret (Returned (of_nat i))))))))"

definition sys_condvar_signal :: "usize \<Rightarrow> ('d kernel, sysret) prog" where
  "sys_condvar_signal condvar_id =
     andthen current_process (\<lambda>p.
     andthen (with_pcb p (object_of p condvar_list condvar_id)) (\<lambda>c.
     andthen (Condvar_signal_on c) (\<lambda>_. ret (Returned 0))))"

definition sys_condvar_wait :: "usize \<Rightarrow> usize \<Rightarrow> ('d kernel, sysret) prog" where
  "sys_condvar_wait condvar_id mutex_id =
     andthen current_process (\<lambda>p.
     andthen (with_pcb p (andthen (object_of p condvar_list condvar_id) (\<lambda>c.
       andthen (object_of p mutex_list mutex_id) (\<lambda>m. ret (c, m))))) (\<lambda>(c, m).
     andthen (Condvar_wait c m [p]) (\<lambda>_. ret Away)))"

section \<open>Threads\<close>

text \<open>\<^verbatim>\<open>while tasks.len() < tid + 1 { tasks.push(None) }\<close>, then \<^verbatim>\<open>tasks[tid] = Some(task)\<close>.\<close>

definition place_task :: "usize \<Rightarrow> nat \<Rightarrow> nat option list \<Rightarrow> nat option list res" where
  "place_task i task ts =
     (let ts' = ts @ replicate (unat (i + 1) - length ts) None in
      if unat i < length ts' then Inr (ts'[unat i := Some task]) else Inl IndexOutOfRange)"

definition sys_thread_create :: "'d platform \<Rightarrow> usize \<Rightarrow> usize \<Rightarrow> ('d kernel, sysret) prog" where
  "sys_thread_create pf entry_va arg =
     andthen current_task (\<lambda>r.
     andthen (unwrap r) (\<lambda>task.
     andthen (process_of task) (\<lambda>p.
     andthen (with_tcb task (andthen (tcb task) (\<lambda>b. andthen (unwrap (res b)) (\<lambda>r.
       TaskControlBlock_new pf p (ustack_base r) True)))) (\<lambda>nb.
     andthen (Arc_new_tcb nb) (\<lambda>new_task.
     andthen (add_task new_task) (\<lambda>_.
     with_tcb new_task
       (andthen (tcb new_task) (\<lambda>b.
        andthen (unwrap (res b)) (\<lambda>nr.
        with_pcb p
          (andthen (pcb p) (\<lambda>pb.
           andthen (lift_res (place_task (tid nr) new_task (tasks pb))) (\<lambda>ts.
           andthen (set_pcb p (\<lambda>b. b\<lparr>tasks := ts\<rparr>)) (\<lambda>_.
           andthen kernel_token (\<lambda>token.
           let cx = app_init_context pf entry_va (ustack_top nr) token (KernelStack_get_top (kstack b)) (trap_handler_addr pf) in
           andthen (write_trap_cx (trap_cx_ppn b) cx) (\<lambda>_.
           andthen (set_trap_cx_word (trap_cx_ppn b) 10 arg) (\<lambda>_.
           ret (Returned (tid nr))))))))))))))))))"

definition sys_gettid :: "('d kernel, sysret) prog" where
  "sys_gettid =
     andthen current_task (\<lambda>r.
     andthen (unwrap r) (\<lambda>task.
     with_tcb task (andthen (tcb task) (\<lambda>b.
       andthen (unwrap (res b)) (\<lambda>r. ret (Returned (tid r)))))))"

definition sys_waittid :: "usize \<Rightarrow> ('d kernel, i32) prog" where
  "sys_waittid wanted =
     andthen current_task (\<lambda>r.
     andthen (unwrap r) (\<lambda>task.
     andthen (process_of task) (\<lambda>p.
     with_tcb task (with_pcb p
       (andthen (tcb task) (\<lambda>b.
        andthen (unwrap (res b)) (\<lambda>r.
        if tid r = wanted then ret (- 1)
        else
          andthen (pcb p) (\<lambda>pb.
          andthen (vec_at (tasks pb) (unat wanted)) (\<lambda>waited.
          case waited of
            None \<Rightarrow> ret (- 1)
          | Some waited_task \<Rightarrow>
              andthen (read_tcb waited_task tcb_exit_code) (\<lambda>ec.
              case ec of
                None \<Rightarrow> ret (- 2)
              | Some code \<Rightarrow>
                  andthen (set_pcb p (\<lambda>b. b\<lparr>tasks := (tasks b)[unat wanted := None]\<rparr>)) (\<lambda>_.
                  andthen (drop_task_arc waited_task) (\<lambda>_.
                  ret code))))))))))))"

section \<open>The dispatch\<close>

datatype sysno =
    NR_DUP | NR_OPEN | NR_CLOSE | NR_PIPE | NR_READ | NR_WRITE | NR_EXIT
  | NR_SLEEP | NR_YIELD | NR_KILL | NR_GET_TIME | NR_GETPID | NR_FORK | NR_EXEC
  | NR_WAITPID | NR_THREAD_CREATE | NR_GETTID | NR_WAITTID | NR_MUTEX_CREATE | NR_MUTEX_LOCK | NR_MUTEX_UNLOCK
  | NR_SEMAPHORE_CREATE | NR_SEMAPHORE_UP | NR_SEMAPHORE_DOWN | NR_CONDVAR_CREATE | NR_CONDVAR_SIGNAL | NR_CONDVAR_WAIT

text \<open>The numbers of the calls.\<close>

fun SYSCALL :: "sysno \<Rightarrow> usize" where
  "SYSCALL NR_DUP = 24"
| "SYSCALL NR_OPEN = 56"
| "SYSCALL NR_CLOSE = 57"
| "SYSCALL NR_PIPE = 59"
| "SYSCALL NR_READ = 63"
| "SYSCALL NR_WRITE = 64"
| "SYSCALL NR_EXIT = 93"
| "SYSCALL NR_SLEEP = 101"
| "SYSCALL NR_YIELD = 124"
| "SYSCALL NR_KILL = 129"
| "SYSCALL NR_GET_TIME = 169"
| "SYSCALL NR_GETPID = 172"
| "SYSCALL NR_FORK = 220"
| "SYSCALL NR_EXEC = 221"
| "SYSCALL NR_WAITPID = 260"
| "SYSCALL NR_THREAD_CREATE = 1000"
| "SYSCALL NR_GETTID = 1001"
| "SYSCALL NR_WAITTID = 1002"
| "SYSCALL NR_MUTEX_CREATE = 1010"
| "SYSCALL NR_MUTEX_LOCK = 1011"
| "SYSCALL NR_MUTEX_UNLOCK = 1012"
| "SYSCALL NR_SEMAPHORE_CREATE = 1020"
| "SYSCALL NR_SEMAPHORE_UP = 1021"
| "SYSCALL NR_SEMAPHORE_DOWN = 1022"
| "SYSCALL NR_CONDVAR_CREATE = 1030"
| "SYSCALL NR_CONDVAR_SIGNAL = 1031"
| "SYSCALL NR_CONDVAR_WAIT = 1032"

definition syscall :: "'d platform \<Rightarrow> usize \<Rightarrow> usize \<Rightarrow> usize \<Rightarrow> usize \<Rightarrow> ('d kernel, sysret) prog" where
  "syscall pf syscall_id a0 a1 a2 =
     (if syscall_id = SYSCALL NR_DUP then sys_dup a0
      else if syscall_id = SYSCALL NR_OPEN then sys_open pf a0 (ucast a1)
      else if syscall_id = SYSCALL NR_CLOSE then sys_close a0
      else if syscall_id = SYSCALL NR_PIPE then sys_pipe a0
      else if syscall_id = SYSCALL NR_READ then sys_read pf a0 a1 a2
      else if syscall_id = SYSCALL NR_WRITE then sys_write pf a0 a1 a2
      else if syscall_id = SYSCALL NR_EXIT then sys_exit (ucast a0)
      else if syscall_id = SYSCALL NR_SLEEP then sys_sleep pf a0
      else if syscall_id = SYSCALL NR_YIELD then sys_yield
      else if syscall_id = SYSCALL NR_KILL then sys_kill a0 (ucast a1)
      else if syscall_id = SYSCALL NR_GET_TIME then sys_get_time pf
      else if syscall_id = SYSCALL NR_GETPID then sys_getpid
      else if syscall_id = SYSCALL NR_FORK then sys_fork pf
      else if syscall_id = SYSCALL NR_EXEC then sys_exec pf a0 a1
      else if syscall_id = SYSCALL NR_WAITPID then sys_waitpid a0 a1
      else if syscall_id = SYSCALL NR_THREAD_CREATE then sys_thread_create pf a0 a1
      else if syscall_id = SYSCALL NR_GETTID then sys_gettid
      else if syscall_id = SYSCALL NR_WAITTID then andthen (sys_waittid a0) (\<lambda>code. ret (Returned (scast code)))
      else if syscall_id = SYSCALL NR_MUTEX_CREATE then sys_mutex_create (a0 = 1)
      else if syscall_id = SYSCALL NR_MUTEX_LOCK then sys_mutex_lock a0
      else if syscall_id = SYSCALL NR_MUTEX_UNLOCK then sys_mutex_unlock a0
      else if syscall_id = SYSCALL NR_SEMAPHORE_CREATE then sys_semaphore_create a0
      else if syscall_id = SYSCALL NR_SEMAPHORE_UP then sys_semaphore_up a0
      else if syscall_id = SYSCALL NR_SEMAPHORE_DOWN then sys_semaphore_down a0
      else if syscall_id = SYSCALL NR_CONDVAR_CREATE then sys_condvar_create a0
      else if syscall_id = SYSCALL NR_CONDVAR_SIGNAL then sys_condvar_signal a0
      else if syscall_id = SYSCALL NR_CONDVAR_WAIT then sys_condvar_wait a0 a1
      else throw ExplicitPanic)"

end
