(* ===== verification/Trap.thy ===== *)
theory Trap
  imports Syscalls
begin

unbundle bit_operations_syntax

text \<open>
  Traps from user mode (\<^verbatim>\<open>os/src/trap/mod.rs\<close>), the scheduler loop with the resumption of suspended tasks
  (\<^verbatim>\<open>os/src/task/processor.rs\<close>) and the start of the kernel (\<^verbatim>\<open>os/src/main.rs\<close>, \<^verbatim>\<open>os/src/task/mod.rs\<close>).
\<close>

datatype trap_cause =
    UserEnvCall
  | StoreFault | StorePageFault
  | InstructionFault | InstructionPageFault
  | LoadFault | LoadPageFault
  | IllegalInstruction
  | SupervisorTimer
  | UnsupportedTrap

text \<open>Where the processor goes: to user mode with the trap context's address and the page table, or to the scheduler.\<close>

datatype next_run = ToUser usize usize | ToScheduler

definition current_trap_cx_user_va :: "('d kernel, usize) prog" where
  "current_trap_cx_user_va =
     andthen current_task (\<lambda>r.
     andthen (unwrap r) (\<lambda>t.
     with_tcb t (andthen (tcb t) (\<lambda>b. andthen (unwrap (res b)) (\<lambda>r. ret (trap_cx_user_va r))))))"

definition trap_return :: "('d kernel, next_run) prog" where
  "trap_return =
     andthen current_trap_cx_user_va (\<lambda>va.
     andthen current_user_token (\<lambda>user_satp. ret (ToUser va user_satp)))"

definition finish_trap :: "('d kernel, next_run) prog" where
  "finish_trap =
     andthen check_signals_of_current (\<lambda>r.
     case r of
       None \<Rightarrow> trap_return
     | Some (errno, msg) \<Rightarrow>
         andthen (println (''[kernel] '' @ msg)) (\<lambda>_.
         andthen (exit_current_and_run_next errno) (\<lambda>_. ret ToScheduler)))"

text \<open>What follows the system call: its result goes to \<^verbatim>\<open>x[10]\<close> of the trap context the task has then.\<close>

definition finish_syscall :: "sysret \<Rightarrow> ('d kernel, next_run) prog" where
  "finish_syscall r = (case r of
     Away \<Rightarrow> ret ToScheduler
   | Returned result \<Rightarrow>
       andthen current_trap_cx (\<lambda>ppn.
       andthen (set_trap_cx_word ppn 10 result) (\<lambda>_. finish_trap)))"

definition trap_handler :: "'d platform \<Rightarrow> trap_cause \<Rightarrow> ('d kernel, next_run) prog" where
  "trap_handler pf cause = (case cause of
     UserEnvCall \<Rightarrow>
       andthen current_trap_cx (\<lambda>ppn.
       andthen (gets (\<lambda>k. load64 (mem k) (trap_cx_word ppn SEPC_WORD))) (\<lambda>sepc.
       andthen (set_trap_cx_word ppn SEPC_WORD (sepc + 4)) (\<lambda>_.
       andthen (gets (\<lambda>k i. load64 (mem k) (trap_cx_word ppn i))) (\<lambda>x.
       andthen (syscall pf (x 17) (x 10) (x 11) (x 12)) finish_syscall))))
   | StoreFault \<Rightarrow> andthen (current_add_signal SIGSEGV) (\<lambda>_. finish_trap)
   | StorePageFault \<Rightarrow> andthen (current_add_signal SIGSEGV) (\<lambda>_. finish_trap)
   | InstructionFault \<Rightarrow> andthen (current_add_signal SIGSEGV) (\<lambda>_. finish_trap)
   | InstructionPageFault \<Rightarrow> andthen (current_add_signal SIGSEGV) (\<lambda>_. finish_trap)
   | LoadFault \<Rightarrow> andthen (current_add_signal SIGSEGV) (\<lambda>_. finish_trap)
   | LoadPageFault \<Rightarrow> andthen (current_add_signal SIGSEGV) (\<lambda>_. finish_trap)
   | IllegalInstruction \<Rightarrow> andthen (current_add_signal SIGILL) (\<lambda>_. finish_trap)
   | SupervisorTimer \<Rightarrow>
       andthen (set_next_trigger pf) (\<lambda>_.
       andthen (check_timer pf) (\<lambda>_.
       andthen (suspend_current_and_run_next K_timer) (\<lambda>_. ret ToScheduler)))
   | UnsupportedTrap \<Rightarrow> throw ExplicitPanic)"

section \<open>The scheduler loop\<close>

text \<open>
  The processes that a resumed system call holds are given back when it returns.
\<close>

definition finish_holding :: "nat list \<Rightarrow> sysret \<Rightarrow> ('d kernel, next_run) prog" where
  "finish_holding ps r = (case r of
     Away \<Rightarrow> ret ToScheduler
   | Returned result \<Rightarrow> andthen (for_each ps drop_process_arc) (\<lambda>_. finish_syscall r))"

definition resume :: "kcont \<Rightarrow> ('d kernel, next_run) prog" where
  "resume c = (case c of
     K_start cx \<Rightarrow> trap_return
   | K_zero \<Rightarrow> finish_syscall (Returned 0)
   | K_timer \<Rightarrow> finish_trap
   | K_spin m ps \<Rightarrow> andthen (Mutex_lock m ps) (\<lambda>taken. finish_holding ps (lock_result taken))
   | K_locked m ps \<Rightarrow> finish_holding ps (Returned 0)
   | K_down s ps \<Rightarrow> finish_holding ps (Returned 0)
   | K_relock cv m ps \<Rightarrow> andthen (Mutex_lock m ps) (\<lambda>taken. finish_holding ps (lock_result taken))
   | K_read p n it ps \<Rightarrow> andthen (Pipe_read_loop p n it ps) (\<lambda>io. finish_holding ps (io_result io))
   | K_write p n it ps \<Rightarrow> andthen (Pipe_write_loop p n it ps) (\<lambda>io. finish_holding ps (io_result io))
   | K_stdin ub ps \<Rightarrow> andthen (Stdin_read_loop ub ps) (\<lambda>io. finish_holding ps (io_result io))
   | K_none \<Rightarrow> throw ExplicitPanic)"

text \<open>One round of the loop of \<^verbatim>\<open>run_tasks\<close>, up to the next entry of user mode or the next round.\<close>

definition run_tasks_round :: "('d kernel, next_run) prog" where
  "run_tasks_round =
     andthen fetch_task (\<lambda>r.
     case r of
       None \<Rightarrow> andthen (println ''no tasks available in run_tasks'') (\<lambda>_. ret ToScheduler)
     | Some task \<Rightarrow>
         andthen (write_tcb task (\<lambda>b. b\<lparr>task_status := Running\<rparr>)) (\<lambda>_.
         andthen (modifies (\<lambda>k. k\<lparr>current := Some task\<rparr>)) (\<lambda>_.
         andthen (tcb task) (\<lambda>b.
         andthen (set_tcb task (\<lambda>b. b\<lparr>task_cx := K_none\<rparr>)) (\<lambda>_.
         resume (task_cx b))))))"

section \<open>The start\<close>

definition force_INITPROC :: "'d platform \<Rightarrow> ('d kernel, nat) prog" where
  "force_INITPROC pf = andthen (gets INITPROC) (\<lambda>r. case r of
     Some p \<Rightarrow> ret p
   | None \<Rightarrow>
       andthen (open_file pf [105, 110, 105, 116, 112, 114, 111, 99] 0) (\<lambda>found.
       andthen (unwrap found) (\<lambda>inode.
       andthen (read_all pf inode) (\<lambda>v.
       andthen (ProcessControlBlock_new pf v) (\<lambda>p.
       andthen (modifies (\<lambda>k. k\<lparr>INITPROC := Some p\<rparr>)) (\<lambda>_. ret p))))))"

definition add_initproc :: "'d platform \<Rightarrow> ('d kernel, unit) prog" where
  "add_initproc pf = andthen (force_INITPROC pf) (\<lambda>_. ret ())"

text \<open>
  \<^verbatim>\<open>mm::init\<close> without the heap of the kernel itself: the frame allocator, the kernel's address space and its
  activation.
\<close>

definition mm_init :: "'d platform \<Rightarrow> ('d kernel, unit) prog" where
  "mm_init pf =
     andthen (init_frame_allocator (ekernel (symbols pf))) (\<lambda>_.
     andthen (MemorySet_new_kernel (symbols pf) (MMIO pf)) (\<lambda>ks.
     modifies (\<lambda>k. k\<lparr>KERNEL_SPACE := ks, satp := MemorySet_token ks\<rparr>)))"

definition translate_mid :: "usize \<Rightarrow> usize \<Rightarrow> ('d kernel, PageTableEntry) prog" where
  "translate_mid from to =
     andthen (gets (\<lambda>k. PageTable_translate (mem k) (page_table (KERNEL_SPACE k)) (va_floor (VirtAddr_from ((from + to) div 2))))) unwrap"

definition remap_test :: "'d platform \<Rightarrow> ('d kernel, unit) prog" where
  "remap_test pf =
     andthen (translate_mid (stext (symbols pf)) (etext (symbols pf))) (\<lambda>mid_text.
     andthen (assert_that (\<not> pte_writable mid_text)) (\<lambda>_.
     andthen (translate_mid (srodata (symbols pf)) (erodata (symbols pf))) (\<lambda>mid_rodata.
     andthen (assert_that (\<not> pte_writable mid_rodata)) (\<lambda>_.
     andthen (translate_mid (sdata (symbols pf)) (edata (symbols pf))) (\<lambda>mid_data.
     andthen (assert_that (\<not> pte_executable mid_data)) (\<lambda>_.
     println ''remap_test passed!''))))))"

text \<open>
  \<^verbatim>\<open>rust_main\<close> from \<^verbatim>\<open>mm::init\<close> on, up to \<^verbatim>\<open>run_tasks\<close>. \<^verbatim>\<open>trap::init\<close> and \<^verbatim>\<open>enable_timer_interrupt\<close> set registers that
  the model does not have.
\<close>

definition rust_main :: "'d platform \<Rightarrow> ('d kernel, unit) prog" where
  "rust_main pf =
     andthen (println ''[kernel] Hello, world!'') (\<lambda>_.
     andthen (mm_init pf) (\<lambda>_.
     andthen (remap_test pf) (\<lambda>_.
     andthen (set_next_trigger pf) (\<lambda>_.
     andthen (list_apps pf) (\<lambda>_.
     add_initproc pf)))))"

end
