(* ===== verification/Scheduler.thy ===== *)
theory Scheduler
  imports Trap "HOL-Library.Multiset"
begin

text \<open>
  Properties of the scheduler: the ready queue and the queues of condition variables serve tasks in turn
  (\<open>waiting_line\<close>), and no operation that switches, blocks or wakes tasks loses or duplicates one.
\<close>

section \<open>Waiting lines\<close>

locale waiting_line =
  fixes join :: "'t \<Rightarrow> 'q \<Rightarrow> 'q" and serve :: "'q \<Rightarrow> 't option \<times> 'q" and line :: "'q \<Rightarrow> 't list"
  assumes line_join: "line (join t q) = line q @ [t]"
    and serve_empty: "line q = [] \<Longrightarrow> fst (serve q) = None \<and> line (snd (serve q)) = []"
    and serve_next: "line q = t # ts \<Longrightarrow> fst (serve q) = Some t \<and> line (snd (serve q)) = ts"
begin

text \<open>The tasks served in a sequence of events: \<open>Some t\<close> joins the line, \<open>None\<close> serves its first task.\<close>

fun served :: "'t option list \<Rightarrow> 'q \<Rightarrow> 't list" where
  "served [] q = []"
| "served (Some t # es) q = served es (join t q)"
| "served (None # es) q = (case fst (serve q) of None \<Rightarrow> [] | Some t \<Rightarrow> [t]) @ served es (snd (serve q))"

lemma served_in_turn:
  assumes "k < length (line q)" and "k < length (filter (\<lambda>e. e = None) es)"
  shows "k < length (served es q) \<and> served es q ! k = line q ! k"
  using assms
proof (induction es q arbitrary: k rule: served.induct)
  case (2 t es q)
  then show ?case using 2(1)[of k] by (simp add: line_join nth_append)
next
  case (3 es q)
  obtain t ts where l: "line q = t # ts" using 3(2) by (cases "line q") auto
  then have s: "fst (serve q) = Some t" "line (snd (serve q)) = ts" using serve_next by auto
  show ?case
  proof (cases k)
    case (Suc j)
    have "j < length (served es (snd (serve q))) \<and> served es (snd (serve q)) ! j = line (snd (serve q)) ! j"
      by (rule 3(1)) (use 3(2,3) Suc l s in simp_all)
    then show ?thesis using Suc l s by simp
  qed (simp add: l s)
qed simp

end

text \<open>
  The tasks that \<^verbatim>\<open>fetch\<close> returns and that \<^verbatim>\<open>signal\<close> wakes in a sequence of events: \<open>Some t\<close> adds task \<open>t\<close>, \<open>None\<close> is a call
  of \<^verbatim>\<open>fetch\<close> or \<^verbatim>\<open>signal\<close>.
\<close>

fun dispatched :: "'t option list \<Rightarrow> 't list \<Rightarrow> 't list" where
  "dispatched [] rq = []"
| "dispatched (Some t # es) rq = dispatched es (TaskManager_add t rq)"
| "dispatched (None # es) rq = (case TaskManager_fetch rq of
     (None, rq') \<Rightarrow> dispatched es rq'
   | (Some t, rq') \<Rightarrow> t # dispatched es rq')"

fun signalled :: "'t option list \<Rightarrow> 't CondvarInner \<Rightarrow> 't list" where
  "signalled [] cv = []"
| "signalled (Some t # es) cv = signalled es (Condvar_enqueue t cv)"
| "signalled (None # es) cv = (case Condvar_signal cv of
     (None, cv') \<Rightarrow> signalled es cv'
   | (Some t, cv') \<Rightarrow> t # signalled es cv')"

interpretation ready: waiting_line TaskManager_add TaskManager_fetch "\<lambda>q. q"
  by unfold_locales (simp_all add: TaskManager_add_def TaskManager_fetch_def)

interpretation condvar: waiting_line Condvar_enqueue Condvar_signal cv_wait_queue
  by unfold_locales (simp_all add: Condvar_enqueue_def Condvar_signal_def)

lemma dispatched_served: "dispatched es rq = ready.served es rq"
  by (induction es rq rule: dispatched.induct) (simp_all split: prod.splits option.splits)

lemma signalled_served: "signalled es cv = condvar.served es cv"
  by (induction es cv rule: signalled.induct) (simp_all split: prod.splits option.splits)

text \<open>
  C20: The scheduler is fair. A task at place \<open>k\<close> of the ready queue is the one that the \<open>(k+1)\<close>-th \<^verbatim>\<open>fetch\<close> from
  now returns, whatever tasks are added meanwhile.
\<close>

theorem TaskManager_fair:
  assumes "k < length rq" and "k < length (filter (\<lambda>e. e = None) events)"
  shows "k < length (dispatched events rq) \<and> dispatched events rq ! k = rq ! k"
  using ready.served_in_turn[OF assms] by (simp add: dispatched_served)

theorem TaskManager_fair_witness:
  "dispatched [None, Some 9, None] [4, 5, 6 :: nat] ! 1 = 5"
  using TaskManager_fair[of 1 "[4, 5, 6 :: nat]" "[None, Some 9, None]"] by simp

text \<open>
  A condition variable wakes the tasks that wait on it in the order in which they started to wait: the one
  at place \<open>k\<close> is woken by the \<open>(k+1)\<close>-th \<^verbatim>\<open>signal\<close>.
\<close>

theorem Condvar_fair:
  assumes "k < length (cv_wait_queue cv)" and "k < length (filter (\<lambda>e. e = None) events)"
  shows "k < length (signalled events cv) \<and> signalled events cv ! k = cv_wait_queue cv ! k"
  using condvar.served_in_turn[OF assms] by (simp add: signalled_served)

theorem Condvar_fair_witness:
  "signalled [None, Some 9, None] \<lparr>cv_wait_queue = [4, 5 :: nat]\<rparr> ! 1 = 5"
  using Condvar_fair[of 1 "\<lparr>cv_wait_queue = [4, 5 :: nat]\<rparr>" "[None, Some 9, None]"] by simp

section \<open>Where the tasks are\<close>

definition task_places :: "'d kernel \<Rightarrow> nat multiset" where
  "task_places k =
     mset (ready_queue k) + (case current k of None \<Rightarrow> {#} | Some t \<Rightarrow> {#t#}) + mset (map timer_task (TIMERS k)) +
     mset (concat (map mutex_waiters (mutexes k))) + mset (concat (map sem_wait_queue (semaphores k))) +
     mset (concat (map cv_wait_queue (condvars k)))"

definition conserves :: "('d kernel, 'a) prog \<Rightarrow> bool" where
  "conserves p \<longleftrightarrow> (\<forall>k x k'. p k = Inr (x, k') \<longrightarrow> task_places k' = task_places k)"

lemma mset_concat_update:
  "i < length xs \<Longrightarrow> mset (concat (map f (xs[i := x]))) + mset (f (xs ! i)) = mset (concat (map f xs)) + mset (f x)"
  by (induction xs arbitrary: i) (auto split: nat.splits)

lemma andthen_Inr: "andthen m f s = Inr (y, s'') \<longleftrightarrow> (\<exists>x s'. m s = Inr (x, s') \<and> f x s' = Inr (y, s''))"
  by (auto simp: andthen_def split: sum.splits prod.splits)

lemmas step_Inr = andthen_Inr ret_def throw_def gets_def modifies_def unwrap_def lift_res_def vec_at_def

lemma set_tcb_places: "set_tcb t f k = Inr (x, k') \<Longrightarrow>
    task_places k' = task_places k \<and> current k' = current k"
  by (auto simp: set_tcb_def tcb_def prog_defs task_places_def split: option.splits)

lemma write_tcb_places: "write_tcb t f k = Inr (x, k') \<Longrightarrow> task_places k' = task_places k \<and> current k' = current k"
  by (auto simp: write_tcb_def with_tcb_def borrow_tcb_def release_tcb_def set_tcb_def tcb_def prog_defs task_places_def
      split: option.splits if_splits sum.splits prod.splits)

lemma take_current_places: "take_current_task k = Inr (r, k') \<Longrightarrow>
    r = current k \<and> current k' = None \<and>
    task_places k = task_places k' + (case current k of None \<Rightarrow> {#} | Some t \<Rightarrow> {#t#})"
  by (auto simp: take_current_task_def step_Inr task_places_def ac_simps split: option.splits)

lemma add_task_places: "add_task t k = Inr (x, k') \<Longrightarrow> task_places k' = add_mset t (task_places k) \<and> current k' = current k"
  by (auto simp: add_task_def TaskManager_add_def step_Inr task_places_def)

lemma suspend_places:
  assumes "suspend_current_and_run_next c k = Inr (x, k')"
  shows "task_places k' = task_places k"
  using assms unfolding suspend_current_and_run_next_def schedule_def
  by (auto simp: step_Inr split: option.splits
      dest!: take_current_places write_tcb_places add_task_places set_tcb_places)

lemma block_places:
  assumes "block_current_and_run_next c k = Inr (x, k')"
  shows "\<exists>t. current k = Some t \<and> task_places k = add_mset t (task_places k')"
  using assms unfolding block_current_and_run_next_def schedule_def
  by (auto simp: step_Inr split: option.splits
      dest!: take_current_places write_tcb_places set_tcb_places)

lemma set_mutex_places:
  assumes "set_mutex m mtx k = Inr (x, k')" and "m < length (mutexes k)"
  shows "task_places k' + mset (mutex_waiters (mutexes k ! m)) = task_places k + mset (mutex_waiters mtx)" "current k' = current k"
  using assms mset_concat_update[OF assms(2), of mutex_waiters mtx]
  by (auto simp: set_mutex_def step_Inr task_places_def ac_simps)

lemma set_semaphore_places:
  assumes "set_semaphore i sem k = Inr (x, k')" and "i < length (semaphores k)"
  shows "task_places k' + mset (sem_wait_queue (semaphores k ! i)) = task_places k + mset (sem_wait_queue sem)" "current k' = current k"
  using assms mset_concat_update[OF assms(2), of sem_wait_queue sem]
  by (auto simp: set_semaphore_def step_Inr task_places_def ac_simps)

lemma set_condvar_places:
  assumes "set_condvar i cv k = Inr (x, k')" and "i < length (condvars k)"
  shows "task_places k' + mset (cv_wait_queue (condvars k ! i)) = task_places k + mset (cv_wait_queue cv)" "current k' = current k"
  using assms mset_concat_update[OF assms(2), of cv_wait_queue cv]
  by (auto simp: set_condvar_def step_Inr task_places_def ac_simps)

lemma wake_places:
  "wake r k = Inr (x, k') \<Longrightarrow> task_places k' = task_places k + (case r of None \<Rightarrow> {#} | Some t \<Rightarrow> {#t#}) \<and> current k' = current k"
  by (auto simp: wake_def step_Inr split: option.splits dest: add_task_places)

lemma suspend_conserves: "conserves (suspend_current_and_run_next c)"
  unfolding conserves_def using suspend_places by blast

lemma Mutex_lock_conserves: "conserves (Mutex_lock m ps)"
proof (unfold conserves_def, intro allI impI)
  fix k :: "'d kernel" and r k'
  assume run: "Mutex_lock m ps k = Inr (r, k')"
  show "task_places k' = task_places k"
  proof (cases "mutexes k ! m")
    case (Spin sp)
    then show ?thesis using run
      by (auto simp: Mutex_lock_def step_Inr MutexSpin_try_def mutex_waiters_def split: if_splits dest!: suspend_places set_mutex_places(1))
  next
    case (BlockingMutex b)
    obtain t k1 where t: "current k = Some t" "m < length (mutexes k)"
      "set_mutex m (BlockingMutex (snd (MutexBlocking_lock t b))) k = Inr ((), k1)"
      "if fst (MutexBlocking_lock t b) then (block_current_and_run_next (K_locked m ps) k1 = Inr ((), k')) else k' = k1"
      using run BlockingMutex
      by (auto simp: Mutex_lock_def current_task_def step_Inr split: if_splits option.splits prod.splits)
    show ?thesis using set_mutex_places[OF t(3,2)] t(1,4) block_places[of "K_locked m ps" k1 "()" k'] BlockingMutex
      by (auto simp: MutexBlocking_lock_def mutex_waiters_def split: if_splits)
  qed
qed

lemma Mutex_unlock_conserves: "conserves (Mutex_unlock m)"
proof (unfold conserves_def, intro allI impI)
  fix k :: "'d kernel" and r k'
  assume run: "Mutex_unlock m k = Inr (r, k')"
  show "task_places k' = task_places k"
  proof (cases "mutexes k ! m")
    case (Spin sp)
    then show ?thesis using run set_mutex_places[of m "Spin (MutexSpin_unlock sp)" k]
      by (auto simp: Mutex_unlock_def step_Inr mutex_waiters_def split: if_splits)
  next
    case (BlockingMutex b)
    obtain w b' k1 where t: "m < length (mutexes k)" "MutexBlocking_unlock b = Inr (w, b')"
      "set_mutex m (BlockingMutex b') k = Inr ((), k1)" "wake w k1 = Inr (r, k')"
      using run BlockingMutex by (auto simp: Mutex_unlock_def step_Inr split: if_splits sum.splits)
    show ?thesis using set_mutex_places[OF t(3,1)] wake_places[OF t(4)] t(2) BlockingMutex
      by (auto simp: MutexBlocking_unlock_def mutex_waiters_def split: if_splits list.splits)
  qed
qed

lemma Semaphore_up_conserves: "conserves (Semaphore_up_on i)"
proof (unfold conserves_def, intro allI impI)
  fix k :: "'d kernel" and r k'
  assume run: "Semaphore_up_on i k = Inr (r, k')"
  obtain w sem' k1 where t: "i < length (semaphores k)" "Semaphore_up (semaphores k ! i) = (w, sem')"
      "set_semaphore i sem' k = Inr ((), k1)" "wake w k1 = Inr (r, k')"
    using run by (auto simp: Semaphore_up_on_def step_Inr split: if_splits prod.splits)
  show "task_places k' = task_places k" using set_semaphore_places[OF t(3,1)] wake_places[OF t(4)] t(2)
    by (auto simp: Semaphore_up_def Let_def split: if_splits list.splits)
qed

lemma Semaphore_down_conserves: "conserves (Semaphore_down_on i ps)"
proof (unfold conserves_def, intro allI impI)
  fix k :: "'d kernel" and r k'
  assume run: "Semaphore_down_on i ps k = Inr (r, k')"
  obtain t k1 where t: "current k = Some t" "i < length (semaphores k)"
      "set_semaphore i (snd (Semaphore_down t (semaphores k ! i))) k = Inr ((), k1)"
      "if fst (Semaphore_down t (semaphores k ! i)) then (block_current_and_run_next (K_down i ps) k1 = Inr ((), k')) else k' = k1"
    using run by (auto simp: Semaphore_down_on_def current_task_def step_Inr split: if_splits option.splits prod.splits)
  show "task_places k' = task_places k" using set_semaphore_places[OF t(3,2)] t(1,4) block_places[of "K_down i ps" k1 "()" k']
    by (auto simp: Semaphore_down_def Let_def split: if_splits)
qed

lemma Condvar_signal_conserves: "conserves (Condvar_signal_on i)"
proof (unfold conserves_def, intro allI impI)
  fix k :: "'d kernel" and r k'
  assume run: "Condvar_signal_on i k = Inr (r, k')"
  obtain w cv' k1 where t: "i < length (condvars k)" "Condvar_signal (condvars k ! i) = (w, cv')"
      "set_condvar i cv' k = Inr ((), k1)" "wake w k1 = Inr (r, k')"
    using run by (auto simp: Condvar_signal_on_def step_Inr split: if_splits prod.splits)
  show "task_places k' = task_places k" using set_condvar_places[OF t(3,1)] wake_places[OF t(4)] t(2)
    by (auto simp: Condvar_signal_def split: list.splits)
qed

lemma Condvar_wait_conserves: "conserves (Condvar_wait i m ps)"
proof (unfold conserves_def, intro allI impI)
  fix k :: "'d kernel" and r k'
  assume run: "Condvar_wait i m ps k = Inr (r, k')"
  obtain t k0 k1 where t: "Mutex_unlock m k = Inr ((), k0)" "current k0 = Some t" "i < length (condvars k0)"
      "set_condvar i (Condvar_enqueue t (condvars k0 ! i)) k0 = Inr ((), k1)"
      "block_current_and_run_next (K_relock i m ps) k1 = Inr (r, k')"
    using run by (auto simp: Condvar_wait_def current_task_def step_Inr split: if_splits option.splits)
  have "task_places k0 = task_places k" using Mutex_unlock_conserves[of m] t(1) unfolding conserves_def by blast
  then show "task_places k' = task_places k" using set_condvar_places[OF t(4,3)] t(2) block_places[OF t(5)]
    by (auto simp: Condvar_enqueue_def)
qed

lemma sys_sleep_conserves: "conserves (sys_sleep (pf :: 'd platform) ms)"
proof (unfold conserves_def, intro allI impI)
  fix k :: "'d kernel" and r k'
  assume run: "sys_sleep pf ms k = Inr (r, k')"
  obtain t k1 now where t: "current k = Some t" "k1 = k\<lparr>TIMERS := add_timer (now + ms) t (TIMERS k)\<rparr>"
      "block_current_and_run_next K_zero k1 = Inr ((), k')"
    using run by (auto simp: sys_sleep_def kernel_get_time_ms_def current_task_def step_Inr split: option.splits)
  show "task_places k' = task_places k" using t(1,2) block_places[OF t(3)]
    by (auto simp: task_places_def add_timer_def)
qed

lemma for_each_add_task_places:
  "for_each ws add_task k = Inr (x, k') \<Longrightarrow> task_places k' = task_places k + mset ws \<and> TIMERS k' = TIMERS k"
proof (induction ws arbitrary: k)
  case (Cons a ws)
  define k1 where "k1 = k\<lparr>ready_queue := ready_queue k @ [a]\<rparr>"
  have "add_task a k = Inr ((), k1)" by (simp add: add_task_def TaskManager_add_def modifies_def k1_def)
  then have "for_each ws add_task k1 = Inr (x, k')" using Cons.prems by (simp add: andthen_Inr)
  moreover have "task_places k1 = add_mset a (task_places k)" "TIMERS k1 = TIMERS k"
    by (simp_all add: k1_def task_places_def)
  ultimately show ?case using Cons.IH[of k1] by simp
qed (simp add: step_Inr)

lemma check_timer_loop_mset:
  "mset (fst (check_timer_loop now ts)) + mset (map timer_task (snd (check_timer_loop now ts))) = mset (map timer_task ts)"
proof (induction now ts rule: check_timer_loop.induct)
  case (1 now ts)
  show ?case
  proof (cases "heap_peek ts")
    case (Some t)
    have "mset (map timer_task ts) = add_mset (timer_task t) (mset (map timer_task (heap_pop ts)))"
      using arg_cong[OF heap_pop_mset[OF Some], of "image_mset timer_task"] by simp
    then show ?thesis using 1[OF Some] Some by (subst (1 2) check_timer_loop.simps) (auto simp: case_prod_beta)
  qed (subst (1 2) check_timer_loop.simps, simp)
qed

lemma check_timer_conserves: "conserves (check_timer (pf :: 'd platform))"
proof (unfold conserves_def, intro allI impI)
  fix k :: "'d kernel" and r k'
  assume run: "check_timer pf k = Inr (r, k')"
  define now where "now = get_time_ms (clock_freq pf) (time k)"
  obtain k1 where t: "for_each (fst (check_timer_loop now (TIMERS k))) add_task k = Inr ((), k1)"
      "k' = k1\<lparr>TIMERS := snd (check_timer_loop now (TIMERS k))\<rparr>"
    using run unfolding now_def by (auto simp: check_timer_def kernel_get_time_ms_def step_Inr case_prod_beta)
  have "task_places k1 = task_places k + mset (fst (check_timer_loop now (TIMERS k)))" "TIMERS k1 = TIMERS k"
    using for_each_add_task_places[OF t(1)] by auto
  moreover have "task_places k' + mset (map timer_task (TIMERS k1)) =
      task_places k1 + mset (map timer_task (snd (check_timer_loop now (TIMERS k))))"
    unfolding t(2) by (simp add: task_places_def ac_simps)
  ultimately have "task_places k' + mset (map timer_task (TIMERS k)) = task_places k + mset (map timer_task (TIMERS k))"
    using check_timer_loop_mset[of now "TIMERS k"] by (simp only: add.assoc)
  then show "task_places k' = task_places k" by (simp only: add_right_cancel)
qed

text \<open>
  C19: No task is lost or duplicated. Giving up the processor, locking and unlocking mutexes of both kinds,
  semaphore and condition variable operations, sleeping and the expiry of timers only move tasks between
  the ready queue, the processor, the timers and the queues of the synchronisation objects.
\<close>

theorem scheduling_conserves_tasks:
  "conserves (suspend_current_and_run_next c) \<and> conserves (Mutex_lock m ps) \<and> conserves (Mutex_unlock m) \<and>
   conserves (Semaphore_up_on i) \<and> conserves (Semaphore_down_on i ps) \<and> conserves (Condvar_signal_on i) \<and>
   conserves (Condvar_wait i m ps) \<and> conserves (sys_sleep pf ms) \<and> conserves (check_timer pf)"
  by (intro conjI suspend_conserves Mutex_lock_conserves Mutex_unlock_conserves Semaphore_up_conserves
      Semaphore_down_conserves Condvar_signal_conserves Condvar_wait_conserves sys_sleep_conserves check_timer_conserves)

end
