(* ===== verification/Demo_Kernel.thy ===== *)
theory Demo_Kernel
  imports Trap
begin

unbundle bit_operations_syntax

text \<open>
  A small kernel state on which properties of the kernel are instantiated: the first process, and a process
  with two threads whose main thread is running.
\<close>

definition demo_platform :: "unit platform" where
  "demo_platform =
     \<lparr>trap_handler_addr = 0x80200000, trap_return_addr = 0x80200100, sstatus_read = 0x100, set_spp_user = (\<lambda>s. s AND NOT 0x100),
      clock_freq = CLOCK_FREQ_qemu,
      symbols = \<lparr>stext = 0x80200000, etext = 0x80210000, srodata = 0x80210000, erodata = 0x80220000, sdata = 0x80220000,
        edata = 0x80230000, sbss_with_stack = 0x80230000, ebss = 0x80240000, ekernel = 0x80240000, strampoline = 0x80201000\<rparr>,
      MMIO = MMIO_qemu, ElfFile_new = (\<lambda>_. None),
      BLOCK_DEVICE = \<lparr>read_block = (\<lambda>_. ret (replicate 512 0)), write_block = (\<lambda>_ _. ret ())\<rparr>\<rparr>"

definition demo_memory_set :: MemorySet where
  "demo_memory_set = \<lparr>page_table = PageTable_from_token 1, areas = []\<rparr>"

definition demo_pcb :: "usize \<Rightarrow> nat option list \<Rightarrow> ProcessControlBlock" where
  "demo_pcb i ts =
     \<lparr>pid = i, is_zombie = False, memory_set = demo_memory_set, parent = None, children = [], exit_code = 0,
      fd_table = [Some Stdin, None, Some Stdout], signals = 0, tasks = ts, task_res_allocator = \<lparr>ra_current = 2, ra_recycled = []\<rparr>,
      mutex_list = [], semaphore_list = [], condvar_list = []\<rparr>"

definition demo_tcb :: "nat \<Rightarrow> usize \<Rightarrow> TaskUserRes option \<Rightarrow> TaskControlBlock" where
  "demo_tcb p ks r =
     \<lparr>tcb_process = p, kstack = ks, res = r, trap_cx_ppn = PhysPageNum 7, task_cx = K_none, task_status = Running,
      tcb_exit_code = None\<rparr>"

definition demo_res :: "usize \<Rightarrow> TaskUserRes" where
  "demo_res i = \<lparr>tid = i, ustack_base = 0x20000, res_process = 1\<rparr>"

definition demo_kernel :: "TaskUserRes option \<Rightarrow> unit kernel" where
  "demo_kernel main_res =
     \<lparr>mem = (\<lambda>_. 0), FRAME_ALLOCATOR = StackFrameAllocator_new, KERNEL_SPACE = demo_memory_set,
      PID_ALLOCATOR = \<lparr>ra_current = 2, ra_recycled = []\<rparr>, KSTACK_ALLOCATOR = \<lparr>ra_current = 3, ra_recycled = []\<rparr>,
      ready_queue = [0, 2], PID2PCB = [(0, 0), (1, 1)], current = Some 1, TIMERS = [],
      pcbs = [Some (demo_pcb 0 [Some 0]), Some (demo_pcb 1 [Some 1, Some 2])],
      tcbs = [Some (demo_tcb 0 0 None), Some (demo_tcb 1 1 main_res), Some (demo_tcb 1 2 (Some (demo_res 1)))],
      mutexes = [], semaphores = [], condvars = [], pipe_buffers = [], os_inodes = [], ROOT_INODE = None, INITPROC = Some 0,
      file_system = \<lparr>device = (), queue = [], held = []\<rparr>, borrowed_pcbs = [], borrowed_tcbs = [], lost_frames = [],
      time = 0, next_timer = 0, satp = 0, console_in = [], console_out = []\<rparr>"

lemma demo_kernel_sel [simp]:
  "borrowed_pcbs (demo_kernel r) = []" "borrowed_tcbs (demo_kernel r) = []" "current (demo_kernel r) = Some 1"
  "PID2PCB (demo_kernel r) = [(0, 0), (1, 1)]" "INITPROC (demo_kernel r) = Some 0"
  "slot (pcbs (demo_kernel r)) 0 = Some (demo_pcb 0 [Some 0])"
  "slot (pcbs (demo_kernel r)) 1 = Some (demo_pcb 1 [Some 1, Some 2])"
  "slot (pcbs (demo_kernel r)) (Suc 0) = Some (demo_pcb 1 [Some 1, Some 2])"
  "slot (tcbs (demo_kernel r)) 1 = Some (demo_tcb 1 1 r)" "slot (tcbs (demo_kernel r)) (Suc 0) = Some (demo_tcb 1 1 r)"
  "slot (tcbs (demo_kernel r)) 2 = Some (demo_tcb 1 2 (Some (demo_res 1)))"
  by (simp_all add: demo_kernel_def slot_def)

end
