(* ===== verification/Descriptors.thy ===== *)
theory Descriptors
  imports Demo_Kernel
begin

unbundle bit_operations_syntax

text \<open>
  File descriptors, signals and trap contexts: what the system calls on them leave in the control block of a
  process, and what a trap context written to memory reads back as.
\<close>

section \<open>Descriptors\<close>

lemma alloc_fd_lowest:
  assumes "alloc_fd b = (fd, b')"
  shows "(\<forall>i<fd. fd_table b ! i \<noteq> None) \<and> fd \<le> length (fd_table b) \<and> (fd < length (fd_table b) \<longrightarrow> fd_table b ! fd = None) \<and>
    fd < length (fd_table b') \<and> b' = b\<lparr>fd_table := fd_table b @ (if fd < length (fd_table b) then [] else [None])\<rparr>"
proof (cases "position (\<lambda>f. f = None) (fd_table b)")
  case None
  then have "alloc_fd b = (length (fd_table b), b\<lparr>fd_table := fd_table b @ [None]\<rparr>)"
    by (simp only: alloc_fd_def option.case)
  then show ?thesis using None assms by (auto dest: nth_mem)
next
  case (Some i)
  then have "alloc_fd b = (i, b)" by (simp only: alloc_fd_def option.case)
  then show ?thesis using Some assms by (auto simp: position_Some)
qed

text \<open>
  A new descriptor is the lowest free one: every smaller descriptor is in use, the new one was free or is the
  first past the table, afterwards it refers to the file, and every other descriptor is as before. Nothing
  else of the kernel's state changes.
\<close>

theorem install_file_lowest:
  assumes "slot (pcbs k) p = Some b"
  shows "\<exists>fd tab. install_file p f k = Inr (fd, k\<lparr>pcbs := (pcbs k)[p := Some (b\<lparr>fd_table := tab\<rparr>)]\<rparr>) \<and>
    (\<forall>i<fd. fd_table b ! i \<noteq> None) \<and> fd \<le> length (fd_table b) \<and> (fd < length (fd_table b) \<longrightarrow> fd_table b ! fd = None) \<and>
    length tab = max (length (fd_table b)) (fd + 1) \<and> tab ! fd = Some f \<and>
    (\<forall>i<length (fd_table b). i \<noteq> fd \<longrightarrow> tab ! i = fd_table b ! i)"
proof -
  obtain fd b' where a: "alloc_fd b = (fd, b')" by (cases "alloc_fd b")
  note l = alloc_fd_lowest[OF a]
  define tab where "tab = (fd_table b')[fd := Some f]"
  have b': "b'\<lparr>fd_table := tab\<rparr> = b\<lparr>fd_table := tab\<rparr>" using l by simp
  have tb: "fd_table b' = fd_table b @ (if fd < length (fd_table b) then [] else [None])" using l by simp
  have "install_file p f k = Inr (fd, k\<lparr>pcbs := (pcbs k)[p := Some (b\<lparr>fd_table := tab\<rparr>)]\<rparr>)"
    using assms a b' by (simp add: install_file_def pcb_def set_pcb_def prog_defs tab_def)
  moreover have "length tab = max (length (fd_table b)) (fd + 1)" "tab ! fd = Some f"
    "\<forall>i<length (fd_table b). i \<noteq> fd \<longrightarrow> tab ! i = fd_table b ! i"
    using l by (auto simp: tab_def tb nth_append)
  ultimately show ?thesis using l by blast
qed

theorem install_file_lowest_witness:
  "\<exists>fd tab. install_file 1 Stdin (demo_kernel None) = Inr (fd, demo_kernel None
      \<lparr>pcbs := (pcbs (demo_kernel None))[1 := Some (demo_pcb 1 [Some 1, Some 2]\<lparr>fd_table := tab\<rparr>)]\<rparr>) \<and>
     fd \<le> length (fd_table (demo_pcb 1 [Some 1, Some 2])) \<and> tab ! fd = Some Stdin"
  using install_file_lowest[of "demo_kernel None" 1 "demo_pcb 1 [Some 1, Some 2]" Stdin] by auto

section \<open>Signals\<close>

lemma and_single_bit: "w AND push_bit n 1 = (if bit w n then push_bit n 1 else (0 :: 32 word))"
  by (rule bit_eqI) (auto simp: bit_simps)

lemma check_error_valid:
  assumes "SignalFlags_from_bits flags = Some flags" and "check_error flags = None"
  shows "flags = 0"
proof -
  have n: "flags AND SIGINT = 0" "flags AND SIGILL = 0" "flags AND SIGABRT = 0" "flags AND SIGFPE = 0" "flags AND SIGSEGV = 0"
    using assms(2) unfolding check_error_def SignalFlags_contains_def SIGINT_def SIGILL_def SIGABRT_def SIGFPE_def SIGSEGV_def and_single_bit
    by (auto split: if_splits)
  have "flags AND NOT (SIGINT OR SIGILL OR SIGABRT OR SIGFPE OR SIGSEGV) = 0"
    using assms(1) by (simp add: SignalFlags_from_bits_def split: if_splits)
  moreover have "flags AND (SIGINT OR SIGILL OR SIGABRT OR SIGFPE OR SIGSEGV) = 0"
    using n by (simp add: bit.conj_disj_distrib)
  moreover have "flags = (flags AND NOT m) OR (flags AND m)" for m by (rule bit_eqI) (auto simp: bit_simps)
  ultimately show ?thesis by (metis or.left_neutral)
qed

lemma check_error_mono:
  assumes "check_error flags \<noteq> None"
  shows "check_error (old OR flags) \<noteq> None"
proof -
  have "SignalFlags_contains (old OR flags) s" if "SignalFlags_contains flags s" for s
    using that unfolding SignalFlags_contains_def by (auto simp: bit_eq_iff bit_simps)
  then show ?thesis using assms unfolding check_error_def by (auto split: if_splits)
qed

lemma with_pcb_calm:
  assumes "borrowed_pcbs k = []" and "body (k\<lparr>borrowed_pcbs := [p]\<rparr>) = Inr (x, k')" and "borrowed_pcbs k' = [p]"
  shows "with_pcb p body k = Inr (x, k'\<lparr>borrowed_pcbs := []\<rparr>)"
  using assms by (simp add: with_pcb_def borrow_pcb_def release_pcb_def prog_defs)

lemma kernel_calm: "borrowed_pcbs k = [] \<Longrightarrow> k\<lparr>borrowed_pcbs := []\<rparr> = k"
  by (cases k) simp

lemma write_pcb_calm:
  assumes "borrowed_pcbs k = []" and "slot (pcbs k) p = Some b"
  shows "write_pcb p f k = Inr ((), k\<lparr>pcbs := (pcbs k)[p := Some (f b)]\<rparr>)"
proof -
  have "set_pcb p f (k\<lparr>borrowed_pcbs := [p]\<rparr>) = Inr ((), k\<lparr>borrowed_pcbs := [p], pcbs := (pcbs k)[p := Some (f b)]\<rparr>)"
    using assms(2) by (simp add: set_pcb_def pcb_def prog_defs)
  from with_pcb_calm[where body = "set_pcb p f", OF assms(1) this] show ?thesis
    using assms(1) by (cases k) (simp add: write_pcb_def)
qed

text \<open>
  A signal kills. \<^verbatim>\<open>sys_kill\<close> of a process that exists with a set of known signals returns 0 and adds them to
  the process, so that, if the set is not empty, the check at its next trap reports an error; with
  unknown signals it returns -1 and changes nothing.
\<close>

theorem sys_kill_marks:
  assumes "borrowed_pcbs k = []" and "map_of (PID2PCB k) i = Some p" and "slot (pcbs k) p = Some b"
  shows "if SignalFlags_from_bits sig = None then sys_kill i sig k = Inr (Returned (- 1), k)
     else sys_kill i sig k = Inr (Returned 0, k\<lparr>pcbs := (pcbs k)[p := Some (b\<lparr>signals := signals b OR sig\<rparr>)]\<rparr>) \<and>
       (sig \<noteq> 0 \<longrightarrow> check_error (signals b OR sig) \<noteq> None)"
proof (cases "SignalFlags_from_bits sig")
  case None
  then show ?thesis using assms(2) by (simp add: sys_kill_def pid2process_def prog_defs)
next
  case (Some flag)
  then have f: "flag = sig" by (simp add: SignalFlags_from_bits_def split: if_splits)
  have "sys_kill i sig k = Inr (Returned 0, k\<lparr>pcbs := (pcbs k)[p := Some (b\<lparr>signals := signals b OR sig\<rparr>)]\<rparr>)"
    using assms(2) Some f write_pcb_calm[OF assms(1,3), of "\<lambda>b. b\<lparr>signals := signals b OR sig\<rparr>"]
    by (simp add: sys_kill_def pid2process_def prog_defs)
  moreover have "check_error (signals b OR sig) \<noteq> None" if "sig \<noteq> 0"
    using that Some f check_error_valid[of sig] check_error_mono[of sig "signals b"] by blast
  ultimately show ?thesis using Some by simp
qed

theorem sys_kill_marks_witness:
  "sys_kill 1 SIGINT (demo_kernel None) = Inr (Returned 0, demo_kernel None
      \<lparr>pcbs := (pcbs (demo_kernel None))[1 := Some (demo_pcb 1 [Some 1, Some 2]
        \<lparr>signals := signals (demo_pcb 1 [Some 1, Some 2]) OR SIGINT\<rparr>)]\<rparr>) \<and>
   check_error (signals (demo_pcb 1 [Some 1, Some 2]) OR SIGINT) \<noteq> None"
proof -
  have s: "\<not> SignalFlags_from_bits SIGINT = None" "SIGINT \<noteq> 0"
    by (simp_all add: SignalFlags_from_bits_def SIGINT_def SIGILL_def SIGABRT_def SIGFPE_def SIGSEGV_def)
  have "map_of (PID2PCB (demo_kernel None)) 1 = Some 1" by simp
  from sys_kill_marks[OF demo_kernel_sel(1) this demo_kernel_sel(7), of SIGINT] s(2)
  show ?thesis unfolding if_not_P[OF s(1)] by blast
qed

section \<open>Trap contexts\<close>

definition trap_cx_words :: "TrapContext \<Rightarrow> usize list" where
  "trap_cx_words cx = tc_x cx @ [tc_sstatus cx, tc_sepc cx, tc_kernel_satp cx, tc_kernel_sp cx, tc_trap_handler cx]"

lemma nth_concat_blocks:
  "(\<forall>x\<in>set xs. length x = n) \<Longrightarrow> i < length xs \<Longrightarrow> j < n \<Longrightarrow> concat xs ! (n * i + j) = xs ! i ! j"
proof (induction xs arbitrary: i)
  case (Cons x xs)
  then show ?case by (cases i) (auto simp: nth_append)
qed simp

lemma length_concat_words: "length (concat (map (word_le_bytes n) ws)) = n * length ws"
  by (induction ws) simp_all

lemma load64_words:
  assumes "i < length ws"
  shows "load64 (store_bytes a (concat (map (word_le_bytes 8) ws)) m) (a + 8 * i) = (ws ! i :: u64)"
proof -
  have in_range: "8 * i + j < 8 * length ws" if "j < 8" for j using assms that by linarith
  have "load_bytes (store_bytes a (concat (map (word_le_bytes 8) ws)) m) (a + 8 * i) 8 = word_le_bytes 8 (ws ! i)"
  proof (rule nth_equalityI)
    fix j assume "j < length (load_bytes (store_bytes a (concat (map (word_le_bytes 8) ws)) m) (a + 8 * i) 8)"
    then have j: "j < 8" by simp
    have "concat (map (word_le_bytes 8) ws) ! (8 * i + j) = map (word_le_bytes 8) ws ! i ! j"
      by (rule nth_concat_blocks) (use assms j in auto)
    then show "load_bytes (store_bytes a (concat (map (word_le_bytes 8) ws)) m) (a + 8 * i) 8 ! j = word_le_bytes 8 (ws ! i) ! j"
      using j in_range[OF j] assms by (simp add: store_bytes_def length_concat_words add.assoc)
  qed simp
  then show ?thesis by (simp add: load64_def)
qed

text \<open>
  C24: A trap context that the kernel prepares for a new user program reads back, word by word, as the trap
  return code and the next trap expect it: the stack pointer in \<^verbatim>\<open>x[2]\<close>, zero in the other registers, in
  \<^verbatim>\<open>sstatus\<close> the current value with the previous privilege \<^verbatim>\<open>SPP\<close> (bit 8) set to user mode, the entry point
  in \<^verbatim>\<open>sepc\<close>, then the kernel's page table, stack and handler. Only the 296 bytes of the context are written.
  The hypothesis is what \<^verbatim>\<open>set_spp(SPP::User)\<close> of the \<^verbatim>\<open>riscv\<close> crate does: it clears \<^verbatim>\<open>SPP\<close> and no other bit.
\<close>

theorem trap_context_round_trip:
  assumes "\<forall>w i. bit (set_spp_user pf w) i \<longleftrightarrow> i \<noteq> 8 \<and> bit w i"
  shows "\<exists>k'. write_trap_cx ppn (app_init_context pf entry_va sp kernel_satp kernel_sp handler) k = Inr ((), k') \<and>
     (\<forall>i<32. load64 (mem k') (trap_cx_word ppn i) = (if i = 2 then sp else 0)) \<and>
     (\<forall>i. bit (load64 (mem k') (trap_cx_word ppn 32)) i \<longleftrightarrow> i \<noteq> 8 \<and> bit (sstatus_read pf) i) \<and>
     load64 (mem k') (trap_cx_word ppn SEPC_WORD) = entry_va \<and>
     load64 (mem k') (trap_cx_word ppn 34) = kernel_satp \<and>
     load64 (mem k') (trap_cx_word ppn KERNEL_SP_WORD) = kernel_sp \<and>
     load64 (mem k') (trap_cx_word ppn 36) = handler \<and>
     (\<forall>a. a < ppn_base ppn \<or> ppn_base ppn + 296 \<le> a \<longrightarrow> mem k' a = mem k a)"
proof -
  let ?cx = "app_init_context pf entry_va sp kernel_satp kernel_sp handler"
  let ?m = "store_bytes (ppn_base ppn) (trap_cx_bytes ?cx) (mem k)"
  have x: "tc_x ?cx = (replicate 32 0)[2 := sp]" by (simp add: app_init_context_def set_sp_def)
  have len: "length (trap_cx_words ?cx) = 37" by (simp add: trap_cx_words_def x)
  have b: "trap_cx_bytes ?cx = concat (map (word_le_bytes 8) (trap_cx_words ?cx))"
    by (simp only: trap_cx_bytes_def trap_cx_words_def)
  have w: "load64 ?m (trap_cx_word ppn i) = trap_cx_words ?cx ! i" if "i < 37" for i
    unfolding b trap_cx_word_def by (rule load64_words) (use that len in simp)
  have "trap_cx_words ?cx ! i = (if i = 2 then sp else 0)" if "i < 32" for i
    using that unfolding trap_cx_words_def by (subst nth_append) (simp add: x nth_list_update)
  moreover have "trap_cx_words ?cx ! 32 = set_spp_user pf (sstatus_read pf)"
      "trap_cx_words ?cx ! 33 = entry_va" "trap_cx_words ?cx ! 34 = kernel_satp"
      "trap_cx_words ?cx ! 35 = kernel_sp" "trap_cx_words ?cx ! 36 = handler"
    unfolding trap_cx_words_def by (simp_all add: nth_append x app_init_context_def set_sp_def)
  moreover have "?m a = mem k a" if "a < ppn_base ppn \<or> ppn_base ppn + 296 \<le> a" for a
    using that by (auto simp: store_bytes_def b length_concat_words len)
  ultimately show ?thesis
    using w assms by (simp add: write_trap_cx_def modifies_def SEPC_WORD_def KERNEL_SP_WORD_def)
qed

theorem trap_context_round_trip_witness:
  "\<exists>k'. write_trap_cx (PhysPageNum 7) (app_init_context demo_platform 4096 8192 1 2 3) (demo_kernel None) = Inr ((), k') \<and>
     load64 (mem k') (trap_cx_word (PhysPageNum 7) 2) = 8192 \<and> \<not> bit (load64 (mem k') (trap_cx_word (PhysPageNum 7) 32)) 8 \<and>
     bit (sstatus_read demo_platform) 8 \<and> load64 (mem k') (trap_cx_word (PhysPageNum 7) SEPC_WORD) = 4096"
proof -
  have "bit (w AND NOT 0x100 :: usize) i \<longleftrightarrow> i \<noteq> 8 \<and> bit w i" for w i
  proof -
    have "bit (0x100 :: usize) i \<longleftrightarrow> i = 8" using bit_exp_iff[of 8 i, where ?'a = usize] by auto
    then show ?thesis unfolding bit_and_iff bit_not_iff by (auto dest: bit_imp_possible_bit)
  qed
  then have "\<forall>w i. bit (set_spp_user demo_platform w) i \<longleftrightarrow> i \<noteq> 8 \<and> bit w i"
    and s: "bit (sstatus_read demo_platform) 8"
    by (simp_all add: demo_platform_def bit_numeral_rec)
  from trap_context_round_trip[OF this(1), of "PhysPageNum 7" 4096 8192 1 2 3 "demo_kernel None"] obtain k' where
    "write_trap_cx (PhysPageNum 7) (app_init_context demo_platform 4096 8192 1 2 3) (demo_kernel None) = Inr ((), k')"
    "\<forall>i<32. load64 (mem k') (trap_cx_word (PhysPageNum 7) i) = (if i = 2 then 8192 else 0)"
    "\<not> bit (load64 (mem k') (trap_cx_word (PhysPageNum 7) 32)) 8"
    "load64 (mem k') (trap_cx_word (PhysPageNum 7) SEPC_WORD) = 4096"
    by blast
  then show ?thesis using s by auto
qed

end
