(* ===== verification/Exit_Wait.thy ===== *)
theory Exit_Wait
  imports Demo_Kernel
begin

text \<open>
  Exit and waiting: what happens to a process whose main thread exits while another thread is alive, and what
  waiting for a thread returns.
\<close>

lemma slot_lt: "slot xs i = Some x \<Longrightarrow> i < length xs"
  by (simp add: slot_def split: if_splits)

lemma slot_update: "i < length xs \<Longrightarrow> slot (xs[i := y]) j = (if i = j then y else slot xs j)"
  by (simp add: slot_def)

lemmas access_defs = with_pcb_def borrow_pcb_def release_pcb_def pcb_def set_pcb_def with_tcb_def borrow_tcb_def release_tcb_def
  tcb_def set_tcb_def

text \<open>
  C28: A process with a second live thread cannot exit. When the main thread has given up its own resources
  and \<^verbatim>\<open>exit_current_and_run_next\<close> drops the resources of the second one, it still holds the control block of the
  process, which the drop borrows again: the kernel panics.
\<close>

theorem exit_with_live_thread_panics:
  assumes "slot (pcbs k) p = Some pb" and "children pb = []" and "tasks pb = [Some t, Some t2]"
    and "map_of (PID2PCB k) (pid pb) \<noteq> None"
    and "INITPROC k = Some q" and "q \<noteq> p" and "slot (pcbs k) q = Some qb"
    and "slot (tcbs k) t = Some b" and "res b = None"
    and "slot (tcbs k) t2 = Some b2" and "res b2 = Some r2" and "res_process r2 = p"
    and "borrowed_pcbs k = []" and "borrowed_tcbs k = []"
  shows "exit_process p code k = Inl AlreadyBorrowed"
proof -
  have "t \<noteq> t2" using assms(8-11) by auto
  then show ?thesis
    using assms slot_lt[OF assms(1)] slot_lt[OF assms(8)]
    by (simp add: exit_process_def adopt_children_def remove_from_pid2process_def pid2process_def access_defs prog_defs live_def
        clear_res_def TaskUserRes_drop_def TaskUserRes_dealloc_tid_def slot_update)
qed

theorem exit_with_live_thread_panics_witness:
  "exit_process 1 7 (demo_kernel None) = Inl AlreadyBorrowed"
  by (rule exit_with_live_thread_panics[where pb = "demo_pcb 1 [Some 1, Some 2]" and t = 1 and ?t2.0 = 2 and q = 0
        and qb = "demo_pcb 0 [Some 0]" and b = "demo_tcb 1 1 None" and ?b2.0 = "demo_tcb 1 2 (Some (demo_res 1))"
        and ?r2.0 = "demo_res 1"])
    (simp_all add: demo_pcb_def demo_tcb_def demo_res_def)

lemma sys_waittid_cases:
  assumes "current k = Some t" and "slot (tcbs k) t = Some b" and "res b = Some r" and "tcb_process b = p"
    and "slot (pcbs k) p = Some pb" and "borrowed_pcbs k = []" and "borrowed_tcbs k = []"
  shows "sys_waittid (tid r) k = Inr (- 1, k)"
    and "wanted \<noteq> tid r \<Longrightarrow> length (tasks pb) \<le> unat wanted \<Longrightarrow> sys_waittid wanted k = Inl IndexOutOfRange"
    and "wanted \<noteq> tid r \<Longrightarrow> unat wanted < length (tasks pb) \<Longrightarrow> tasks pb ! unat wanted = None \<Longrightarrow>
      sys_waittid wanted k = Inr (- 1, k)"
    and "wanted \<noteq> tid r \<Longrightarrow> unat wanted < length (tasks pb) \<Longrightarrow> tasks pb ! unat wanted = Some w \<Longrightarrow> w \<noteq> t \<Longrightarrow>
      slot (tcbs k) w = Some wb \<Longrightarrow> tcb_exit_code wb = None \<Longrightarrow> sys_waittid wanted k = Inr (- 2, k)"
proof -
  have calm: "k\<lparr>borrowed_tcbs := [], borrowed_pcbs := []\<rparr> = k" "k\<lparr>borrowed_pcbs := [], borrowed_tcbs := []\<rparr> = k"
    using assms(6,7) by (cases k; simp)+
  note d = sys_waittid_def current_task_def process_of_def read_tcb_def vec_at_def access_defs prog_defs
  show "sys_waittid (tid r) k = Inr (- 1, k)"
    using assms calm by (simp add: d)
  show "wanted \<noteq> tid r \<Longrightarrow> length (tasks pb) \<le> unat wanted \<Longrightarrow> sys_waittid wanted k = Inl IndexOutOfRange"
    using assms by (simp add: d)
  show "wanted \<noteq> tid r \<Longrightarrow> unat wanted < length (tasks pb) \<Longrightarrow> tasks pb ! unat wanted = None \<Longrightarrow>
      sys_waittid wanted k = Inr (- 1, k)"
    using assms calm by (simp add: d)
  show "wanted \<noteq> tid r \<Longrightarrow> unat wanted < length (tasks pb) \<Longrightarrow> tasks pb ! unat wanted = Some w \<Longrightarrow> w \<noteq> t \<Longrightarrow>
      slot (tcbs k) w = Some wb \<Longrightarrow> tcb_exit_code wb = None \<Longrightarrow> sys_waittid wanted k = Inr (- 2, k)"
    using assms calm by (simp add: d)
qed

text \<open>
  C29: Waiting for a thread. \<^verbatim>\<open>sys_waittid\<close> returns -1 for the calling thread and for a free place of the task list,
  -2 for a thread that has not exited, and changes nothing then; for an id past the end of the task list,
  for which the documented result is -1, the kernel panics.
\<close>

theorem sys_waittid_running:
  assumes "current k = Some t" and "slot (tcbs k) t = Some b" and "res b = Some r"
    and "slot (pcbs k) (tcb_process b) = Some pb" and "borrowed_pcbs k = []" and "borrowed_tcbs k = []"
  shows "sys_waittid wanted k =
    (if wanted = tid r then Inr (- 1, k)
     else if length (tasks pb) \<le> unat wanted then Inl IndexOutOfRange
     else case tasks pb ! unat wanted of
       None \<Rightarrow> Inr (- 1, k)
     | Some w \<Rightarrow>
         (case slot (tcbs k) w of
            Some wb \<Rightarrow> if w \<noteq> t \<and> tcb_exit_code wb = None then Inr (- 2, k) else sys_waittid wanted k
          | None \<Rightarrow> sys_waittid wanted k))"
  using sys_waittid_cases[OF assms(1-3) refl assms(4-6)] by (auto split: option.splits)

theorem sys_waittid_running_witness:
  "sys_waittid 5 (demo_kernel (Some (demo_res 0))) = Inl IndexOutOfRange"
  using sys_waittid_running[of "demo_kernel (Some (demo_res 0))" 1 "demo_tcb 1 1 (Some (demo_res 0))" "demo_res 0"
      "demo_pcb 1 [Some 1, Some 2]" 5]
  by (simp add: demo_tcb_def demo_pcb_def demo_res_def)

end
