(* ===== verification/Sdcard.thy ===== *)
theory Sdcard
  imports Block_View
begin

unbundle bit_operations_syntax

text \<open>
  The SD card driver of the K210 board: \<^verbatim>\<open>os/src/drivers/block/sdcard.rs\<close>. The SPI controller, the pins and the
  clocks are used through the crates \<^verbatim>\<open>k210_soc\<close> and \<^verbatim>\<open>k210_hal\<close>; their functions are the fields of \<open>spi_bus\<close> over a
  hardware state. The code above them, commands, responses, sectors and the block device, is defined here;
  registers and initialisation are in \<open>Sdcard_Init\<close>.
\<close>

section \<open>The bus\<close>

datatype tmod = TRANS | RECV

datatype work_mode = MODE0

datatype frame_format = STANDARD

record spi_config =
  sc_work_mode :: work_mode
  sc_frame_format :: frame_format
  sc_data_bits :: u8
  sc_endian :: u32
  sc_instruction_length :: u8
  sc_address_length :: u8
  sc_wait_cycles :: u8
  sc_aitm :: frame_format
  sc_tmod :: tmod

record 'p spi_bus =
  set_pin :: "u8 \<Rightarrow> bool \<Rightarrow> 'p \<Rightarrow> 'p"
  set_direction_output :: "u8 \<Rightarrow> 'p \<Rightarrow> 'p"
  set_clk_rate :: "u32 \<Rightarrow> 'p \<Rightarrow> 'p"
  configure :: "spi_config \<Rightarrow> 'p \<Rightarrow> 'p"
  send_data :: "u32 \<Rightarrow> byte list \<Rightarrow> 'p \<Rightarrow> 'p"
  recv_data :: "u32 \<Rightarrow> byte list \<Rightarrow> 'p \<Rightarrow> byte list \<times> 'p"

record 'p SDCard =
  spi :: "'p spi_bus"
  spi_cs :: u32
  cs_gpionum :: u8

definition SDCard_new :: "'p spi_bus \<Rightarrow> u32 \<Rightarrow> u8 \<Rightarrow> 'p SDCard" where
  "SDCard_new bus cs gpio = \<lparr>spi = bus, spi_cs = cs, cs_gpionum = gpio\<rparr>"

definition CS_HIGH :: "'p SDCard \<Rightarrow> ('p, unit) prog" where
  "CS_HIGH sd = modifies (set_pin (spi sd) (cs_gpionum sd) True)"

definition CS_LOW :: "'p SDCard \<Rightarrow> ('p, unit) prog" where
  "CS_LOW sd = modifies (set_pin (spi sd) (cs_gpionum sd) False)"

definition HIGH_SPEED_ENABLE :: "'p SDCard \<Rightarrow> ('p, unit) prog" where
  "HIGH_SPEED_ENABLE sd = modifies (set_clk_rate (spi sd) 10000000)"

definition lowlevel_init :: "'p SDCard \<Rightarrow> ('p, unit) prog" where
  "lowlevel_init sd =
     andthen (modifies (set_direction_output (spi sd) (cs_gpionum sd))) (\<lambda>_.
     modifies (set_clk_rate (spi sd) 200000))"

definition spi_mode :: "tmod \<Rightarrow> spi_config" where
  "spi_mode t = \<lparr>sc_work_mode = MODE0, sc_frame_format = STANDARD, sc_data_bits = 8, sc_endian = 0,
     sc_instruction_length = 0, sc_address_length = 0, sc_wait_cycles = 0, sc_aitm = STANDARD, sc_tmod = t\<rparr>"

definition write_data :: "'p SDCard \<Rightarrow> byte list \<Rightarrow> ('p, unit) prog" where
  "write_data sd bs =
     andthen (modifies (configure (spi sd) (spi_mode TRANS))) (\<lambda>_.
     modifies (send_data (spi sd) (spi_cs sd) bs))"

definition read_data :: "'p SDCard \<Rightarrow> byte list \<Rightarrow> ('p, byte list) prog" where
  "read_data sd buf =
     andthen (modifies (configure (spi sd) (spi_mode RECV))) (\<lambda>_.
     (\<lambda>p. Inr (recv_data (spi sd) (spi_cs sd) buf p)))"

section \<open>Commands and responses\<close>

abbreviation SD_START_DATA_SINGLE_BLOCK_READ :: u8 where "SD_START_DATA_SINGLE_BLOCK_READ \<equiv> 0xFE"

abbreviation SD_START_DATA_SINGLE_BLOCK_WRITE :: u8 where "SD_START_DATA_SINGLE_BLOCK_WRITE \<equiv> 0xFE"

abbreviation SD_START_DATA_MULTIPLE_BLOCK_WRITE :: u8 where "SD_START_DATA_MULTIPLE_BLOCK_WRITE \<equiv> 0xFC"

definition SEC_LEN :: nat where "SEC_LEN = 512"

datatype CMD = CMD0 | CMD8 | CMD9 | CMD10 | CMD12 | CMD16 | CMD17 | CMD18 | ACMD23 | CMD24 | CMD25 | ACMD41 | CMD55 | CMD58 | CMD59

fun cmd_code :: "CMD \<Rightarrow> u8" where
  "cmd_code CMD0 = 0"
| "cmd_code CMD8 = 8"
| "cmd_code CMD9 = 9"
| "cmd_code CMD10 = 10"
| "cmd_code CMD12 = 12"
| "cmd_code CMD16 = 16"
| "cmd_code CMD17 = 17"
| "cmd_code CMD18 = 18"
| "cmd_code ACMD23 = 23"
| "cmd_code CMD24 = 24"
| "cmd_code CMD25 = 25"
| "cmd_code ACMD41 = 41"
| "cmd_code CMD55 = 55"
| "cmd_code CMD58 = 58"
| "cmd_code CMD59 = 59"

definition cmd_bytes :: "CMD \<Rightarrow> u32 \<Rightarrow> u8 \<Rightarrow> byte list" where
  "cmd_bytes cmd arg crc = [cmd_code cmd OR 0x40, ucast (drop_bit 24 arg), ucast (drop_bit 16 arg AND 0xff),
     ucast (drop_bit 8 arg AND 0xff), ucast (arg AND 0xff), crc]"

definition send_cmd :: "'p SDCard \<Rightarrow> CMD \<Rightarrow> u32 \<Rightarrow> u8 \<Rightarrow> ('p, unit) prog" where
  "send_cmd sd cmd arg crc = andthen (CS_LOW sd) (\<lambda>_. write_data sd (cmd_bytes cmd arg crc))"

definition end_cmd :: "'p SDCard \<Rightarrow> ('p, unit) prog" where
  "end_cmd sd = andthen (CS_HIGH sd) (\<lambda>_. write_data sd [0xff])"

fun get_response_loop :: "'p SDCard \<Rightarrow> byte list \<Rightarrow> nat \<Rightarrow> ('p, u8) prog" where
  "get_response_loop sd result 0 = ret 0xFF"
| "get_response_loop sd result (Suc timeout) =
     andthen (read_data sd result) (\<lambda>result'.
     if result' ! 0 \<noteq> 0xFF then ret (result' ! 0) else get_response_loop sd result' timeout)"

definition get_response :: "'p SDCard \<Rightarrow> ('p, u8) prog" where
  "get_response sd = get_response_loop sd [0] 0x0FFF"

text \<open>\<^verbatim>\<open>while response[0] == 0\<close>: the card holds the line low while it is busy; nothing bounds the wait.\<close>

partial_function (option) wait_null :: "'p SDCard \<Rightarrow> byte list \<Rightarrow> 'p \<Rightarrow> (panic + byte list \<times> 'p) option" where
  "wait_null sd response p =
     (if response ! 0 = 0
      then (case read_data sd response p of
          Inl e \<Rightarrow> Some (Inl e)
        | Inr (response', p') \<Rightarrow> wait_null sd response' p')
      else Some (Inr (response, p)))"

definition get_dataresponse :: "'p SDCard \<Rightarrow> ('p, u8) prog" where
  "get_dataresponse sd =
     andthen (read_data sd [0]) (\<lambda>response.
     let response = response[0 := response ! 0 AND 0x1F] in
     if response ! 0 \<noteq> 0x05 then ret 0xFF
     else
       andthen (read_data sd response) (\<lambda>response.
       andthen (\<lambda>p. case wait_null sd response p of None \<Rightarrow> Inl NeverReturns | Some r \<Rightarrow> r) (\<lambda>_. ret 0)))"

section \<open>Sectors\<close>

text \<open>\<^verbatim>\<open>chunks\<close> and \<^verbatim>\<open>chunks_mut\<close> of a slice.\<close>

function chunks :: "nat \<Rightarrow> 'a list \<Rightarrow> 'a list list" where
  "chunks n xs = (if xs = [] \<or> n = 0 then [] else take n xs # chunks n (drop n xs))"
  by pat_completeness auto
termination by (relation "measure (\<lambda>(n, xs). length xs)") auto

declare chunks.simps [simp del]

text \<open>
  The loop of \<^verbatim>\<open>read_sector\<close> over the chunks of the buffer. It gives back whether it broke off and the chunks as they
  are then; \<^verbatim>\<open>tmp_chunk\<close> is overwritten by every round.
\<close>

fun read_chunks :: "'p SDCard \<Rightarrow> byte list list \<Rightarrow> byte list \<Rightarrow> ('p, bool \<times> byte list list) prog" where
  "read_chunks sd [] tmp_chunk = ret (False, [])"
| "read_chunks sd (chunk # rest) tmp_chunk =
     andthen (get_response sd) (\<lambda>r.
     if r \<noteq> SD_START_DATA_SINGLE_BLOCK_READ then ret (True, chunk # rest)
     else
       andthen (read_data sd tmp_chunk) (\<lambda>tmp_chunk.
       let chunk = overwrite 0 (take (length chunk) tmp_chunk) chunk in
       andthen (read_data sd (replicate 2 0)) (\<lambda>_.
       andthen (read_chunks sd rest tmp_chunk) (\<lambda>(error, rest').
       ret (error, chunk # rest')))))"

text \<open>\<^verbatim>\<open>read_sector\<close> gives back the buffer and whether it succeeded.\<close>

definition read_sector :: "'p SDCard \<Rightarrow> byte list \<Rightarrow> u32 \<Rightarrow> ('p, byte list \<times> bool) prog" where
  "read_sector sd data_buf sector =
     andthen (assert_that (SEC_LEN \<le> length data_buf \<and> length data_buf mod SEC_LEN = 0)) (\<lambda>_.
     let flag = (length data_buf \<noteq> SEC_LEN) in
     andthen (send_cmd sd (if flag then CMD18 else CMD17) sector 0) (\<lambda>_.
     andthen (get_response sd) (\<lambda>r.
     if r \<noteq> 0x00 then andthen (end_cmd sd) (\<lambda>_. ret (data_buf, False))
     else
       andthen (read_chunks sd (chunks SEC_LEN data_buf) (replicate SEC_LEN 0)) (\<lambda>(error, cs).
       andthen (end_cmd sd) (\<lambda>_.
       andthen (if flag
         then andthen (send_cmd sd CMD12 0 0) (\<lambda>_.
              andthen (get_response sd) (\<lambda>_.
              andthen (end_cmd sd) (\<lambda>_.
              end_cmd sd)))
         else ret ()) (\<lambda>_.
       ret (concat cs, \<not> error)))))))"

fun write_chunks :: "'p SDCard \<Rightarrow> byte list \<Rightarrow> byte list list \<Rightarrow> byte list \<Rightarrow> ('p, bool) prog" where
  "write_chunks sd frame [] tmp_chunk = andthen (end_cmd sd) (\<lambda>_. andthen (end_cmd sd) (\<lambda>_. ret True))"
| "write_chunks sd frame (chunk # rest) tmp_chunk =
     andthen (write_data sd frame) (\<lambda>_.
     let tmp_chunk = overwrite 0 (take (length tmp_chunk) chunk) tmp_chunk in
     andthen (write_data sd tmp_chunk) (\<lambda>_.
     andthen (write_data sd [0xff, 0xff]) (\<lambda>_.
     andthen (get_dataresponse sd) (\<lambda>r.
     if r \<noteq> 0x00 then andthen (end_cmd sd) (\<lambda>_. ret False)
     else write_chunks sd frame rest tmp_chunk))))"

definition write_sector :: "'p SDCard \<Rightarrow> byte list \<Rightarrow> u32 \<Rightarrow> ('p, bool) prog" where
  "write_sector sd data_buf sector =
     andthen (assert_that (SEC_LEN \<le> length data_buf \<and> length data_buf mod SEC_LEN = 0)) (\<lambda>_.
     andthen (if length data_buf = SEC_LEN
       then andthen (send_cmd sd CMD24 sector 0) (\<lambda>_. ret [0xff, SD_START_DATA_SINGLE_BLOCK_WRITE])
       else andthen (unwrap (if length data_buf div SEC_LEN < 2 ^ 32 then Some (of_nat (length data_buf div SEC_LEN)) else None)) (\<lambda>n.
            andthen (send_cmd sd ACMD23 n 0) (\<lambda>_.
            andthen (get_response sd) (\<lambda>_.
            andthen (end_cmd sd) (\<lambda>_.
            andthen (send_cmd sd CMD25 sector 0) (\<lambda>_.
            ret [0xff, SD_START_DATA_MULTIPLE_BLOCK_WRITE])))))) (\<lambda>frame.
     andthen (get_response sd) (\<lambda>r.
     if r \<noteq> 0x00 then andthen (end_cmd sd) (\<lambda>_. ret False)
     else write_chunks sd frame (chunks SEC_LEN data_buf) (replicate SEC_LEN 0))))"

section \<open>The block device\<close>

text \<open>
  \<^verbatim>\<open>SDCardWrapper\<close>: block numbers are cut to 32 bits and a failed sector panics. Blocks are read into the zeroed
  buffer of \<^verbatim>\<open>BlockCache::new\<close>.
\<close>

definition SDCard_read_block :: "'p SDCard \<Rightarrow> nat \<Rightarrow> ('p, byte list) prog" where
  "SDCard_read_block sd block_id =
     andthen (read_sector sd (replicate BLOCK_SZ 0) (of_nat block_id)) (\<lambda>(buf, ok).
     andthen (unwrap (if ok then Some () else None)) (\<lambda>_. ret buf))"

definition SDCard_write_block :: "'p SDCard \<Rightarrow> nat \<Rightarrow> byte list \<Rightarrow> ('p, unit) prog" where
  "SDCard_write_block sd block_id buf =
     andthen (write_sector sd buf (of_nat block_id)) (\<lambda>ok. unwrap (if ok then Some () else None))"

definition SDCardWrapper :: "'p SDCard \<Rightarrow> 'p BlockDevice" where
  "SDCardWrapper sd = \<lparr>read_block = SDCard_read_block sd, write_block = SDCard_write_block sd\<rparr>"

end
