(* ===== verification/Sdcard_Device.thy ===== *)
theory Sdcard_Device
  imports Sdcard
begin

unbundle bit_operations_syntax

text \<open>
  The SD card driver as a block device. \<open>serial_bus\<close>, \<open>card_reads\<close> and \<open>card_writes\<close> state what the SPI controller and a
  card in SPI mode do; with them \<^verbatim>\<open>SDCardWrapper\<close> keeps the contract \<open>block_device\<close>, on which the file system rests.
\<close>

section \<open>The card as seen from the bus\<close>

definition rx1 :: "'p SDCard \<Rightarrow> 'p \<Rightarrow> byte \<times> 'p" where
  "rx1 sd p = (case recv_data (spi sd) (spi_cs sd) [0] (configure (spi sd) (spi_mode RECV) p) of (bs, p') \<Rightarrow> (bs ! 0, p'))"

fun rxs :: "'p SDCard \<Rightarrow> nat \<Rightarrow> 'p \<Rightarrow> byte list \<times> 'p" where
  "rxs sd 0 p = ([], p)"
| "rxs sd (Suc n) p = (case rx1 sd p of (b, p1) \<Rightarrow> case rxs sd n p1 of (bs, p2) \<Rightarrow> (b # bs, p2))"

text \<open>Receiving a buffer is receiving its bytes one after the other.\<close>

definition serial_bus :: "'p SDCard \<Rightarrow> bool" where
  "serial_bus sd \<longleftrightarrow> (\<forall>buf p. recv_data (spi sd) (spi_cs sd) buf (configure (spi sd) (spi_mode RECV) p) = rxs sd (length buf) p)"

definition tx :: "'p SDCard \<Rightarrow> byte list \<Rightarrow> 'p \<Rightarrow> 'p" where
  "tx sd bs p = send_data (spi sd) (spi_cs sd) bs (configure (spi sd) (spi_mode TRANS) p)"

text \<open>
  The command frame of the SPI-mode protocol: start and transmission bit 01 with the 6-bit command index, the 32-bit
  argument with its most significant byte first, a check sum. A selected card takes a frame as a command; in
  SPI mode it does not look at the check sum.
\<close>

definition sd_frame :: "nat \<Rightarrow> nat \<Rightarrow> byte \<Rightarrow> byte list" where
  "sd_frame index arg crc =
     [of_nat (64 + index), of_nat (arg div 2 ^ 24), of_nat (arg div 2 ^ 16), of_nat (arg div 2 ^ 8), of_nat arg, crc]"

definition after_frame :: "'p SDCard \<Rightarrow> nat \<Rightarrow> nat \<Rightarrow> byte \<Rightarrow> 'p \<Rightarrow> 'p" where
  "after_frame sd index arg crc p = tx sd (sd_frame index arg crc) (set_pin (spi sd) (cs_gpionum sd) False p)"

definition after_end :: "'p SDCard \<Rightarrow> 'p \<Rightarrow> 'p" where
  "after_end sd p = tx sd [0xff] (set_pin (spi sd) (cs_gpionum sd) True p)"

text \<open>
  Reading a block: after command 17 with the block number the card answers the response 0 after fewer than \<^verbatim>\<open>0xFFF\<close>
  idle bytes, sends the start token after fewer than \<^verbatim>\<open>0xFFF\<close> idle bytes, then the block and two bytes of check sum.
\<close>

definition card_reads :: "'p SDCard \<Rightarrow> ('p \<Rightarrow> nat \<Rightarrow> byte list) \<Rightarrow> nat set \<Rightarrow> ('p \<Rightarrow> bool) \<Rightarrow> bool" where
  "card_reads sd disk ids dinv \<longleftrightarrow> (\<forall>p i c. dinv p \<longrightarrow> i \<in> ids \<longrightarrow> length (disk p i) = 512 \<and>
     (\<exists>a b crc p1 p2 p3. a < 0xFFF \<and> b < 0xFFF \<and> length crc = 2 \<and>
        rxs sd (Suc a) (after_frame sd 17 i c p) = (replicate a 0xFF @ [0], p1) \<and>
        rxs sd (Suc b) p1 = (replicate b 0xFF @ [0xFE], p2) \<and>
        rxs sd 514 p2 = (disk p i @ crc, p3) \<and> dinv (after_end sd p3) \<and> disk (after_end sd p3) = disk p))"

text \<open>
  Writing a block: after command 24 the card answers 0 in the same way; after the start token, the block and the check sum it sends a
  response that accepts the data and holds the line low until the block is written.
\<close>

definition card_writes :: "'p SDCard \<Rightarrow> ('p \<Rightarrow> nat \<Rightarrow> byte list) \<Rightarrow> nat set \<Rightarrow> ('p \<Rightarrow> bool) \<Rightarrow> bool" where
  "card_writes sd disk ids dinv \<longleftrightarrow> (\<forall>p i c bs. dinv p \<longrightarrow> i \<in> ids \<longrightarrow> length bs = 512 \<longrightarrow>
     (\<exists>a p1 status z up p2. a < 0xFFF \<and> status AND 0x1F = 5 \<and> up \<noteq> 0 \<and>
        rxs sd (Suc a) (after_frame sd 24 i c p) = (replicate a 0xFF @ [0], p1) \<and>
        rxs sd (z + 2) (tx sd [0xff, 0xff] (tx sd bs (tx sd [0xff, 0xfe] p1))) = (status # replicate z 0 @ [up], p2) \<and>
        dinv (after_end sd (after_end sd p2)) \<and> disk (after_end sd (after_end sd p2)) = (disk p)(i := bs)))"

section \<open>Running the driver on a serial bus\<close>

lemma rxs_add: "rxs sd (m + n) p = (case rxs sd m p of (xs, p1) \<Rightarrow> case rxs sd n p1 of (ys, p2) \<Rightarrow> (xs @ ys, p2))"
  by (induction m arbitrary: p) (auto split: prod.splits)

lemma rxs_SucD:
  assumes "rxs sd (Suc n) p = (b # bs, p')"
  shows "\<exists>p1. rx1 sd p = (b, p1) \<and> rxs sd n p1 = (bs, p')"
  using assms by (auto split: prod.splits)

lemma wp_write_data [simp]: "wp (write_data sd bs) Q p = Q () (tx sd bs p)"
  by (simp add: write_data_def tx_def)

text \<open>The driver's command bytes are frames of the protocol.\<close>

lemma cmd_bytes_frame:
  "cmd_bytes CMD17 (of_nat i) crc = sd_frame 17 i crc" "cmd_bytes CMD24 (of_nat i) crc = sd_frame 24 i crc"
proof -
  have ff: "(0xff :: u32) = mask 8" by (simp add: mask_eq_exp_minus_1)
  have "ucast (drop_bit 24 (of_nat i :: u32)) = (of_nat (i div 2 ^ 24) :: byte)"
    "ucast (drop_bit 16 (of_nat i :: u32) AND 0xff) = (of_nat (i div 2 ^ 16) :: byte)"
    "ucast (drop_bit 8 (of_nat i :: u32) AND 0xff) = (of_nat (i div 2 ^ 8) :: byte)"
    "ucast ((of_nat i :: u32) AND 0xff) = (of_nat i :: byte)"
    unfolding ff drop_bit_eq_div[symmetric]
    by (rule bit_word_eqI; auto simp: bit_simps)+
  then show "cmd_bytes CMD17 (of_nat i) crc = sd_frame 17 i crc" "cmd_bytes CMD24 (of_nat i) crc = sd_frame 24 i crc"
    by (simp_all add: cmd_bytes_def sd_frame_def)
qed

lemma wp_send_cmd [simp]:
  "wp (send_cmd sd CMD17 (of_nat i) crc) Q p = Q () (after_frame sd 17 i crc p)"
  "wp (send_cmd sd CMD24 (of_nat i) crc) Q p = Q () (after_frame sd 24 i crc p)"
  by (simp_all add: send_cmd_def after_frame_def CS_LOW_def cmd_bytes_frame)

lemma wp_end_cmd [simp]: "wp (end_cmd sd) Q p = Q () (after_end sd p)"
  by (simp add: end_cmd_def after_end_def CS_HIGH_def)

lemma read_data_run:
  assumes "serial_bus sd"
  shows "read_data sd buf p = Inr (rxs sd (length buf) p)"
  using assms by (simp add: read_data_def serial_bus_def andthen_def modifies_def)

lemma wp_read_data:
  assumes "serial_bus sd"
  shows "wp (read_data sd buf) Q p = (case rxs sd (length buf) p of (bs, p') \<Rightarrow> Q bs p')"
  by (simp add: wp_def read_data_run[OF assms])

lemma get_response_runs:
  assumes "serial_bus sd" and "rxs sd (Suc a) p = (replicate a 0xFF @ [r], p')" and "r \<noteq> 0xFF" and "a < n" and "length buf = 1"
  shows "get_response_loop sd buf n p = Inr (r, p')"
  using assms(2-)
proof (induction a arbitrary: p n buf)
  case 0
  then obtain k where n: "n = Suc k" by (cases n) auto
  show ?case using 0 by (simp add: n read_data_run[OF assms(1)] andthen_def ret_def)
next
  case (Suc a)
  then obtain k where n: "n = Suc k" by (cases n) auto
  have "rxs sd (Suc (Suc a)) p = (0xFF # replicate a 0xFF @ [r], p')" using Suc.prems(1) by simp
  then obtain p1 where p1: "rx1 sd p = (0xFF, p1)" "rxs sd (Suc a) p1 = (replicate a 0xFF @ [r], p')" by (blast dest: rxs_SucD)
  have "get_response_loop sd [0xFF] k p1 = Inr (r, p')" using Suc.prems n by (intro Suc.IH[OF p1(2)]) auto
  then show ?case using p1(1) Suc.prems(4) by (simp add: n read_data_run[OF assms(1)] andthen_def ret_def)
qed

lemma wp_get_response:
  assumes "serial_bus sd" and "rxs sd (Suc a) p = (replicate a 0xFF @ [r], p')" and "r \<noteq> 0xFF" and "a < 0xFFF" and "Q r p'"
  shows "wp (get_response sd) Q p"
  using get_response_runs[OF assms(1-4)] assms(5) by (simp add: get_response_def wp_def)

lemma wait_null_runs:
  assumes "serial_bus sd" and "rxs sd (Suc z) p = (replicate z 0 @ [up], p')" and "up \<noteq> 0"
  shows "\<exists>r. wait_null sd [0] p = Some (Inr (r, p'))"
  using assms(2)
proof (induction z arbitrary: p)
  case 0
  then have "rxs sd 1 p = ([up], p')" by simp
  then have "wait_null sd [0] p = Some (Inr ([up], p'))"
    using assms(3) by (subst wait_null.simps) (simp add: read_data_run[OF assms(1)] wait_null.simps[of sd "[up]"])
  then show ?case ..
next
  case (Suc z)
  have "rxs sd (Suc (Suc z)) p = (0 # replicate z 0 @ [up], p')" using Suc.prems by simp
  then obtain p1 where p1: "rx1 sd p = (0, p1)" "rxs sd (Suc z) p1 = (replicate z 0 @ [up], p')" by (blast dest: rxs_SucD)
  obtain r where "wait_null sd [0] p1 = Some (Inr (r, p'))" using Suc.IH[OF p1(2)] ..
  then have "wait_null sd [0] p = Some (Inr (r, p'))"
    using p1(1) by (subst wait_null.simps) (simp add: read_data_run[OF assms(1)])
  then show ?case ..
qed

lemma wp_get_dataresponse:
  assumes ser: "serial_bus sd" and rx: "rxs sd (z + 2) p = (status # replicate z 0 @ [up], p')" and st: "status AND 0x1F = 5"
    and up: "up \<noteq> 0" and Q: "Q 0 p'"
  shows "wp (get_dataresponse sd) Q p"
proof -
  have "rxs sd (Suc (Suc z)) p = (status # replicate z 0 @ [up], p')" using rx by simp
  then obtain p1 where p1: "rx1 sd p = (status, p1)" "rxs sd (Suc z) p1 = (replicate z 0 @ [up], p')" by (blast dest: rxs_SucD)
  have "\<exists>b p2. rx1 sd p1 = (b, p2) \<and> (\<exists>r. wait_null sd [b] p2 = Some (Inr (r, p')))"
  proof (cases z)
    case 0
    then have "rx1 sd p1 = (up, p')" using p1(2) by (auto split: prod.splits)
    then show ?thesis using up by (simp add: wait_null.simps)
  next
    case (Suc k)
    then have "rxs sd (Suc (Suc k)) p1 = (0 # replicate k 0 @ [up], p')" using p1(2) by simp
    then obtain p2 where "rx1 sd p1 = (0, p2)" "rxs sd (Suc k) p2 = (replicate k 0 @ [up], p')" by (blast dest: rxs_SucD)
    then show ?thesis using wait_null_runs[OF ser _ up] by blast
  qed
  then obtain b p2 r where b: "rx1 sd p1 = (b, p2)" "wait_null sd [b] p2 = Some (Inr (r, p'))" by blast
  show ?thesis
    using p1(1) b st Q by (simp add: get_dataresponse_def wp_read_data[OF ser] Let_def) (simp add: wp_def ret_def)
qed

section \<open>The contract\<close>

lemma chunks_single: "length xs = 512 \<Longrightarrow> chunks 512 xs = [xs]"
  by (cases xs) (simp_all add: chunks.simps)

lemma overwrite_all: "length xs = length ys \<Longrightarrow> overwrite 0 xs ys = xs"
  by (simp add: overwrite_def)

lemma SDCard_read_block_ok:
  assumes ser: "serial_bus sd" and rd: "card_reads sd disk ids dinv" and p: "dinv p" "i \<in> ids"
  shows "wp (SDCard_read_block sd i) (\<lambda>bs p'. bs = disk p i \<and> dinv p' \<and> disk p' = disk p) p"
proof -
  obtain a b crc p1 p2 p3 where c: "a < 0xFFF" "b < 0xFFF" "length crc = 2" "length (disk p i) = 512"
      "rxs sd (Suc a) (after_frame sd 17 i 0 p) = (replicate a 0xFF @ [0], p1)"
      "rxs sd (Suc b) p1 = (replicate b 0xFF @ [0xFE], p2)" "rxs sd 514 p2 = (disk p i @ crc, p3)"
      "dinv (after_end sd p3)" "disk (after_end sd p3) = disk p"
    using rd p unfolding card_reads_def by metis
  have split: "rxs sd (512 + 2) p2 = (disk p i @ crc, p3)" using c(7) by simp
  obtain xs p4 ys p5 where r: "rxs sd 512 p2 = (xs, p4)" "rxs sd 2 p4 = (ys, p5)" by fastforce
  have len: "length (fst (rxs sd n q)) = n" for n q
    by (induction n arbitrary: q) (auto split: prod.splits, metis fst_conv)
  have "xs = disk p i" "p5 = p3"
    using split len[of 512 p2] c(4) unfolding rxs_add r by (auto simp: r)
  then have r: "rxs sd 512 p2 = (disk p i, p4)" "rxs sd 2 p4 = (ys, p3)" using r by auto
  have chunk: "wp (read_chunks sd [replicate 512 0] (replicate 512 0)) (\<lambda>x q. x = (False, [disk p i]) \<and> q = p3) p1"
    unfolding read_chunks.simps wp_andthen
    by (rule wp_get_response[OF ser c(6) _ c(2)])
      (simp_all add: wp_read_data[OF ser] r c(4) overwrite_all Let_def del: replicate.simps)
  have sec: "wp (read_sector sd (replicate 512 0) (of_nat i)) (\<lambda>x q. x = (disk p i, True) \<and> q = after_end sd p3) p"
    unfolding read_sector_def SEC_LEN_def
    by (simp add: Let_def, rule wp_get_response[OF ser c(5) _ c(1)])
      (simp_all add: chunks_single wp_mono[OF chunk] del: replicate.simps read_chunks.simps)
  show ?thesis
    unfolding SDCard_read_block_def BLOCK_SZ_def wp_andthen by (rule wp_mono[OF sec]) (simp add: c)
qed

lemma SDCard_write_block_ok:
  assumes ser: "serial_bus sd" and wr: "card_writes sd disk ids dinv" and p: "dinv p" "i \<in> ids" "length bs = 512"
  shows "wp (SDCard_write_block sd i bs) (\<lambda>_ p'. dinv p' \<and> disk p' = (disk p)(i := bs)) p"
proof -
  obtain a p1 status z up p2 where c: "a < 0xFFF" "status AND 0x1F = 5" "up \<noteq> 0"
      "rxs sd (Suc a) (after_frame sd 24 i 0 p) = (replicate a 0xFF @ [0], p1)"
      "rxs sd (z + 2) (tx sd [0xff, 0xff] (tx sd bs (tx sd [0xff, 0xfe] p1))) = (status # replicate z 0 @ [up], p2)"
      "dinv (after_end sd (after_end sd p2))" "disk (after_end sd (after_end sd p2)) = (disk p)(i := bs)"
    using wr p unfolding card_writes_def by metis
  have chunk: "wp (write_chunks sd [0xff, 0xfe] [bs] (replicate 512 0)) (\<lambda>x q. x \<and> q = after_end sd (after_end sd p2)) p1"
    unfolding write_chunks.simps Let_def wp_andthen wp_write_data
    by (simp add: p(3) overwrite_all del: replicate.simps) (rule wp_get_dataresponse[OF ser c(5,2,3)], simp)
  have sec: "wp (write_sector sd bs (of_nat i)) (\<lambda>x q. x \<and> q = after_end sd (after_end sd p2)) p"
    unfolding write_sector_def SEC_LEN_def
    by (simp add: p(3) Let_def, rule wp_get_response[OF ser c(4) _ c(1)])
      (simp_all add: chunks_single p(3) chunk del: replicate.simps write_chunks.simps)
  show ?thesis
    unfolding SDCard_write_block_def wp_andthen by (rule wp_mono[OF sec]) (simp add: c)
qed

text \<open>
  C34: With an SPI controller that delivers bytes in order and a card that follows the SPI-mode protocol for single
  blocks (it takes \<open>sd_frame\<close> 17 and 24 as read and write commands, and its response and data token come before
  the driver's \<^verbatim>\<open>0xFFF\<close> polls are used up), with any delay before a written block is stored, the driver is a block
  device: \<^verbatim>\<open>read_block\<close> and \<^verbatim>\<open>write_block\<close> do not panic, they return, a read gives the block and a write replaces exactly
  that block. The file system's theorems therefore hold on this board.
\<close>

theorem SDCardWrapper_block_device:
  assumes "serial_bus sd" and "card_reads sd disk ids dinv" and "card_writes sd disk ids dinv"
  shows "block_device (SDCardWrapper sd) disk ids dinv"
proof unfold_locales
  fix d i
  assume d: "dinv d" "i \<in> ids"
  show "\<exists>d'. read_block (SDCardWrapper sd) i d = Inr (disk d i, d') \<and> dinv d' \<and> disk d' = disk d"
    using SDCard_read_block_ok[OF assms(1,2) d] by (simp add: SDCardWrapper_def wp_runs)
  show "length (disk d i) = BLOCK_SZ" using assms(2) d by (simp add: card_reads_def BLOCK_SZ_def)
  show "\<exists>d'. write_block (SDCardWrapper sd) i b d = Inr ((), d') \<and> dinv d' \<and> disk d' = (disk d)(i := b)"
    if "length b = BLOCK_SZ" for b
    using SDCard_write_block_ok[OF assms(1,3) d, of b] that by (simp add: SDCardWrapper_def wp_runs BLOCK_SZ_def)
qed

text \<open>
  A card with 256 blocks: the command puts the answer on the line, a block that follows \<^verbatim>\<open>CMD24\<close> is stored, and an
  idle line reads 255.
\<close>

record sd_sim =
  sim_disk :: "nat \<Rightarrow> byte list"
  sim_out :: "byte list"
  sim_target :: "nat option"

definition sim_recv :: "byte list \<Rightarrow> sd_sim \<Rightarrow> byte list \<times> sd_sim" where
  "sim_recv buf p = (take (length buf) (sim_out p) @ replicate (length buf - length (sim_out p)) 0xFF,
     p\<lparr>sim_out := drop (length buf) (sim_out p)\<rparr>)"

definition sim_send :: "byte list \<Rightarrow> sd_sim \<Rightarrow> sd_sim" where
  "sim_send bs p =
     (if length bs = 6 \<and> bs ! 0 = 0x51 then p\<lparr>sim_out := [0xFF, 0, 0xFF, 0xFE] @ sim_disk p (unat (bs ! 4)) @ [0, 0]\<rparr>
      else if length bs = 6 \<and> bs ! 0 = 0x58 then p\<lparr>sim_out := [0xFF, 0], sim_target := Some (unat (bs ! 4))\<rparr>
      else if length bs = 512 then (case sim_target p of None \<Rightarrow> p
        | Some i \<Rightarrow> p\<lparr>sim_disk := (sim_disk p)(i := bs), sim_target := None\<rparr>)
      else if bs = [0xFF, 0xFF] then p\<lparr>sim_out := [0xE5, 0, 0xFF]\<rparr>
      else p)"

definition sim_bus :: "sd_sim spi_bus" where
  "sim_bus = \<lparr>set_pin = (\<lambda>_ _ p. p), set_direction_output = (\<lambda>_ p. p), set_clk_rate = (\<lambda>_ p. p), configure = (\<lambda>_ p. p),
     send_data = (\<lambda>_. sim_send), recv_data = (\<lambda>_. sim_recv)\<rparr>"

definition sim_card :: "sd_sim SDCard" where
  "sim_card = SDCard_new sim_bus 3 7"

definition sim_ready :: "sd_sim \<Rightarrow> bool" where
  "sim_ready p \<longleftrightarrow> sim_out p = [] \<and> (\<forall>i<256. length (sim_disk p i) = 512)"

lemma sim_sel: "spi sim_card = sim_bus" "spi_cs sim_card = 3" "cs_gpionum sim_card = 7"
  by (simp_all add: sim_card_def SDCard_new_def)

lemma sim_rxs: "rxs sim_card n p = sim_recv (replicate n 0) p"
proof (induction n arbitrary: p)
  case (Suc n)
  have "rx1 sim_card p = (case sim_out p of [] \<Rightarrow> (0xFF, p) | b # bs \<Rightarrow> (b, p\<lparr>sim_out := bs\<rparr>))"
    by (simp add: rx1_def sim_sel sim_bus_def sim_recv_def split: list.splits)
  then show ?case using Suc by (simp add: sim_recv_def split: list.splits)
qed (simp add: sim_recv_def)

lemma sim_serial: "serial_bus sim_card"
  by (simp add: serial_bus_def sim_rxs sim_sel sim_bus_def) (simp add: sim_recv_def)

lemma sim_tx: "tx sim_card bs p = sim_send bs p" "after_end sim_card p = p"
  "(i :: nat) < 256 \<Longrightarrow> after_frame sim_card 17 i c p = p\<lparr>sim_out := [0xFF, 0, 0xFF, 0xFE] @ sim_disk p i @ [0, 0]\<rparr>"
  "(i :: nat) < 256 \<Longrightarrow> after_frame sim_card 24 i c p = p\<lparr>sim_out := [0xFF, 0], sim_target := Some i\<rparr>"
  by (simp_all add: tx_def after_end_def after_frame_def sim_sel sim_bus_def sim_send_def sd_frame_def unsigned_of_nat take_bit_nat_eq_self)

lemma sim_reads: "card_reads sim_card sim_disk {..<256} sim_ready"
  unfolding card_reads_def
proof (intro allI impI)
  fix p i c
  assume p: "sim_ready p" "i \<in> {..<256 :: nat}"
  let ?q = "p\<lparr>sim_out := [0xFF, 0, 0xFF, 0xFE] @ sim_disk p i @ [0, 0]\<rparr>"
  have len: "length (sim_disk p i) = 512" using p by (simp add: sim_ready_def)
  have "rxs sim_card (Suc 1) ?q = (replicate 1 0xFF @ [0], ?q\<lparr>sim_out := drop 2 (sim_out ?q)\<rparr>)"
    by (simp add: sim_rxs sim_recv_def numeral_2_eq_2 del: rxs.simps)
  moreover have "rxs sim_card (Suc 1) (?q\<lparr>sim_out := drop 2 (sim_out ?q)\<rparr>) =
      (replicate 1 0xFF @ [0xFE], p\<lparr>sim_out := sim_disk p i @ [0, 0]\<rparr>)"
    by (simp add: sim_rxs sim_recv_def numeral_2_eq_2 del: rxs.simps)
  moreover have "rxs sim_card 514 (p\<lparr>sim_out := sim_disk p i @ [0, 0]\<rparr>) = (sim_disk p i @ [0, 0], p\<lparr>sim_out := []\<rparr>)"
    using len by (simp add: sim_rxs sim_recv_def del: replicate.simps rxs.simps)
  moreover have "p\<lparr>sim_out := []\<rparr> = p" using p(1) by (cases p) (simp add: sim_ready_def)
  ultimately show "length (sim_disk p i) = 512 \<and>
     (\<exists>a b crc p1 p2 p3. a < 0xFFF \<and> b < 0xFFF \<and> length crc = 2 \<and>
        rxs sim_card (Suc a) (after_frame sim_card 17 i c p) = (replicate a 0xFF @ [0], p1) \<and>
        rxs sim_card (Suc b) p1 = (replicate b 0xFF @ [0xFE], p2) \<and>
        rxs sim_card 514 p2 = (sim_disk p i @ crc, p3) \<and> sim_ready (after_end sim_card p3) \<and>
        sim_disk (after_end sim_card p3) = sim_disk p)"
    using p len sim_tx(2) sim_tx(3)[of i c p]
    by (intro conjI exI[of _ "1 :: nat"] exI[of _ "[0, 0] :: byte list"] exI) auto
qed

lemma sim_writes: "card_writes sim_card sim_disk {..<256} sim_ready"
  unfolding card_writes_def
proof (intro allI impI)
  fix p i c and bs :: "byte list"
  assume p: "sim_ready p" "i \<in> {..<256 :: nat}" "length bs = 512"
  have "bs \<noteq> [255, 255]" "bs \<noteq> [255, 254]" using p(3) by auto
  let ?q = "p\<lparr>sim_out := [0xFF, 0], sim_target := Some i\<rparr>"
  let ?w = "p\<lparr>sim_disk := (sim_disk p)(i := bs), sim_out := [0xE5, 0, 0xFF], sim_target := None\<rparr>"
  have "rxs sim_card (Suc 1) ?q = (replicate 1 0xFF @ [0], ?q\<lparr>sim_out := []\<rparr>)"
    by (simp add: sim_rxs sim_recv_def numeral_2_eq_2 del: rxs.simps)
  moreover have "tx sim_card [0xff, 0xff] (tx sim_card bs (tx sim_card [0xff, 0xfe] (?q\<lparr>sim_out := []\<rparr>))) = ?w"
    using p(3) by (simp add: sim_tx(1) sim_send_def)
  moreover have "rxs sim_card (1 + 2) ?w = (0xE5 # replicate 1 0 @ [0xFF], ?w\<lparr>sim_out := []\<rparr>)"
    by (simp add: sim_rxs sim_recv_def numeral_3_eq_3 del: rxs.simps)
  moreover have "sim_ready (?w\<lparr>sim_out := []\<rparr>)" using p by (simp add: sim_ready_def)
  ultimately show "\<exists>a p1 status z up p2. a < 0xFFF \<and> status AND 0x1F = 5 \<and> up \<noteq> 0 \<and>
        rxs sim_card (Suc a) (after_frame sim_card 24 i c p) = (replicate a 0xFF @ [0], p1) \<and>
        rxs sim_card (z + 2) (tx sim_card [0xff, 0xff] (tx sim_card bs (tx sim_card [0xff, 0xfe] p1))) =
          (status # replicate z 0 @ [up], p2) \<and>
        sim_ready (after_end sim_card (after_end sim_card p2)) \<and>
        sim_disk (after_end sim_card (after_end sim_card p2)) = (sim_disk p)(i := bs)"
    using p sim_tx(2) sim_tx(4)[of i c p]
    by (intro exI[of _ "1 :: nat"] exI[of _ "?q\<lparr>sim_out := []\<rparr>"] exI[of _ "0xE5 :: byte"] exI[of _ "0xFF :: byte"]
        exI[of _ "?w\<lparr>sim_out := []\<rparr>"] conjI) simp_all
qed

theorem SDCardWrapper_block_device_witness:
  "block_device (SDCardWrapper sim_card) sim_disk {..<256} sim_ready \<and>
   sim_ready \<lparr>sim_disk = \<lambda>i. replicate 512 (of_nat i), sim_out = [], sim_target = None\<rparr>"
  using SDCardWrapper_block_device[OF sim_serial sim_reads sim_writes] by (simp add: sim_ready_def)

end
