(* ===== verification/Sdcard_Init.thy ===== *)
theory Sdcard_Init
  imports Sdcard
begin

unbundle bit_operations_syntax

text \<open>
  Registers and initialisation of the SD card: \<^verbatim>\<open>get_csdregister\<close>, \<^verbatim>\<open>get_cidregister\<close>, \<^verbatim>\<open>get_cardinfo\<close>, \<^verbatim>\<open>init\<close> and
  \<^verbatim>\<open>init_sdcard\<close> of \<^verbatim>\<open>os/src/drivers/block/sdcard.rs\<close>. The clocks, the UART and the pin functions of the board are
  the fields of \<open>k210_board\<close>.
\<close>

type_synonym u16 = "16 word"

section \<open>Registers\<close>

record SDCardCSD =
  CSDStruct :: u8
  SysSpecVersion :: u8
  csd_Reserved1 :: u8
  TAAC :: u8
  NSAC :: u8
  MaxBusClkFrec :: u8
  CardComdClasses :: u16
  RdBlockLen :: u8
  PartBlockRead :: u8
  WrBlockMisalign :: u8
  RdBlockMisalign :: u8
  DSRImpl :: u8
  csd_Reserved2 :: u8
  DeviceSize :: u32
  EraseGrSize :: u8
  EraseGrMul :: u8
  WrProtectGrSize :: u8
  WrProtectGrEnable :: u8
  ManDeflECC :: u8
  WrSpeedFact :: u8
  MaxWrBlockLen :: u8
  WriteBlockPaPartial :: u8
  csd_Reserved3 :: u8
  ContentProtectAppli :: u8
  FileFormatGroup :: u8
  CopyFlag :: u8
  PermWrProtect :: u8
  TempWrProtect :: u8
  FileFormat :: u8
  ECC :: u8
  CSD_CRC :: u8
  csd_Reserved4 :: u8

definition csd_of_bytes :: "byte list \<Rightarrow> SDCardCSD" where
  "csd_of_bytes t = \<lparr>
     CSDStruct = drop_bit 6 (t ! 0 AND 0xC0),
     SysSpecVersion = drop_bit 2 (t ! 0 AND 0x3C),
     csd_Reserved1 = t ! 0 AND 0x03,
     TAAC = t ! 1,
     NSAC = t ! 2,
     MaxBusClkFrec = t ! 3,
     CardComdClasses = push_bit 4 (ucast (t ! 4)) OR drop_bit 4 (ucast (t ! 5) AND 0xF0),
     RdBlockLen = t ! 5 AND 0x0F,
     PartBlockRead = drop_bit 7 (t ! 6 AND 0x80),
     WrBlockMisalign = drop_bit 6 (t ! 6 AND 0x40),
     RdBlockMisalign = drop_bit 5 (t ! 6 AND 0x20),
     DSRImpl = drop_bit 4 (t ! 6 AND 0x10),
     csd_Reserved2 = 0,
     DeviceSize = push_bit 16 (ucast (t ! 7) AND 0x3F) OR push_bit 8 (ucast (t ! 8)) OR ucast (t ! 9),
     EraseGrSize = drop_bit 6 (t ! 10 AND 0x40),
     EraseGrMul = push_bit 1 (t ! 10 AND 0x3F) OR drop_bit 7 (t ! 11 AND 0x80),
     WrProtectGrSize = t ! 11 AND 0x7F,
     WrProtectGrEnable = drop_bit 7 (t ! 12 AND 0x80),
     ManDeflECC = drop_bit 5 (t ! 12 AND 0x60),
     WrSpeedFact = drop_bit 2 (t ! 12 AND 0x1C),
     MaxWrBlockLen = push_bit 2 (t ! 12 AND 0x03) OR drop_bit 6 (t ! 13 AND 0xC0),
     WriteBlockPaPartial = drop_bit 5 (t ! 13 AND 0x20),
     csd_Reserved3 = 0,
     ContentProtectAppli = t ! 13 AND 0x01,
     FileFormatGroup = drop_bit 7 (t ! 14 AND 0x80),
     CopyFlag = drop_bit 6 (t ! 14 AND 0x40),
     PermWrProtect = drop_bit 5 (t ! 14 AND 0x20),
     TempWrProtect = drop_bit 4 (t ! 14 AND 0x10),
     FileFormat = drop_bit 2 (t ! 14 AND 0x0C),
     ECC = t ! 14 AND 0x03,
     CSD_CRC = drop_bit 1 (t ! 15 AND 0xFE),
     csd_Reserved4 = 1\<rparr>"

text \<open>
  \<^verbatim>\<open>get_csdregister\<close> and \<^verbatim>\<open>get_cidregister\<close> read 18 bytes after the same exchange; \<open>None\<close> is \<^verbatim>\<open>Err(())\<close>.
\<close>

definition read_register :: "'p SDCard \<Rightarrow> CMD \<Rightarrow> (byte list \<Rightarrow> 'r) \<Rightarrow> ('p, 'r option) prog" where
  "read_register sd cmd dec =
     andthen (send_cmd sd cmd 0 0) (\<lambda>_.
     andthen (get_response sd) (\<lambda>r.
     if r \<noteq> 0x00 then andthen (end_cmd sd) (\<lambda>_. ret None)
     else
       andthen (get_response sd) (\<lambda>r.
       if r \<noteq> SD_START_DATA_SINGLE_BLOCK_READ then andthen (end_cmd sd) (\<lambda>_. ret None)
       else
         andthen (read_data sd (replicate 18 0)) (\<lambda>tab.
         andthen (end_cmd sd) (\<lambda>_.
         ret (Some (dec tab)))))))"

definition get_csdregister :: "'p SDCard \<Rightarrow> ('p, SDCardCSD option) prog" where
  "get_csdregister sd = read_register sd CMD9 csd_of_bytes"

record SDCardCID =
  ManufacturerID :: u8
  OEM_AppliID :: u16
  ProdName1 :: u32
  ProdName2 :: u8
  ProdRev :: u8
  ProdSN :: u32
  cid_Reserved1 :: u8
  ManufactDate :: u16
  CID_CRC :: u8
  cid_Reserved2 :: u8

definition cid_of_bytes :: "byte list \<Rightarrow> SDCardCID" where
  "cid_of_bytes t = \<lparr>
     ManufacturerID = t ! 0,
     OEM_AppliID = push_bit 8 (ucast (t ! 1)) OR ucast (t ! 2),
     ProdName1 = push_bit 24 (ucast (t ! 3)) OR push_bit 16 (ucast (t ! 4)) OR push_bit 8 (ucast (t ! 5)) OR ucast (t ! 6),
     ProdName2 = t ! 7,
     ProdRev = t ! 8,
     ProdSN = push_bit 24 (ucast (t ! 9)) OR push_bit 16 (ucast (t ! 10)) OR push_bit 8 (ucast (t ! 11)) OR ucast (t ! 12),
     cid_Reserved1 = drop_bit 4 (t ! 13 AND 0xF0),
     ManufactDate = push_bit 8 (ucast (t ! 13) AND 0x0F) OR ucast (t ! 14),
     CID_CRC = drop_bit 1 (t ! 15 AND 0xFE),
     cid_Reserved2 = 1\<rparr>"

definition get_cidregister :: "'p SDCard \<Rightarrow> ('p, SDCardCID option) prog" where
  "get_cidregister sd = read_register sd CMD10 cid_of_bytes"

record SDCardInfo =
  SD_csd :: SDCardCSD
  SD_cid :: SDCardCID
  CardCapacity :: u64
  CardBlockSize :: u64

definition card_info :: "SDCardCSD \<Rightarrow> SDCardCID \<Rightarrow> SDCardInfo" where
  "card_info csd cid =
     (let block_size = push_bit (unat (RdBlockLen csd)) 1 in
      \<lparr>SD_csd = csd, SD_cid = cid, CardCapacity = (ucast (DeviceSize csd) + 1) * 1024 * block_size, CardBlockSize = block_size\<rparr>)"

definition get_cardinfo :: "'p SDCard \<Rightarrow> ('p, SDCardInfo option) prog" where
  "get_cardinfo sd =
     andthen (get_csdregister sd) (\<lambda>r. case r of None \<Rightarrow> ret None | Some csd \<Rightarrow>
     andthen (get_cidregister sd) (\<lambda>r. case r of None \<Rightarrow> ret None | Some cid \<Rightarrow>
     ret (Some (card_info csd cid))))"

section \<open>Initialisation\<close>

datatype InitError =
    CMDFailed CMD u8
  | CardCapacityStatusNotSet "byte list"
  | CannotGetCardInfo

text \<open>A command whose response is read and whose end is signalled.\<close>

definition exchange :: "'p SDCard \<Rightarrow> CMD \<Rightarrow> u32 \<Rightarrow> u8 \<Rightarrow> ('p, u8) prog" where
  "exchange sd cmd arg crc =
     andthen (send_cmd sd cmd arg crc) (\<lambda>_.
     andthen (get_response sd) (\<lambda>result.
     andthen (end_cmd sd) (\<lambda>_. ret result)))"

definition exchange_frame :: "'p SDCard \<Rightarrow> CMD \<Rightarrow> u32 \<Rightarrow> u8 \<Rightarrow> byte list \<Rightarrow> ('p, u8 \<times> byte list) prog" where
  "exchange_frame sd cmd arg crc frame =
     andthen (send_cmd sd cmd arg crc) (\<lambda>_.
     andthen (get_response sd) (\<lambda>result.
     andthen (read_data sd frame) (\<lambda>frame.
     andthen (end_cmd sd) (\<lambda>_. ret (result, frame)))))"

text \<open>The loop with \<^verbatim>\<open>CMD55\<close> and \<^verbatim>\<open>ACMD41\<close>: an early return, or the index that is left.\<close>

fun acmd41_loop :: "'p SDCard \<Rightarrow> nat \<Rightarrow> ('p, InitError + nat) prog" where
  "acmd41_loop sd 0 = ret (Inr 0)"
| "acmd41_loop sd (Suc index) =
     andthen (exchange sd CMD55 0 0) (\<lambda>result.
     if result \<noteq> 0x01 then ret (Inl (CMDFailed CMD55 result))
     else
       andthen (exchange sd ACMD41 0x40000000 0) (\<lambda>result.
       if result = 0x00 then ret (Inr (Suc index)) else acmd41_loop sd index))"

fun cmd58_loop :: "'p SDCard \<Rightarrow> nat \<Rightarrow> byte list \<Rightarrow> ('p, nat \<times> byte list) prog" where
  "cmd58_loop sd 0 frame = ret (0, frame)"
| "cmd58_loop sd (Suc index) frame =
     andthen (exchange_frame sd CMD58 0 1 frame) (\<lambda>(result, frame).
     if result = 0 then ret (Suc index, frame) else cmd58_loop sd index frame)"

text \<open>
  \<^verbatim>\<open>init\<close>. The \<^verbatim>\<open>result\<close> that the last two errors report is the one of \<^verbatim>\<open>CMD8\<close>: the loops have variables of the
  same name of their own.
\<close>

definition SDCard_init :: "'p SDCard \<Rightarrow> ('p, InitError + SDCardInfo) prog" where
  "SDCard_init sd =
     andthen (lowlevel_init sd) (\<lambda>_.
     andthen (CS_HIGH sd) (\<lambda>_.
     andthen (write_data sd (replicate 10 0xff)) (\<lambda>_.
     andthen (exchange sd CMD0 0 0x95) (\<lambda>result.
     if result \<noteq> 0x01 then ret (Inl (CMDFailed CMD0 result))
     else
       andthen (exchange_frame sd CMD8 0x01AA 0x87 (replicate 4 0)) (\<lambda>(result, _).
       if result \<noteq> 0x01 then ret (Inl (CMDFailed CMD8 result))
       else
         andthen (acmd41_loop sd 255) (\<lambda>r.
         case r of Inl e \<Rightarrow> ret (Inl e) | Inr index \<Rightarrow>
         if index = 0 then ret (Inl (CMDFailed ACMD41 result))
         else
           andthen (cmd58_loop sd 255 (replicate 4 0)) (\<lambda>(index, frame).
           if index = 0 then ret (Inl (CMDFailed CMD58 result))
           else if frame ! 0 AND 0x40 = 0 then ret (Inl (CardCapacityStatusNotSet frame))
           else
             andthen (HIGH_SPEED_ENABLE sd) (\<lambda>_.
             andthen (get_cardinfo sd) (\<lambda>r.
             ret (case r of None \<Rightarrow> Inl CannotGetCardInfo | Some info \<Rightarrow> Inr info))))))))))"

section \<open>The board\<close>

abbreviation SD_CS_GPIONUM :: u8 where "SD_CS_GPIONUM \<equiv> 7"

abbreviation SD_CS :: u32 where "SD_CS \<equiv> 3"

datatype k210_io = SPI0_SCLK | SPI0_MOSI | SPI0_MISO | SPI0_CS0

datatype k210_function = F_SPI0_SCLK | F_SPI0_D0 | F_SPI0_D1 | F_gpiohs u8

datatype k210_pll = PLL0 | PLL1 | PLL2

record 'p k210_board =
  usleep :: "nat \<Rightarrow> 'p \<Rightarrow> 'p"
  pll_set_freq :: "k210_pll \<Rightarrow> u32 \<Rightarrow> ('p, u32 option) prog"
  uarths_configure :: "u32 \<Rightarrow> 'p \<Rightarrow> 'p"
  set_function :: "k210_io \<Rightarrow> k210_function \<Rightarrow> 'p \<Rightarrow> 'p"
  set_io_pull_down :: "k210_io \<Rightarrow> 'p \<Rightarrow> 'p"
  SPI0 :: "'p spi_bus"

definition io_init :: "'p k210_board \<Rightarrow> ('p, unit) prog" where
  "io_init hw =
     andthen (modifies (set_function hw SPI0_SCLK F_SPI0_SCLK)) (\<lambda>_.
     andthen (modifies (set_function hw SPI0_MOSI F_SPI0_D0)) (\<lambda>_.
     andthen (modifies (set_function hw SPI0_MISO F_SPI0_D1)) (\<lambda>_.
     andthen (modifies (set_function hw SPI0_CS0 (F_gpiohs SD_CS_GPIONUM))) (\<lambda>_.
     modifies (set_io_pull_down hw SPI0_CS0)))))"

definition init_sdcard :: "'p k210_board \<Rightarrow> ('p, 'p SDCard) prog" where
  "init_sdcard hw =
     andthen (modifies (usleep hw 100000)) (\<lambda>_.
     andthen (andthen (pll_set_freq hw PLL0 800000000) unwrap) (\<lambda>_.
     andthen (andthen (pll_set_freq hw PLL1 300000000) unwrap) (\<lambda>_.
     andthen (andthen (pll_set_freq hw PLL2 45158400) unwrap) (\<lambda>_.
     andthen (modifies (uarths_configure hw 115200)) (\<lambda>_.
     andthen (io_init hw) (\<lambda>_.
     let sd = SDCard_new (SPI0 hw) SD_CS SD_CS_GPIONUM in
     andthen (SDCard_init sd) (\<lambda>r.
     andthen (unwrap (case r of Inl e \<Rightarrow> None | Inr info \<Rightarrow> Some info)) (\<lambda>info.
     andthen (assert_that (CardCapacity info div 512 > 0)) (\<lambda>_.
     ret sd)))))))))"

definition SDCardWrapper_new :: "'p k210_board \<Rightarrow> ('p, 'p BlockDevice) prog" where
  "SDCardWrapper_new hw = andthen (init_sdcard hw) (\<lambda>sd. ret (SDCardWrapper sd))"

end
