(* ===== verification/Virtio.thy ===== *)
theory Virtio
  imports Page_Table_Ops Block_View
begin

unbundle bit_operations_syntax

text \<open>
  The block device of the emulated board: \<^verbatim>\<open>os/src/drivers/block/virtio_blk.rs\<close>. The driver proper is the crate
  \<^verbatim>\<open>virtio_drivers\<close>, a parameter (\<open>VirtIOBlk\<close>); the memory functions it calls back and the wrapper that the file system
  uses are defined here. \<open>QUEUE_FRAMES\<close> keeps the frames of the queues alive.
\<close>

section \<open>Memory for the driver\<close>

record dma_machine = machine +
  QUEUE_FRAMES :: "PhysPageNum list"

fun virtio_dma_alloc_loop :: "nat list \<Rightarrow> PhysPageNum \<Rightarrow> ('z dma_machine_scheme, PhysPageNum) prog" where
  "virtio_dma_alloc_loop [] base = ret base"
| "virtio_dma_alloc_loop (i # is) base =
     andthen frame_alloc (\<lambda>r.
     andthen (unwrap r) (\<lambda>frame.
     let base = (if i = 0 then frame else base) in
     andthen (assert_that (ppn_0 frame = ppn_0 base + of_nat i)) (\<lambda>_.
     andthen (modifies (\<lambda>s. s\<lparr>QUEUE_FRAMES := QUEUE_FRAMES s @ [frame]\<rparr>)) (\<lambda>_.
     virtio_dma_alloc_loop is base))))"

definition virtio_dma_alloc :: "nat \<Rightarrow> ('z dma_machine_scheme, PhysAddr) prog" where
  "virtio_dma_alloc pages =
     andthen (virtio_dma_alloc_loop [0..<pages] (PhysPageNum 0)) (\<lambda>base. ret (PhysAddr_from_ppn base))"

fun virtio_dma_dealloc_loop :: "nat \<Rightarrow> PhysPageNum \<Rightarrow> ('z dma_machine_scheme, unit) prog" where
  "virtio_dma_dealloc_loop 0 base = ret ()"
| "virtio_dma_dealloc_loop (Suc n) base =
     andthen (frame_dealloc base) (\<lambda>_.
     virtio_dma_dealloc_loop n (PhysPageNum (ppn_0 base + 1)))"

definition virtio_dma_dealloc :: "PhysAddr \<Rightarrow> nat \<Rightarrow> ('z dma_machine_scheme, u32) prog" where
  "virtio_dma_dealloc pa pages =
     andthen (lift_res (PhysPageNum_from_pa pa)) (\<lambda>base.
     andthen (virtio_dma_dealloc_loop pages base) (\<lambda>_. ret 0))"

definition virtio_phys_to_virt :: "PhysAddr \<Rightarrow> VirtAddr" where
  "virtio_phys_to_virt paddr = VirtAddr (pa_0 paddr)"

text \<open>\<open>token\<close> is \<^verbatim>\<open>kernel_token()\<close>.\<close>

definition virtio_virt_to_phys :: "usize \<Rightarrow> VirtAddr \<Rightarrow> ('z machine_scheme, PhysAddr) prog" where
  "virtio_virt_to_phys token vaddr =
     andthen (gets (\<lambda>s. PageTable_translate_va (mem s) (PageTable_from_token token) vaddr)) unwrap"

section \<open>The wrapper\<close>

record 'v VirtIOBlk =
  vb_read_block :: "nat \<Rightarrow> byte list \<Rightarrow> 'v \<Rightarrow> (byte list option) \<times> 'v"
  vb_write_block :: "nat \<Rightarrow> byte list \<Rightarrow> 'v \<Rightarrow> bool \<times> 'v"

definition VirtIOBlock_read_block :: "'v VirtIOBlk \<Rightarrow> nat \<Rightarrow> ('v, byte list) prog" where
  "VirtIOBlock_read_block blk block_id =
     andthen (\<lambda>v. Inr (vb_read_block blk block_id (replicate BLOCK_SZ 0) v)) unwrap"

definition VirtIOBlock_write_block :: "'v VirtIOBlk \<Rightarrow> nat \<Rightarrow> byte list \<Rightarrow> ('v, unit) prog" where
  "VirtIOBlock_write_block blk block_id buf =
     andthen (\<lambda>v. Inr (vb_write_block blk block_id buf v)) (\<lambda>ok. unwrap (if ok then Some () else None))"

definition VirtIOBlock :: "'v VirtIOBlk \<Rightarrow> 'v BlockDevice" where
  "VirtIOBlock blk = \<lparr>read_block = VirtIOBlock_read_block blk, write_block = VirtIOBlock_write_block blk\<rparr>"

section \<open>Contiguous frames\<close>

text \<open>An allocator without recycled frames hands out consecutive frames.\<close>

lemma frame_alloc_fresh:
  assumes "fa_inv (FRAME_ALLOCATOR s)" and "fa_recycled (FRAME_ALLOCATOR s) = []"
    and "unat (fa_current (FRAME_ALLOCATOR s)) < unat (fa_end (FRAME_ALLOCATOR s))"
  shows "wp frame_alloc (\<lambda>r s'. r = Some (PhysPageNum (fa_current (FRAME_ALLOCATOR s))) \<and>
     s' = s\<lparr>mem := zero_page (PhysPageNum (fa_current (FRAME_ALLOCATOR s))) (mem s),
       FRAME_ALLOCATOR := (FRAME_ALLOCATOR s)\<lparr>fa_current := fa_current (FRAME_ALLOCATOR s) + 1\<rparr>\<rparr>) s"
proof -
  let ?a = "FRAME_ALLOCATOR s" let ?p = "PhysPageNum (fa_current ?a)"
  have "unat (fa_current ?a) < 2 ^ 44" using assms(1,3) by (simp add: fa_inv_def)
  then have "PhysPageNum_from (fa_current ?a) = ?p"
    by (simp add: PhysPageNum_from_less)
  then have "StackFrameAllocator_alloc ?a = (Some ?p, ?a\<lparr>fa_current := fa_current ?a + 1\<rparr>)"
    using assms(2,3) by (auto simp: StackFrameAllocator_alloc_def)
  then show ?thesis unfolding wp_def by (simp add: frame_alloc_eq)
qed

definition frame_run :: "u64 \<Rightarrow> nat list \<Rightarrow> PhysPageNum list" where
  "frame_run c is = map (\<lambda>k. PhysPageNum (c + of_nat k)) is"

lemma wp_dma_alloc_loop:
  assumes "fa_inv (FRAME_ALLOCATOR s)" and "fa_recycled (FRAME_ALLOCATOR s) = []" and "i \<le> n"
    and "fa_current (FRAME_ALLOCATOR s) = c + of_nat i" and "unat (fa_current (FRAME_ALLOCATOR s)) + (n - i) \<le> unat (fa_end (FRAME_ALLOCATOR s))"
    and "0 < i \<Longrightarrow> base = PhysPageNum c"
  shows "wp (virtio_dma_alloc_loop [i..<n] base) (\<lambda>r s'. (0 < n \<longrightarrow> r = PhysPageNum c) \<and>
     QUEUE_FRAMES s' = QUEUE_FRAMES s @ frame_run c [i..<n] \<and>
     FRAME_ALLOCATOR s' = (FRAME_ALLOCATOR s)\<lparr>fa_current := c + of_nat n\<rparr> \<and>
     (\<forall>x. mem s' x = (if \<exists>g\<in>set (frame_run c [i..<n]). x \<in> page_addrs g then 0 else mem s x))) s"
  using assms
proof (induction "n - i" arbitrary: i base s)
  case 0
  then show ?case by (simp add: frame_run_def)
next
  case (Suc k)
  let ?a = "FRAME_ALLOCATOR s" let ?f = "PhysPageNum (c + of_nat i)"
  have upt: "[i..<n] = i # [Suc i..<n]" using Suc.hyps(2) by (simp add: upt_conv_Cons)
  have lt: "unat (fa_current ?a) < unat (fa_end ?a)" using Suc.prems(5) Suc.hyps(2) by simp
  define s1 where "s1 = s\<lparr>mem := zero_page ?f (mem s), FRAME_ALLOCATOR := ?a\<lparr>fa_current := c + of_nat (Suc i)\<rparr>,
    QUEUE_FRAMES := QUEUE_FRAMES s @ [?f]\<rparr>"
  have cur: "c + of_nat (Suc i) = fa_current ?a + 1" using Suc.prems(4) by simp
  have nw: "unat (c + of_nat (Suc i)) = unat (fa_current ?a) + 1"
    unfolding cur using lt Suc.prems(1) by (simp add: fa_inv_def unat_word_ariths)
  have IH: "wp (virtio_dma_alloc_loop [Suc i..<n] (PhysPageNum c)) (\<lambda>r s'. (0 < n \<longrightarrow> r = PhysPageNum c) \<and>
     QUEUE_FRAMES s' = QUEUE_FRAMES s1 @ frame_run c [Suc i..<n] \<and>
     FRAME_ALLOCATOR s' = (FRAME_ALLOCATOR s1)\<lparr>fa_current := c + of_nat n\<rparr> \<and>
     (\<forall>x. mem s' x = (if \<exists>g\<in>set (frame_run c [Suc i..<n]). x \<in> page_addrs g then 0 else mem s1 x))) s1"
  proof (rule Suc.hyps(1))
    show "fa_inv (FRAME_ALLOCATOR s1)"
      using Suc.prems(1,2) nw lt by (simp add: s1_def fa_inv_def word_le_nat_alt)
    show "unat (fa_current (FRAME_ALLOCATOR s1)) + (n - Suc i) \<le> unat (fa_end (FRAME_ALLOCATOR s1))"
      using nw Suc.prems(5) Suc.hyps(2) by (simp add: s1_def)
  qed (use Suc in \<open>auto simp: s1_def\<close>)
  have b: "(if i = 0 then ?f else base) = PhysPageNum c" using Suc.prems(6) by auto
  show ?case
    unfolding upt virtio_dma_alloc_loop.simps wp_andthen
  proof (rule wp_mono[OF frame_alloc_fresh[OF Suc.prems(1,2) lt]], elim conjE, goal_cases)
    case (1 r s')
    then have "wp (virtio_dma_alloc_loop [Suc i..<n] (PhysPageNum c)) Q (s'\<lparr>QUEUE_FRAMES := QUEUE_FRAMES s' @ [?f]\<rparr>) =
        wp (virtio_dma_alloc_loop [Suc i..<n] (PhysPageNum c)) Q s1" for Q
      using Suc.prems(4) by (simp add: s1_def cur del: of_nat_Suc)
    then show ?case using 1 Suc.prems(4) b
      by (simp add: Let_def) (rule wp_mono[OF IH], auto simp: s1_def frame_run_def zero_page_apply)
  qed
qed

text \<open>
  C37: While no frame has been given back, \<^verbatim>\<open>virtio_dma_alloc\<close> returns the address of a run of consecutive frames that were
  not in use and are zero now, keeps them in \<^verbatim>\<open>QUEUE_FRAMES\<close>, and touches no other memory.
\<close>

theorem virtio_dma_alloc_contiguous:
  assumes "fa_inv (FRAME_ALLOCATOR s)" and "fa_recycled (FRAME_ALLOCATOR s) = []" and "0 < n"
    and "unat (fa_current (FRAME_ALLOCATOR s)) + n \<le> unat (fa_end (FRAME_ALLOCATOR s))"
  shows "\<exists>s' gs. virtio_dma_alloc n s = Inr (PhysAddr_from_ppn (hd gs), s') \<and> length gs = n \<and>
    (\<forall>i<n. ppn_0 (gs ! i) = ppn_0 (hd gs) + of_nat i \<and> gs ! i \<notin> fa_used (FRAME_ALLOCATOR s)) \<and>
    QUEUE_FRAMES s' = QUEUE_FRAMES s @ gs \<and> fa_used (FRAME_ALLOCATOR s') = fa_used (FRAME_ALLOCATOR s) \<union> set gs \<and>
    (\<forall>x. mem s' x = (if \<exists>g\<in>set gs. x \<in> page_addrs g then 0 else mem s x))"
proof -
  let ?c = "fa_current (FRAME_ALLOCATOR s)" let ?gs = "frame_run ?c [0..<n]"
  have hd: "hd ?gs = PhysPageNum ?c" using assms(3) by (simp add: frame_run_def upt_conv_Cons)
  have un: "unat (?c + of_nat i) = unat ?c + i" if "i \<le> n" for i
  proof -
    have "unat ?c + i < 2 ^ 64" using that assms(1,4) by (simp add: fa_inv_def)
    then show ?thesis by (simp add: unat_word_ariths unat_of_nat)
  qed
  have new: "?gs ! i \<notin> fa_used (FRAME_ALLOCATOR s)" if "i < n" for i
    using un[of i] that by (simp add: frame_run_def fa_used_def word_less_nat_alt)
  have used: "fa_used ((FRAME_ALLOCATOR s)\<lparr>fa_current := ?c + of_nat n\<rparr>) = fa_used (FRAME_ALLOCATOR s) \<union> set ?gs"
  proof (rule set_eqI)
    fix g
    have "g \<in> set ?gs \<longleftrightarrow> (\<exists>i<n. ppn_0 g = ?c + of_nat i)"
      by (cases g) (auto simp: frame_run_def)
    also have "\<dots> \<longleftrightarrow> (\<exists>i<n. unat (ppn_0 g) = unat ?c + i)"
      using un by (metis less_imp_le word_unat_eq_iff)
    also have "\<dots> \<longleftrightarrow> unat ?c \<le> unat (ppn_0 g) \<and> unat (ppn_0 g) < unat ?c + n"
      by (metis add_less_cancel_left le_add1 le_iff_add)
    finally show "g \<in> fa_used ((FRAME_ALLOCATOR s)\<lparr>fa_current := ?c + of_nat n\<rparr>) \<longleftrightarrow> g \<in> fa_used (FRAME_ALLOCATOR s) \<union> set ?gs"
      using un[of n] assms(2) by (simp add: fa_used_def word_less_nat_alt) linarith
  qed
  have "wp (virtio_dma_alloc n) (\<lambda>r s'. r = PhysAddr_from_ppn (hd ?gs) \<and> QUEUE_FRAMES s' = QUEUE_FRAMES s @ ?gs \<and>
     FRAME_ALLOCATOR s' = (FRAME_ALLOCATOR s)\<lparr>fa_current := ?c + of_nat n\<rparr> \<and>
     (\<forall>x. mem s' x = (if \<exists>g\<in>set ?gs. x \<in> page_addrs g then 0 else mem s x))) s"
    unfolding virtio_dma_alloc_def wp_andthen
    by (rule wp_mono[OF wp_dma_alloc_loop[where c = ?c, OF assms(1,2)]]) (use assms(3,4) hd in auto)
  then obtain s' where r: "virtio_dma_alloc n s = Inr (PhysAddr_from_ppn (hd ?gs), s')" "QUEUE_FRAMES s' = QUEUE_FRAMES s @ ?gs"
    "FRAME_ALLOCATOR s' = (FRAME_ALLOCATOR s)\<lparr>fa_current := ?c + of_nat n\<rparr>"
    "\<forall>x. mem s' x = (if \<exists>g\<in>set ?gs. x \<in> page_addrs g then 0 else mem s x)" by (auto simp: wp_runs)
  have len: "length ?gs = n" by (simp add: frame_run_def)
  have run: "ppn_0 (?gs ! i) = ppn_0 (hd ?gs) + of_nat i" if "i < n" for i
    unfolding hd using that by (simp add: frame_run_def)
  have used': "fa_used (FRAME_ALLOCATOR s') = fa_used (FRAME_ALLOCATOR s) \<union> set ?gs" unfolding r(3) by (rule used)
  show ?thesis using r(1,2,4) len run new used' by blast
qed

definition demo_dma :: dma_machine where
  "demo_dma = \<lparr>mem = (\<lambda>_. 1), FRAME_ALLOCATOR = \<lparr>fa_current = 0x80400, fa_end = 0x80800, fa_recycled = []\<rparr>, QUEUE_FRAMES = []\<rparr>"

theorem virtio_dma_alloc_contiguous_witness:
  "\<exists>s' gs. virtio_dma_alloc 3 demo_dma = Inr (PhysAddr_from_ppn (hd gs), s') \<and> length gs = 3 \<and> QUEUE_FRAMES s' = gs \<and>
     ppn_0 (gs ! 2) = ppn_0 (hd gs) + 2"
proof -
  have d: "fa_inv (FRAME_ALLOCATOR demo_dma)" "fa_recycled (FRAME_ALLOCATOR demo_dma) = []" "0 < (3 :: nat)"
    "unat (fa_current (FRAME_ALLOCATOR demo_dma)) + 3 \<le> unat (fa_end (FRAME_ALLOCATOR demo_dma))" "QUEUE_FRAMES demo_dma = []"
    by (simp_all add: demo_dma_def fa_inv_def)
  obtain s' gs where g: "virtio_dma_alloc 3 demo_dma = Inr (PhysAddr_from_ppn (hd gs), s')" "length gs = 3"
    "\<forall>i<3. ppn_0 (gs ! i) = ppn_0 (hd gs) + of_nat i" "QUEUE_FRAMES s' = QUEUE_FRAMES demo_dma @ gs"
    using virtio_dma_alloc_contiguous[OF d(1-4)] by blast
  have "ppn_0 (gs ! 2) = ppn_0 (hd gs) + of_nat 2" using g(3) by (rule allE[of _ 2]) simp
  then show ?thesis using g d(5) by (intro exI[of _ s'] exI[of _ gs]) simp
qed

end
