(* ===== verification/Packer.thy ===== *)
theory Packer
  imports Efs
begin

text \<open>
  The image builder \<^verbatim>\<open>easy_fs_pack\<close> of \<^verbatim>\<open>easy-fs-fuse/src/main.rs\<close>: it formats an image of 16 MiB and copies every program
  into it. The entries of the source directory and the contents of the host files are arguments.
\<close>

text \<open>\<^verbatim>\<open>name_with_ext.drain(find('.').unwrap()..)\<close>.\<close>

definition strip_ext :: "byte list \<Rightarrow> byte list res" where
  "strip_ext name_with_ext =
     (case position (\<lambda>c. c = 46) name_with_ext of None \<Rightarrow> Inl UnwrapNone | Some i \<Rightarrow> Inr (take i name_with_ext))"

fun app_names :: "byte list list \<Rightarrow> (byte list list) res" where
  "app_names [] = Inr []"
| "app_names (n # ns) =
     (case strip_ext n of Inl e \<Rightarrow> Inl e
      | Inr a \<Rightarrow> (case app_names ns of Inl e \<Rightarrow> Inl e | Inr as \<Rightarrow> Inr (a # as)))"

definition set_len :: "nat \<Rightarrow> byte list \<Rightarrow> byte list" where
  "set_len n f = take n f @ replicate (n - length f) 0"

text \<open>One round of the loop over the programs; \<open>host\<close> gives the contents of the files of the target directory.\<close>

definition pack_app ::
    "EasyFileSystem \<Rightarrow> (byte list \<Rightarrow> byte list option) \<Rightarrow> byte list \<Rightarrow> ((byte list, 'z) cache_state_scheme, unit) prog" where
  "pack_app efs host app =
     andthen (unwrap (host app)) (\<lambda>all_data.
     andthen (Inode_create BlockFile efs (root_inode efs) app) (\<lambda>r.
     andthen (unwrap r) (\<lambda>inode.
     andthen (Inode_write_at BlockFile efs inode 0 all_data) (\<lambda>_. ret ()))))"

definition easy_fs_pack ::
    "byte list list \<Rightarrow> (byte list \<Rightarrow> byte list option) \<Rightarrow> ((byte list, 'z) cache_state_scheme, byte list list) prog" where
  "easy_fs_pack dir host =
     andthen (modifies (\<lambda>s. s\<lparr>device := set_len (16 * 2048 * 512) (device s)\<rparr>)) (\<lambda>_.
     andthen (EasyFileSystem_create BlockFile (16 * 2048) 1) (\<lambda>efs.
     andthen (lift_res (app_names dir)) (\<lambda>apps.
     andthen (for_each apps (pack_app efs host)) (\<lambda>_.
     Inode_ls BlockFile (root_inode efs)))))"

end
