(* ===== verification/User_Lib.thy ===== *)
theory User_Lib
  imports Syscalls
begin

text \<open>
  The user library: \<^verbatim>\<open>user/src/syscall.rs\<close> and the functions of \<^verbatim>\<open>user/src/lib.rs\<close> above it. The instruction \<^verbatim>\<open>ecall\<close>
  is an argument of every function, so that the requests can be given to the kernel's \<^verbatim>\<open>syscall\<close>. References and strings are
  passed as the addresses that \<^verbatim>\<open>as_ptr\<close> gives.
\<close>

section \<open>Requests\<close>

type_synonym 'r ecall = "usize \<Rightarrow> usize \<Rightarrow> usize \<Rightarrow> usize \<Rightarrow> 'r"

text \<open>Address and length of a user slice.\<close>

type_synonym user_slice = "usize \<times> usize"

text \<open>The numbers of the calls on the side of the program.\<close>

fun USER_SYSCALL :: "sysno \<Rightarrow> usize" where
  "USER_SYSCALL NR_DUP = 24"
| "USER_SYSCALL NR_OPEN = 56"
| "USER_SYSCALL NR_CLOSE = 57"
| "USER_SYSCALL NR_PIPE = 59"
| "USER_SYSCALL NR_READ = 63"
| "USER_SYSCALL NR_WRITE = 64"
| "USER_SYSCALL NR_EXIT = 93"
| "USER_SYSCALL NR_SLEEP = 101"
| "USER_SYSCALL NR_YIELD = 124"
| "USER_SYSCALL NR_KILL = 129"
| "USER_SYSCALL NR_GET_TIME = 169"
| "USER_SYSCALL NR_GETPID = 172"
| "USER_SYSCALL NR_FORK = 220"
| "USER_SYSCALL NR_EXEC = 221"
| "USER_SYSCALL NR_WAITPID = 260"
| "USER_SYSCALL NR_THREAD_CREATE = 1000"
| "USER_SYSCALL NR_GETTID = 1001"
| "USER_SYSCALL NR_WAITTID = 1002"
| "USER_SYSCALL NR_MUTEX_CREATE = 1010"
| "USER_SYSCALL NR_MUTEX_LOCK = 1011"
| "USER_SYSCALL NR_MUTEX_UNLOCK = 1012"
| "USER_SYSCALL NR_SEMAPHORE_CREATE = 1020"
| "USER_SYSCALL NR_SEMAPHORE_UP = 1021"
| "USER_SYSCALL NR_SEMAPHORE_DOWN = 1022"
| "USER_SYSCALL NR_CONDVAR_CREATE = 1030"
| "USER_SYSCALL NR_CONDVAR_SIGNAL = 1031"
| "USER_SYSCALL NR_CONDVAR_WAIT = 1032"

definition user_sys_dup :: "'r ecall \<Rightarrow> usize \<Rightarrow> 'r" where
  "user_sys_dup ecall fd = ecall (USER_SYSCALL NR_DUP) fd 0 0"

definition user_sys_open :: "'r ecall \<Rightarrow> usize \<Rightarrow> u32 \<Rightarrow> 'r" where
  "user_sys_open ecall path flags = ecall (USER_SYSCALL NR_OPEN) path (ucast flags) 0"

definition user_sys_close :: "'r ecall \<Rightarrow> usize \<Rightarrow> 'r" where
  "user_sys_close ecall fd = ecall (USER_SYSCALL NR_CLOSE) fd 0 0"

definition user_sys_pipe :: "'r ecall \<Rightarrow> usize \<Rightarrow> 'r" where
  "user_sys_pipe ecall pipe_ptr = ecall (USER_SYSCALL NR_PIPE) pipe_ptr 0 0"

definition user_sys_read :: "'r ecall \<Rightarrow> usize \<Rightarrow> user_slice \<Rightarrow> 'r" where
  "user_sys_read ecall fd buffer = ecall (USER_SYSCALL NR_READ) fd (fst buffer) (snd buffer)"

definition user_sys_write :: "'r ecall \<Rightarrow> usize \<Rightarrow> user_slice \<Rightarrow> 'r" where
  "user_sys_write ecall fd buffer = ecall (USER_SYSCALL NR_WRITE) fd (fst buffer) (snd buffer)"

definition user_sys_exit_request :: "'r ecall \<Rightarrow> i32 \<Rightarrow> 'r" where
  "user_sys_exit_request ecall code = ecall (USER_SYSCALL NR_EXIT) (scast code) 0 0"

definition user_sys_sleep :: "'r ecall \<Rightarrow> usize \<Rightarrow> 'r" where
  "user_sys_sleep ecall sleep_ms = ecall (USER_SYSCALL NR_SLEEP) sleep_ms 0 0"

definition user_sys_yield :: "'r ecall \<Rightarrow> 'r" where
  "user_sys_yield ecall = ecall (USER_SYSCALL NR_YIELD) 0 0 0"

definition user_sys_kill :: "'r ecall \<Rightarrow> usize \<Rightarrow> i32 \<Rightarrow> 'r" where
  "user_sys_kill ecall target signal = ecall (USER_SYSCALL NR_KILL) target (scast signal) 0"

definition user_sys_get_time :: "'r ecall \<Rightarrow> 'r" where
  "user_sys_get_time ecall = ecall (USER_SYSCALL NR_GET_TIME) 0 0 0"

definition user_sys_getpid :: "'r ecall \<Rightarrow> 'r" where
  "user_sys_getpid ecall = ecall (USER_SYSCALL NR_GETPID) 0 0 0"

definition user_sys_fork :: "'r ecall \<Rightarrow> 'r" where
  "user_sys_fork ecall = ecall (USER_SYSCALL NR_FORK) 0 0 0"

definition user_sys_exec :: "'r ecall \<Rightarrow> usize \<Rightarrow> usize \<Rightarrow> 'r" where
  "user_sys_exec ecall path args = ecall (USER_SYSCALL NR_EXEC) path args 0"

definition user_sys_waitpid :: "'r ecall \<Rightarrow> usize \<Rightarrow> usize \<Rightarrow> 'r" where
  "user_sys_waitpid ecall wanted code_ptr = ecall (USER_SYSCALL NR_WAITPID) wanted code_ptr 0"

definition user_sys_thread_create :: "'r ecall \<Rightarrow> usize \<Rightarrow> usize \<Rightarrow> 'r" where
  "user_sys_thread_create ecall entry_va arg = ecall (USER_SYSCALL NR_THREAD_CREATE) entry_va arg 0"

definition user_sys_gettid :: "'r ecall \<Rightarrow> 'r" where
  "user_sys_gettid ecall = ecall (USER_SYSCALL NR_GETTID) 0 0 0"

definition user_sys_waittid :: "'r ecall \<Rightarrow> usize \<Rightarrow> 'r" where
  "user_sys_waittid ecall wanted = ecall (USER_SYSCALL NR_WAITTID) wanted 0 0"

definition user_sys_mutex_create :: "'r ecall \<Rightarrow> bool \<Rightarrow> 'r" where
  "user_sys_mutex_create ecall blocking = ecall (USER_SYSCALL NR_MUTEX_CREATE) (if blocking then 1 else 0) 0 0"

definition user_sys_mutex_lock :: "'r ecall \<Rightarrow> usize \<Rightarrow> 'r" where
  "user_sys_mutex_lock ecall i = ecall (USER_SYSCALL NR_MUTEX_LOCK) i 0 0"

definition user_sys_mutex_unlock :: "'r ecall \<Rightarrow> usize \<Rightarrow> 'r" where
  "user_sys_mutex_unlock ecall i = ecall (USER_SYSCALL NR_MUTEX_UNLOCK) i 0 0"

definition user_sys_semaphore_create :: "'r ecall \<Rightarrow> usize \<Rightarrow> 'r" where
  "user_sys_semaphore_create ecall res_count = ecall (USER_SYSCALL NR_SEMAPHORE_CREATE) res_count 0 0"

definition user_sys_semaphore_up :: "'r ecall \<Rightarrow> usize \<Rightarrow> 'r" where
  "user_sys_semaphore_up ecall sem_id = ecall (USER_SYSCALL NR_SEMAPHORE_UP) sem_id 0 0"

definition user_sys_semaphore_down :: "'r ecall \<Rightarrow> usize \<Rightarrow> 'r" where
  "user_sys_semaphore_down ecall sem_id = ecall (USER_SYSCALL NR_SEMAPHORE_DOWN) sem_id 0 0"

definition user_sys_condvar_create :: "'r ecall \<Rightarrow> usize \<Rightarrow> 'r" where
  "user_sys_condvar_create ecall arg = ecall (USER_SYSCALL NR_CONDVAR_CREATE) arg 0 0"

definition user_sys_condvar_signal :: "'r ecall \<Rightarrow> usize \<Rightarrow> 'r" where
  "user_sys_condvar_signal ecall condvar_id = ecall (USER_SYSCALL NR_CONDVAR_SIGNAL) condvar_id 0 0"

definition user_sys_condvar_wait :: "'r ecall \<Rightarrow> usize \<Rightarrow> usize \<Rightarrow> 'r" where
  "user_sys_condvar_wait ecall condvar_id mutex_id = ecall (USER_SYSCALL NR_CONDVAR_WAIT) condvar_id mutex_id 0"

lemmas user_sys_defs = user_sys_dup_def user_sys_open_def user_sys_close_def user_sys_pipe_def user_sys_read_def user_sys_write_def user_sys_exit_request_def user_sys_sleep_def user_sys_yield_def user_sys_kill_def user_sys_get_time_def user_sys_getpid_def user_sys_fork_def user_sys_exec_def user_sys_waitpid_def user_sys_thread_create_def user_sys_gettid_def user_sys_waittid_def user_sys_mutex_create_def user_sys_mutex_lock_def user_sys_mutex_unlock_def user_sys_semaphore_create_def user_sys_semaphore_up_def user_sys_semaphore_down_def user_sys_condvar_create_def user_sys_condvar_signal_def user_sys_condvar_wait_def

text \<open>\<^verbatim>\<open>sys_exit\<close> panics in the program if the call comes back.\<close>

definition user_sys_exit :: "('u, usize) prog ecall \<Rightarrow> i32 \<Rightarrow> ('u, 'a) prog" where
  "user_sys_exit ecall code = andthen (user_sys_exit_request ecall code) (\<lambda>_. throw ExplicitPanic)"

section \<open>The library functions\<close>

definition user_dup :: "('u, usize) prog ecall \<Rightarrow> usize \<Rightarrow> ('u, usize) prog" where
  "user_dup ecall fd = user_sys_dup ecall fd"

definition user_open :: "('u, usize) prog ecall \<Rightarrow> usize \<Rightarrow> u32 \<Rightarrow> ('u, usize) prog" where
  "user_open ecall path flags = user_sys_open ecall path flags"

definition user_close :: "('u, usize) prog ecall \<Rightarrow> usize \<Rightarrow> ('u, usize) prog" where
  "user_close ecall fd = user_sys_close ecall fd"

definition user_pipe :: "('u, usize) prog ecall \<Rightarrow> usize \<Rightarrow> ('u, usize) prog" where
  "user_pipe ecall pipe_ptr = user_sys_pipe ecall pipe_ptr"

definition user_read :: "('u, usize) prog ecall \<Rightarrow> usize \<Rightarrow> user_slice \<Rightarrow> ('u, usize) prog" where
  "user_read ecall fd buffer = user_sys_read ecall fd buffer"

definition user_write :: "('u, usize) prog ecall \<Rightarrow> usize \<Rightarrow> user_slice \<Rightarrow> ('u, usize) prog" where
  "user_write ecall fd buffer = user_sys_write ecall fd buffer"

definition user_yield :: "('u, usize) prog ecall \<Rightarrow> ('u, usize) prog" where
  "user_yield ecall = user_sys_yield ecall"

definition user_get_time :: "('u, usize) prog ecall \<Rightarrow> ('u, usize) prog" where
  "user_get_time ecall = user_sys_get_time ecall"

definition user_getpid :: "('u, usize) prog ecall \<Rightarrow> ('u, usize) prog" where
  "user_getpid ecall = user_sys_getpid ecall"

definition user_fork :: "('u, usize) prog ecall \<Rightarrow> ('u, usize) prog" where
  "user_fork ecall = user_sys_fork ecall"

definition user_exec :: "('u, usize) prog ecall \<Rightarrow> usize \<Rightarrow> usize \<Rightarrow> ('u, usize) prog" where
  "user_exec ecall path args = user_sys_exec ecall path args"

definition user_waitpid_nb :: "('u, usize) prog ecall \<Rightarrow> usize \<Rightarrow> usize \<Rightarrow> ('u, usize) prog" where
  "user_waitpid_nb ecall wanted code_ptr = user_sys_waitpid ecall wanted code_ptr"

definition user_kill :: "('u, usize) prog ecall \<Rightarrow> usize \<Rightarrow> i32 \<Rightarrow> ('u, usize) prog" where
  "user_kill ecall target signal = user_sys_kill ecall target signal"

definition user_sleep :: "('u, usize) prog ecall \<Rightarrow> usize \<Rightarrow> ('u, unit) prog" where
  "user_sleep ecall sleep_ms = andthen (user_sys_sleep ecall sleep_ms) (\<lambda>_. ret ())"

definition user_thread_create :: "('u, usize) prog ecall \<Rightarrow> usize \<Rightarrow> usize \<Rightarrow> ('u, usize) prog" where
  "user_thread_create ecall entry_va arg = user_sys_thread_create ecall entry_va arg"

definition user_gettid :: "('u, usize) prog ecall \<Rightarrow> ('u, usize) prog" where
  "user_gettid ecall = user_sys_gettid ecall"

definition user_mutex_lock :: "('u, usize) prog ecall \<Rightarrow> usize \<Rightarrow> ('u, unit) prog" where
  "user_mutex_lock ecall i = andthen (user_sys_mutex_lock ecall i) (\<lambda>_. ret ())"

definition user_mutex_unlock :: "('u, usize) prog ecall \<Rightarrow> usize \<Rightarrow> ('u, unit) prog" where
  "user_mutex_unlock ecall i = andthen (user_sys_mutex_unlock ecall i) (\<lambda>_. ret ())"

definition user_semaphore_create :: "('u, usize) prog ecall \<Rightarrow> usize \<Rightarrow> ('u, usize) prog" where
  "user_semaphore_create ecall res_count = user_sys_semaphore_create ecall res_count"

definition user_semaphore_up :: "('u, usize) prog ecall \<Rightarrow> usize \<Rightarrow> ('u, unit) prog" where
  "user_semaphore_up ecall sem_id = andthen (user_sys_semaphore_up ecall sem_id) (\<lambda>_. ret ())"

definition user_semaphore_down :: "('u, usize) prog ecall \<Rightarrow> usize \<Rightarrow> ('u, unit) prog" where
  "user_semaphore_down ecall sem_id = andthen (user_sys_semaphore_down ecall sem_id) (\<lambda>_. ret ())"

definition user_condvar_signal :: "('u, usize) prog ecall \<Rightarrow> usize \<Rightarrow> ('u, unit) prog" where
  "user_condvar_signal ecall condvar_id = andthen (user_sys_condvar_signal ecall condvar_id) (\<lambda>_. ret ())"

definition user_condvar_wait :: "('u, usize) prog ecall \<Rightarrow> usize \<Rightarrow> usize \<Rightarrow> ('u, unit) prog" where
  "user_condvar_wait ecall condvar_id mutex_id = andthen (user_sys_condvar_wait ecall condvar_id mutex_id) (\<lambda>_. ret ())"

definition user_exit :: "('u, usize) prog ecall \<Rightarrow> i32 \<Rightarrow> ('u, 'a) prog" where
  "user_exit ecall code = user_sys_exit ecall code"

definition user_mutex_create :: "('u, usize) prog ecall \<Rightarrow> ('u, usize) prog" where
  "user_mutex_create ecall = user_sys_mutex_create ecall False"

definition user_mutex_blocking_create :: "('u, usize) prog ecall \<Rightarrow> ('u, usize) prog" where
  "user_mutex_blocking_create ecall = user_sys_mutex_create ecall True"

definition user_condvar_create :: "('u, usize) prog ecall \<Rightarrow> ('u, usize) prog" where
  "user_condvar_create ecall = user_sys_condvar_create ecall 0"

text \<open>
  \<^verbatim>\<open>wait\<close>, \<^verbatim>\<open>waitpid\<close> and \<^verbatim>\<open>waittid\<close> repeat a call and give up the processor as long as the answer is -2. Nothing bounds
  the number of rounds.
\<close>

partial_function (option) poll_loop ::
    "('u, usize) prog ecall \<Rightarrow> ('u, usize) prog \<Rightarrow> 'u \<Rightarrow> (panic + usize \<times> 'u) option" where
  "poll_loop ecall call u =
     (case call u of
        Inl e \<Rightarrow> Some (Inl e)
      | Inr (r, u1) \<Rightarrow>
          if r = - 2
          then (case user_yield ecall u1 of Inl e \<Rightarrow> Some (Inl e) | Inr (_, u2) \<Rightarrow> poll_loop ecall call u2)
          else Some (Inr (r, u1)))"

definition poll :: "('u, usize) prog ecall \<Rightarrow> ('u, usize) prog \<Rightarrow> ('u, usize) prog" where
  "poll ecall call u = (case poll_loop ecall call u of None \<Rightarrow> Inl NeverReturns | Some r \<Rightarrow> r)"

definition user_wait :: "('u, usize) prog ecall \<Rightarrow> usize \<Rightarrow> ('u, usize) prog" where
  "user_wait ecall code_ptr = poll ecall (user_sys_waitpid ecall (- 1) code_ptr)"

definition user_waitpid :: "('u, usize) prog ecall \<Rightarrow> usize \<Rightarrow> usize \<Rightarrow> ('u, usize) prog" where
  "user_waitpid ecall wanted code_ptr = poll ecall (user_sys_waitpid ecall wanted code_ptr)"

definition user_waittid :: "('u, usize) prog ecall \<Rightarrow> usize \<Rightarrow> ('u, usize) prog" where
  "user_waittid ecall wanted = poll ecall (user_sys_waittid ecall wanted)"

section \<open>Start of a program\<close>

text \<open>The memory of the program as it sees it.\<close>

type_synonym user_mem = "usize \<Rightarrow> byte"

definition read_bytes_at :: "user_mem \<Rightarrow> usize \<Rightarrow> nat \<Rightarrow> byte list" where
  "read_bytes_at m a n = map (\<lambda>i. m (a + of_nat i)) [0..<n]"

definition read_usize :: "user_mem \<Rightarrow> usize \<Rightarrow> usize" where
  "read_usize m a = bytes_le_word (read_bytes_at m a 8)"

text \<open>\<^verbatim>\<open>(0usize..).find(..)\<close>: the search for the zero byte.\<close>

partial_function (option) find_nul :: "user_mem \<Rightarrow> usize \<Rightarrow> usize \<Rightarrow> usize option" where
  "find_nul m str_start i = (if m (str_start + i) = 0 then Some i else find_nul m str_start (i + 1))"

definition start_arg :: "user_mem \<Rightarrow> usize \<Rightarrow> nat \<Rightarrow> (byte list) res" where
  "start_arg m argv i =
     (let str_start = read_usize m (argv + of_nat i * 8) in
      case find_nul m str_start 0 of
        None \<Rightarrow> Inl NeverReturns
      | Some len \<Rightarrow>
          let bs = read_bytes_at m str_start (unat len) in
          if valid_utf8 bs then Inr bs else Inl UnwrapNone)"

fun start_args :: "user_mem \<Rightarrow> usize \<Rightarrow> nat list \<Rightarrow> (byte list list) res" where
  "start_args m argv [] = Inr []"
| "start_args m argv (i # is) =
     (case start_arg m argv i of Inl e \<Rightarrow> Inl e
      | Inr a \<Rightarrow> (case start_args m argv is of Inl e \<Rightarrow> Inl e | Inr as \<Rightarrow> Inr (a # as)))"

text \<open>\<^verbatim>\<open>_start\<close> without the heap; \<open>main\<close> is the program.\<close>

definition user_start ::
    "('u, usize) prog ecall \<Rightarrow> user_mem \<Rightarrow> (usize \<Rightarrow> byte list list \<Rightarrow> ('u, i32) prog) \<Rightarrow> usize \<Rightarrow> usize \<Rightarrow> ('u, 'a) prog" where
  "user_start ecall m main argc argv =
     andthen (lift_res (start_args m argv [0..<unat argc])) (\<lambda>v.
     andthen (main argc v) (\<lambda>code. user_exit ecall code))"

end
