(* ===== verification/User_Abi.thy ===== *)
theory User_Abi
  imports User_Lib
begin

text \<open>
  The user library and the kernel agree: every request of the library reaches the kernel function of the same name with
  the arguments of the caller, and the waiting functions return the first answer that is not -2.
\<close>

section \<open>Arguments through registers\<close>

text \<open>A value of 32 bits, with or without sign, survives a register of 64 bits.\<close>

lemma ucast_scast_32 [simp]: "ucast (scast (x :: i32) :: usize) = x"
  by (rule bit_word_eqI) (simp add: bit_simps)

lemma ucast_ucast_32 [simp]: "ucast (ucast (x :: u32) :: usize) = x"
  by (rule bit_word_eqI) (simp add: bit_simps)

lemmas abi_defs = user_sys_defs syscall_def

text \<open>
  C36: Every system call of the user library, answered by the kernel's dispatcher, runs the kernel function it is meant
  for with the caller's arguments: numbers agree on both sides, a signed exit code, a signal and the flags of open
  survive the trip through 64-bit registers, and the boolean of mutex_create is read back as it was sent.
\<close>

theorem user_requests_reach_kernel:
  "user_sys_dup (syscall pf) fd = sys_dup fd \<and> user_sys_open (syscall pf) path flags = sys_open pf path flags \<and>
   user_sys_close (syscall pf) fd = sys_close fd \<and> user_sys_pipe (syscall pf) ptr = sys_pipe ptr \<and>
   user_sys_read (syscall pf) fd (ptr, len) = sys_read pf fd ptr len \<and>
   user_sys_write (syscall pf) fd (ptr, len) = sys_write pf fd ptr len \<and>
   user_sys_exit_request (syscall pf) code = sys_exit code \<and> user_sys_sleep (syscall pf) ms = sys_sleep pf ms \<and>
   user_sys_yield (syscall pf) = sys_yield \<and> user_sys_kill (syscall pf) target signal = sys_kill target signal \<and>
   user_sys_get_time (syscall pf) = sys_get_time pf \<and> user_sys_getpid (syscall pf) = sys_getpid \<and>
   user_sys_fork (syscall pf) = sys_fork pf \<and> user_sys_exec (syscall pf) path args = sys_exec pf path args \<and>
   user_sys_waitpid (syscall pf) wanted ptr = sys_waitpid wanted ptr \<and>
   user_sys_thread_create (syscall pf) va arg = sys_thread_create pf va arg \<and> user_sys_gettid (syscall pf) = sys_gettid \<and>
   user_sys_waittid (syscall pf) wanted = andthen (sys_waittid wanted) (\<lambda>c. ret (Returned (scast c))) \<and>
   user_sys_mutex_create (syscall pf) blocking = sys_mutex_create blocking \<and>
   user_sys_mutex_lock (syscall pf) i = sys_mutex_lock i \<and> user_sys_mutex_unlock (syscall pf) i = sys_mutex_unlock i \<and>
   user_sys_semaphore_create (syscall pf) n = sys_semaphore_create n \<and>
   user_sys_semaphore_up (syscall pf) i = sys_semaphore_up i \<and> user_sys_semaphore_down (syscall pf) i = sys_semaphore_down i \<and>
   user_sys_condvar_create (syscall pf) arg = sys_condvar_create arg \<and>
   user_sys_condvar_signal (syscall pf) i = sys_condvar_signal i \<and>
   user_sys_condvar_wait (syscall pf) i m = sys_condvar_wait i m"
  by (intro conjI) (simp_all add: abi_defs)

section \<open>Waiting\<close>

text \<open>
  The states in which the waiting loop asks: after an answer -2 the program gives up the processor and asks again.
\<close>

inductive polled :: "('u, usize) prog ecall \<Rightarrow> ('u, usize) prog \<Rightarrow> 'u \<Rightarrow> nat \<Rightarrow> 'u \<Rightarrow> bool"
  for ecall call where
  polled_0: "polled ecall call u 0 u"
| polled_Suc: "call u = Inr (- 2, v) \<Longrightarrow> user_yield ecall v = Inr (r, w) \<Longrightarrow> polled ecall call w n u' \<Longrightarrow>
    polled ecall call u (Suc n) u'"

lemma poll_loop_polled:
  assumes "polled ecall call u n u'" and "call u' = Inr (r, u'')" and "r \<noteq> - 2"
  shows "poll_loop ecall call u = Some (Inr (r, u''))"
  using assms by (induction rule: polled.induct) (subst poll_loop.simps, simp)+

text \<open>
  \<^verbatim>\<open>waitpid\<close> of the user library returns as soon as the kernel's answer is not -2, however often it has to ask: if the
  n-th question is the first with another answer, that answer is the result.
\<close>

theorem user_waitpid_returns:
  assumes "polled ecall (user_sys_waitpid ecall wanted code_ptr) u n u'"
    and "user_sys_waitpid ecall wanted code_ptr u' = Inr (r, u'')" and "r \<noteq> - 2"
  shows "user_waitpid ecall wanted code_ptr u = Inr (r, u'')"
  using poll_loop_polled[OF assms] by (simp add: user_waitpid_def poll_def)

text \<open>A kernel that answers -2 until its third question.\<close>

definition demo_ecall :: "(nat, usize) prog ecall" where
  "demo_ecall i a b c u = (if i = USER_SYSCALL NR_YIELD then Inr (0, u) else Inr (if u < 2 then - 2 else 7, Suc u))"

theorem user_waitpid_returns_witness: "user_waitpid demo_ecall 7 0 0 = Inr (7, 3)"
proof -
  have "polled demo_ecall (user_sys_waitpid demo_ecall 7 0) 0 (Suc (Suc 0)) 2"
    by (rule polled_Suc[where v = 1 and r = 0 and w = 1], simp_all add: demo_ecall_def user_yield_def user_sys_defs)
      (rule polled_Suc[where v = 2 and r = 0 and w = 2], simp_all add: demo_ecall_def user_yield_def user_sys_defs polled_0)
  then show ?thesis by (rule user_waitpid_returns) (simp_all add: demo_ecall_def user_sys_defs)
qed

end
