(* ===== verification/Shell.thy ===== *)
theory Shell
  imports User_Lib
begin

unbundle bit_operations_syntax

text \<open>
  The shell \<^verbatim>\<open>user/src/bin/user_shell.rs\<close> with the console functions of \<^verbatim>\<open>user/src/console.rs\<close>, and the first process
  \<^verbatim>\<open>user/src/bin/initproc.rs\<close>. A string is the list of its characters, all of them below 256 since every character
  comes from one byte. Where strings, arrays and variables lie in memory is decided by the allocator and the
  compiler: the fields of \<open>shell_env\<close> say it.
\<close>

section \<open>Environment\<close>

record 'u shell_env =
  env_ecall :: "('u, usize) prog ecall"
  env_mem :: "'u \<Rightarrow> user_mem"
  env_as_ptr :: "byte list \<Rightarrow> usize"
  env_args_ptr :: "usize list \<Rightarrow> usize"
  env_char_ptr :: usize
  env_pipe_ptr :: usize
  env_code_ptr :: usize

abbreviation CHR_LF :: u8 where "CHR_LF \<equiv> 0x0a"

abbreviation CHR_CR :: u8 where "CHR_CR \<equiv> 0x0d"

abbreviation CHR_DL :: u8 where "CHR_DL \<equiv> 0x7f"

abbreviation CHR_BS :: u8 where "CHR_BS \<equiv> 0x08"

abbreviation LINE_START :: "byte list" where "LINE_START \<equiv> [62, 62, 32]"

abbreviation USER_RDONLY :: u32 where "USER_RDONLY \<equiv> 0"

abbreviation USER_WRONLY :: u32 where "USER_WRONLY \<equiv> 1"

abbreviation USER_CREATE :: u32 where "USER_CREATE \<equiv> push_bit 9 1"

section \<open>Console\<close>

abbreviation STDIN :: usize where "STDIN \<equiv> 0"

abbreviation STDOUT :: usize where "STDOUT \<equiv> 1"

text \<open>The bytes of a string; \<open>char_utf8\<close> encodes a character below 256.\<close>

definition str_utf8 :: "byte list \<Rightarrow> byte list" where
  "str_utf8 s = concat (map char_utf8 s)"

definition write_str :: "'u shell_env \<Rightarrow> byte list \<Rightarrow> ('u, unit) prog" where
  "write_str env s =
     andthen (user_write (env_ecall env) STDOUT (env_as_ptr env s, of_nat (length (str_utf8 s)))) (\<lambda>_. ret ())"

text \<open>\<^verbatim>\<open>print!\<close> and \<^verbatim>\<open>println!\<close> write the pieces of the format one after the other.\<close>

definition print_pieces :: "'u shell_env \<Rightarrow> byte list list \<Rightarrow> ('u, unit) prog" where
  "print_pieces env pieces = for_each pieces (write_str env)"

definition getchar :: "'u shell_env \<Rightarrow> ('u, u8) prog" where
  "getchar env =
     andthen (user_read (env_ecall env) STDIN (env_char_ptr env, 1)) (\<lambda>_.
     gets (\<lambda>u. env_mem env u (env_char_ptr env)))"

section \<open>Command lines\<close>

text \<open>\<^verbatim>\<open>str::split\<close> with a character.\<close>

fun split_on :: "'a \<Rightarrow> 'a list \<Rightarrow> 'a list list" where
  "split_on c [] = [[]]"
| "split_on c (x # xs) =
     (if x = c then [] # split_on c xs
      else (case split_on c xs of [] \<Rightarrow> [[x]] | w # ws \<Rightarrow> (x # w) # ws))"

record ProcessArguments =
  pa_input :: "byte list"
  pa_output :: "byte list"
  pa_args_copy :: "byte list list"

text \<open>
  The search for \<^verbatim>\<open><\<close> or \<^verbatim>\<open>>\<close> and the removal of it and of the file name after it.
\<close>

definition take_redirect :: "u8 \<Rightarrow> byte list list \<Rightarrow> (byte list \<times> byte list list) res" where
  "take_redirect mark args_copy =
     (case position (\<lambda>arg. arg = [mark, 0]) args_copy of
        None \<Rightarrow> Inr ([], args_copy)
      | Some idx \<Rightarrow>
          if idx + 1 < length args_copy
          then Inr (args_copy ! (idx + 1), take idx args_copy @ drop (idx + 2) args_copy)
          else Inl IndexOutOfRange)"

definition command_words :: "byte list \<Rightarrow> byte list list" where
  "command_words command = map (\<lambda>arg. arg @ [0]) (filter (\<lambda>arg. arg \<noteq> []) (split_on 32 command))"

definition ProcessArguments_new :: "byte list \<Rightarrow> ProcessArguments res" where
  "ProcessArguments_new command =
     (case take_redirect 60 (command_words command) of Inl e \<Rightarrow> Inl e
      | Inr (input, args_copy) \<Rightarrow>
         (case take_redirect 62 args_copy of Inl e \<Rightarrow> Inl e
          | Inr (output, args_copy) \<Rightarrow> Inr \<lparr>pa_input = input, pa_output = output, pa_args_copy = args_copy\<rparr>))"

text \<open>\<^verbatim>\<open>args_addr\<close>: the addresses of the arguments and a null pointer.\<close>

definition pa_args_addr :: "'u shell_env \<Rightarrow> ProcessArguments \<Rightarrow> usize list" where
  "pa_args_addr env pa = map (env_as_ptr env) (pa_args_copy pa) @ [0]"

fun parse_commands :: "byte list list \<Rightarrow> (ProcessArguments list) res" where
  "parse_commands [] = Inr []"
| "parse_commands (cmd # cmds) =
     (case ProcessArguments_new cmd of Inl e \<Rightarrow> Inl e
      | Inr pa \<Rightarrow> (case parse_commands cmds of Inl e \<Rightarrow> Inl e | Inr pas \<Rightarrow> Inr (pa # pas)))"

fun check_redirects :: "nat \<Rightarrow> nat \<Rightarrow> ProcessArguments list \<Rightarrow> bool \<Rightarrow> bool" where
  "check_redirects n i [] valid = valid"
| "check_redirects n i (pa # pas) valid =
     check_redirects n (Suc i) pas
       (if i = 0 then (if pa_output pa \<noteq> [] then False else valid)
        else if i = n - 1 then (if pa_input pa \<noteq> [] then False else valid)
        else (if pa_output pa \<noteq> [] \<or> pa_input pa \<noteq> [] then False else valid))"

definition valid_commands :: "ProcessArguments list \<Rightarrow> bool" where
  "valid_commands pas = (let valid = check_redirects (length pas) 0 pas True in if length pas = 1 then True else valid)"

section \<open>Running a pipeline\<close>

text \<open>The value of \<^verbatim>\<open>pipe_fd\<close> after the call.\<close>

definition open_pipe :: "'u shell_env \<Rightarrow> ('u, usize \<times> usize) prog" where
  "open_pipe env =
     andthen (user_pipe (env_ecall env) (env_pipe_ptr env)) (\<lambda>_.
     gets (\<lambda>u. (read_usize (env_mem env u) (env_pipe_ptr env), read_usize (env_mem env u) (env_pipe_ptr env + 8))))"

fun open_pipes :: "'u shell_env \<Rightarrow> nat \<Rightarrow> (usize \<times> usize) list \<Rightarrow> ('u, (usize \<times> usize) list) prog" where
  "open_pipes env 0 pipes_fd = ret pipes_fd"
| "open_pipes env (Suc n) pipes_fd = andthen (open_pipe env) (\<lambda>pipe_fd. open_pipes env n (pipes_fd @ [pipe_fd]))"

definition close_pipes :: "'u shell_env \<Rightarrow> (usize \<times> usize) list \<Rightarrow> ('u, unit) prog" where
  "close_pipes env pipes_fd =
     for_each pipes_fd (\<lambda>pipe_fd.
       andthen (user_close (env_ecall env) (fst pipe_fd)) (\<lambda>_.
       andthen (user_close (env_ecall env) (snd pipe_fd)) (\<lambda>_. ret ())))"

text \<open>\<^verbatim>\<open>close(to); assert_eq!(dup(from), to)\<close>.\<close>

definition move_fd :: "'u shell_env \<Rightarrow> usize \<Rightarrow> usize \<Rightarrow> ('u, unit) prog" where
  "move_fd env to from =
     andthen (user_close (env_ecall env) to) (\<lambda>_.
     andthen (user_dup (env_ecall env) from) (\<lambda>r. assert_that (r = to)))"

abbreviation MSG_OPEN :: "byte list" where
  "MSG_OPEN \<equiv> [69, 114, 114, 111, 114, 32, 119, 104, 101, 110, 32, 111, 112, 101, 110, 105, 110, 103, 32, 102, 105, 108, 101, 32]"

text \<open>Redirection to a file: \<open>False\<close> when it cannot be opened.\<close>

definition redirect :: "'u shell_env \<Rightarrow> byte list \<Rightarrow> u32 \<Rightarrow> usize \<Rightarrow> ('u, bool) prog" where
  "redirect env name flags to =
     (if name = [] then ret True
      else
        andthen (user_open (env_ecall env) (env_as_ptr env name) flags) (\<lambda>fd.
        if fd = - 1
        then andthen (print_pieces env [MSG_OPEN, name, [CHR_LF]]) (\<lambda>_. ret False)
        else
          andthen (move_fd env to fd) (\<lambda>_.
          andthen (user_close (env_ecall env) fd) (\<lambda>_. ret True))))"

abbreviation MSG_EXEC :: "byte list" where
  "MSG_EXEC \<equiv> [69, 114, 114, 111, 114, 32, 119, 104, 101, 110, 32, 101, 120, 101, 99, 117, 116, 105, 110, 103, 33, 10]"

text \<open>What the child of the \<open>i\<close>-th fork does; its value is the exit code that \<^verbatim>\<open>main\<close> returns.\<close>

definition run_child :: "'u shell_env \<Rightarrow> (usize \<times> usize) list \<Rightarrow> nat \<Rightarrow> nat \<Rightarrow> ProcessArguments \<Rightarrow> ('u, i32) prog" where
  "run_child env pipes_fd n i pa =
     andthen (redirect env (pa_input pa) USER_RDONLY 0) (\<lambda>ok.
     if \<not> ok then ret (- 4)
     else
       andthen (redirect env (pa_output pa) (USER_CREATE OR USER_WRONLY) 1) (\<lambda>ok.
       if \<not> ok then ret (- 4)
       else
         andthen (if i > 0 then andthen (unwrap (if i - 1 < length pipes_fd then Some (pipes_fd ! (i - 1)) else None)) (\<lambda>pipe_fd.
           move_fd env 0 (fst pipe_fd)) else ret ()) (\<lambda>_.
         andthen (if i < n - 1 then andthen (unwrap (if i < length pipes_fd then Some (pipes_fd ! i) else None)) (\<lambda>pipe_fd.
           move_fd env 1 (snd pipe_fd)) else ret ()) (\<lambda>_.
         andthen (close_pipes env pipes_fd) (\<lambda>_.
         andthen (lift_res (if pa_args_copy pa = [] then Inl IndexOutOfRange else Inr (pa_args_copy pa ! 0))) (\<lambda>path.
         andthen (user_exec (env_ecall env) (env_as_ptr env path) (env_args_ptr env (pa_args_addr env pa))) (\<lambda>r.
         if r = - 1 then andthen (print_pieces env [MSG_EXEC]) (\<lambda>_. ret (- 4))
         else throw ExplicitPanic)))))))"

text \<open>
  The loop that forks: \<open>Inl\<close> is the exit code with which a child leaves \<^verbatim>\<open>main\<close>, \<open>Inr\<close> the list of the pids in the
  parent.
\<close>

fun fork_children ::
    "'u shell_env \<Rightarrow> (usize \<times> usize) list \<Rightarrow> nat \<Rightarrow> nat \<Rightarrow> ProcessArguments list \<Rightarrow> usize list \<Rightarrow> ('u, i32 + usize list) prog" where
  "fork_children env pipes_fd n i [] pids = ret (Inr pids)"
| "fork_children env pipes_fd n i (pa # pas) pids =
     andthen (user_fork (env_ecall env)) (\<lambda>r.
     if r = 0 then andthen (run_child env pipes_fd n i pa) (\<lambda>code. ret (Inl code))
     else fork_children env pipes_fd n (Suc i) pas (pids @ [r]))"

definition wait_children :: "'u shell_env \<Rightarrow> usize list \<Rightarrow> ('u, unit) prog" where
  "wait_children env pids =
     for_each pids (\<lambda>child.
       andthen (user_waitpid (env_ecall env) child (env_code_ptr env)) (\<lambda>exit_pid. assert_that (child = exit_pid)))"

definition run_pipeline :: "'u shell_env \<Rightarrow> ProcessArguments list \<Rightarrow> ('u, i32 + unit) prog" where
  "run_pipeline env pas =
     andthen (if pas \<noteq> [] then open_pipes env (length pas - 1) [] else ret []) (\<lambda>pipes_fd.
     andthen (fork_children env pipes_fd (length pas) 0 pas []) (\<lambda>r.
     case r of
       Inl code \<Rightarrow> ret (Inl code)
     | Inr pids \<Rightarrow>
         andthen (close_pipes env pipes_fd) (\<lambda>_.
         andthen (wait_children env pids) (\<lambda>_. ret (Inr ())))))"

abbreviation MSG_INVALID :: "byte list" where
  "MSG_INVALID \<equiv> [73, 110, 118, 97, 108, 105, 100, 32, 99, 111, 109, 109, 97, 110, 100, 58, 32, 73, 110, 112, 117, 116, 115, 47,
     79, 117, 116, 112, 117, 116, 115, 32, 99, 97, 110, 110, 111, 116, 32, 98, 101, 32, 99, 111, 114, 114, 101, 99, 116, 108, 121,
     32, 98, 105, 110, 100, 101, 100, 33, 10]"

definition run_line :: "'u shell_env \<Rightarrow> byte list \<Rightarrow> ('u, i32 + unit) prog" where
  "run_line env line =
     andthen (lift_res (parse_commands (split_on 124 line))) (\<lambda>pas.
     if \<not> valid_commands pas then andthen (print_pieces env [MSG_INVALID]) (\<lambda>_. ret (Inr ()))
     else run_pipeline env pas)"

text \<open>
  One round of the loop of \<^verbatim>\<open>main\<close> for the character \<open>c\<close>: the next line, or the exit code when \<^verbatim>\<open>main\<close> returns.
\<close>

definition shell_key :: "'u shell_env \<Rightarrow> byte list \<Rightarrow> u8 \<Rightarrow> ('u, i32 + byte list) prog" where
  "shell_key env line c =
     (if c = CHR_LF \<or> c = CHR_CR
      then
        andthen (print_pieces env [[CHR_LF]]) (\<lambda>_.
        andthen (if line \<noteq> [] then run_line env line else ret (Inr ())) (\<lambda>r.
        case r of
          Inl code \<Rightarrow> ret (Inl code)
        | Inr _ \<Rightarrow> andthen (print_pieces env [LINE_START]) (\<lambda>_. ret (Inr []))))
      else if c = CHR_BS \<or> c = CHR_DL
      then
        (if line \<noteq> []
         then andthen (print_pieces env [[CHR_BS]]) (\<lambda>_.
              andthen (print_pieces env [[32]]) (\<lambda>_.
              andthen (print_pieces env [[CHR_BS]]) (\<lambda>_. ret (Inr (butlast line)))))
         else ret (Inr line))
      else andthen (print_pieces env [[c]]) (\<lambda>_. ret (Inr (line @ [c]))))"

partial_function (option) shell_loop :: "'u shell_env \<Rightarrow> byte list \<Rightarrow> 'u \<Rightarrow> (panic + i32 \<times> 'u) option" where
  "shell_loop env line u =
     (case andthen (getchar env) (shell_key env line) u of
        Inl e \<Rightarrow> Some (Inl e)
      | Inr (Inl code, u') \<Rightarrow> Some (Inr (code, u'))
      | Inr (Inr line', u') \<Rightarrow> shell_loop env line' u')"

abbreviation MSG_SHELL :: "byte list" where
  "MSG_SHELL \<equiv> [82, 117, 115, 116, 32, 117, 115, 101, 114, 32, 115, 104, 101, 108, 108, 10]"

definition shell_main :: "'u shell_env \<Rightarrow> ('u, i32) prog" where
  "shell_main env =
     andthen (print_pieces env [MSG_SHELL]) (\<lambda>_.
     andthen (print_pieces env [LINE_START]) (\<lambda>_.
     (\<lambda>u. case shell_loop env [] u of None \<Rightarrow> Inl NeverReturns | Some r \<Rightarrow> r)))"

section \<open>The first process\<close>

partial_function (option) reap_loop :: "'u shell_env \<Rightarrow> 'u \<Rightarrow> (panic + unit \<times> 'u) option" where
  "reap_loop env u =
     (case user_wait (env_ecall env) (env_code_ptr env) u of
        Inl e \<Rightarrow> Some (Inl e)
      | Inr (r, u1) \<Rightarrow>
          if r = - 1
          then (case user_yield (env_ecall env) u1 of Inl e \<Rightarrow> Some (Inl e) | Inr (_, u2) \<Rightarrow> reap_loop env u2)
          else reap_loop env u1)"

abbreviation SHELL_NAME :: "byte list" where
  "SHELL_NAME \<equiv> [117, 115, 101, 114, 95, 115, 104, 101, 108, 108, 0]"

definition initproc_main :: "'u shell_env \<Rightarrow> ('u, i32) prog" where
  "initproc_main env =
     andthen (user_fork (env_ecall env)) (\<lambda>r.
     if r = 0
     then andthen (user_exec (env_ecall env) (env_as_ptr env SHELL_NAME) (env_args_ptr env [0])) (\<lambda>_. ret 0)
     else andthen (\<lambda>u. case reap_loop env u of None \<Rightarrow> Inl NeverReturns | Some x \<Rightarrow> x) (\<lambda>_. ret 0))"

end
