(* ===== verification/Shell_Parse.thy ===== *)
theory Shell_Parse
  imports Shell
begin

text \<open>
  Command lines of the shell: printing a command with its redirections and parsing it again gives the same command, in
  whatever place the redirections stand; a redirection without a file name makes the shell panic.
\<close>

section \<open>Printing and splitting\<close>

fun unwords :: "byte list list \<Rightarrow> byte list" where
  "unwords [] = []"
| "unwords [w] = w"
| "unwords (w # v # ws) = w @ 32 # unwords (v # ws)"

text \<open>A word of a command that is not a redirection.\<close>

definition plain_word :: "byte list \<Rightarrow> bool" where
  "plain_word w \<longleftrightarrow> w \<noteq> [] \<and> 32 \<notin> set w \<and> w \<noteq> [60] \<and> w \<noteq> [62]"

definition good_word :: "byte list \<Rightarrow> bool" where
  "good_word w \<longleftrightarrow> w \<noteq> [] \<and> 32 \<notin> set w"

lemma plain_wordD: "plain_word w \<Longrightarrow> good_word w" "plain_word w \<Longrightarrow> w \<noteq> [60]" "plain_word w \<Longrightarrow> w \<noteq> [62]"
  by (simp_all add: plain_word_def good_word_def)

definition redirection :: "u8 \<Rightarrow> byte list option \<Rightarrow> byte list list" where
  "redirection mark target = (case target of None \<Rightarrow> [] | Some f \<Rightarrow> [[mark], f])"

definition c_string :: "byte list \<Rightarrow> byte list" where
  "c_string w = w @ [0]"

lemma split_on_word: "c \<notin> set w \<Longrightarrow> split_on c w = [w]"
  by (induction w) auto

lemma split_on_sep: "c \<notin> set w \<Longrightarrow> split_on c (w @ c # xs) = w # split_on c xs"
  by (induction w) auto

lemma split_unwords: "ws \<noteq> [] \<Longrightarrow> \<forall>w\<in>set ws. 32 \<notin> set w \<Longrightarrow> split_on 32 (unwords ws) = ws"
  by (induction ws rule: unwords.induct) (auto simp: split_on_word split_on_sep)

lemma command_words_unwords:
  assumes "\<forall>w\<in>set ws. good_word w"
  shows "command_words (unwords ws) = map c_string ws"
proof (cases "ws = []")
  case True
  then show ?thesis by (simp add: command_words_def)
next
  case False
  have "filter (\<lambda>w. w \<noteq> []) ws = ws" using assms by (simp add: filter_id_conv good_word_def)
  then show ?thesis using split_unwords[OF False] assms by (simp add: good_word_def command_words_def c_string_def cong: map_cong)
qed

section \<open>Redirections\<close>

lemma position_first: "\<forall>x\<in>set xs. \<not> p x \<Longrightarrow> p y \<Longrightarrow> position p (xs @ y # ys) = Some (length xs)"
  by (induction xs) auto

lemma c_string_mark: "c_string w = [mark, 0] \<longleftrightarrow> w = [mark]"
  by (simp add: c_string_def)

lemma take_redirect_none:
  "\<forall>w\<in>set ws. w \<noteq> [mark] \<Longrightarrow> take_redirect mark (map c_string ws) = Inr ([], map c_string ws)"
proof -
  assume "\<forall>w\<in>set ws. w \<noteq> [mark]"
  then have "position (\<lambda>arg. arg = [mark, 0]) (map c_string ws) = None" by (auto simp: c_string_mark)
  then show ?thesis unfolding take_redirect_def by (simp del: position_None)
qed

lemma take_redirect_some:
  assumes "\<forall>w\<in>set ws. w \<noteq> [mark]"
  shows "take_redirect mark (map c_string (ws @ [mark] # f # vs)) = Inr (c_string f, map c_string (ws @ vs))"
    and "take_redirect mark (map c_string (ws @ [[mark]])) = Inl IndexOutOfRange"
proof -
  have "position (\<lambda>arg. arg = [mark, 0]) (map c_string ws @ c_string [mark] # rest) = Some (length ws)" for rest
    using position_first[of "map c_string ws" "\<lambda>arg. arg = [mark, 0]" "c_string [mark]"] assms by (auto simp: c_string_mark)
  then show "take_redirect mark (map c_string (ws @ [mark] # f # vs)) = Inr (c_string f, map c_string (ws @ vs))"
    "take_redirect mark (map c_string (ws @ [[mark]])) = Inl IndexOutOfRange"
    unfolding take_redirect_def by (simp_all add: nth_append)
qed

lemma take_redirect_redirection:
  assumes "\<forall>w\<in>set ws. w \<noteq> [mark]" and "target = None \<Longrightarrow> \<forall>w\<in>set vs. w \<noteq> [mark]"
  shows "take_redirect mark (map c_string (ws @ redirection mark target @ vs)) =
    Inr (case target of None \<Rightarrow> [] | Some f \<Rightarrow> c_string f, map c_string (ws @ vs))"
proof (cases target)
  case None
  then show ?thesis using take_redirect_none[of "ws @ vs" mark] assms by (auto simp: redirection_def)
next
  case (Some f)
  then show ?thesis using take_redirect_some(1)[OF assms(1), of f vs] by (simp add: redirection_def)
qed

text \<open>
  C35: A command of plain words with at most one redirection of the input and one of the output, in this order and
  anywhere among the words, is parsed back from its printed form: the file names and the arguments come out in order,
  each with a terminating zero. If a redirection is the last word, the index of the missing file name is out of range
  and the shell panics.
\<close>

theorem ProcessArguments_round_trip:
  assumes "\<forall>w\<in>set (as @ bs @ cs). plain_word w" and "\<forall>f\<in>set_option inp \<union> set_option out. plain_word f"
  shows "ProcessArguments_new (unwords (as @ redirection 60 inp @ bs @ redirection 62 out @ cs)) =
      Inr \<lparr>pa_input = (case inp of None \<Rightarrow> [] | Some f \<Rightarrow> c_string f), pa_output = (case out of None \<Rightarrow> [] | Some f \<Rightarrow> c_string f),
           pa_args_copy = map c_string (as @ bs @ cs)\<rparr> \<and>
    ProcessArguments_new (unwords (as @ [[60]])) = Inl IndexOutOfRange \<and>
    ProcessArguments_new (unwords (as @ redirection 60 inp @ bs @ [[62]])) = Inl IndexOutOfRange"
proof -
  have plain: "\<forall>w\<in>set as. plain_word w" "\<forall>w\<in>set bs. plain_word w" "\<forall>w\<in>set cs. plain_word w" using assms(1) by simp_all
  have files: "\<And>f. inp = Some f \<Longrightarrow> plain_word f" "\<And>f. out = Some f \<Longrightarrow> plain_word f" using assms(2) by simp_all
  have good: "\<forall>w\<in>set as. good_word w" "\<forall>w\<in>set bs. good_word w" "\<forall>w\<in>set cs. good_word w" using plain plain_wordD(1) by blast+
  have mark: "good_word [60]" "good_word [62]" by (simp_all add: good_word_def)
  have red: "\<forall>w\<in>set (redirection 60 inp). good_word w" "\<forall>w\<in>set (redirection 62 out). good_word w"
    "\<forall>w\<in>set (redirection 62 out). w \<noteq> [60]"
  proof -
    show "\<forall>w\<in>set (redirection 60 inp). good_word w" using files(1) mark plain_wordD(1) by (cases inp) (simp_all add: redirection_def)
    show "\<forall>w\<in>set (redirection 62 out). good_word w" using files(2) mark plain_wordD(1) by (cases out) (simp_all add: redirection_def)
    show "\<forall>w\<in>set (redirection 62 out). w \<noteq> [60]" using files(2) plain_wordD(2) by (cases out) (simp_all add: redirection_def)
  qed
  have lt: "\<forall>w\<in>set as. w \<noteq> [60]" "\<forall>w\<in>set (bs @ redirection 62 out @ cs). w \<noteq> [60]" "\<forall>w\<in>set (bs @ [[62]]). w \<noteq> [60]"
    and gt: "\<forall>w\<in>set (as @ bs). w \<noteq> [62]" "\<forall>w\<in>set cs. w \<noteq> [62]"
    using plain plain_wordD(2,3) red(3) by (simp_all add: ball_Un)
  let ?i = "case inp of None \<Rightarrow> [] | Some f \<Rightarrow> c_string f" and ?o = "case out of None \<Rightarrow> [] | Some f \<Rightarrow> c_string f"
  have w1: "command_words (unwords (as @ redirection 60 inp @ bs @ redirection 62 out @ cs)) =
      map c_string (as @ redirection 60 inp @ (bs @ redirection 62 out @ cs))"
    by (rule command_words_unwords) (use good red in \<open>simp add: ball_Un\<close>)
  have t1: "take_redirect 60 (map c_string (as @ redirection 60 inp @ (bs @ redirection 62 out @ cs))) =
      Inr (?i, map c_string ((as @ bs) @ redirection 62 out @ cs))"
    using take_redirect_redirection[OF lt(1), of inp "bs @ redirection 62 out @ cs"] lt(2) by (simp only: append_assoc)
  have t2: "take_redirect 62 (map c_string ((as @ bs) @ redirection 62 out @ cs)) = Inr (?o, map c_string (as @ bs @ cs))"
    using take_redirect_redirection[OF gt(1), of out cs] gt(2) by (simp only: append_assoc)
  have 1: "ProcessArguments_new (unwords (as @ redirection 60 inp @ bs @ redirection 62 out @ cs)) =
      Inr \<lparr>pa_input = ?i, pa_output = ?o, pa_args_copy = map c_string (as @ bs @ cs)\<rparr>"
    by (simp only: ProcessArguments_new_def w1 t1 t2 sum.case prod.case)
  have w2: "command_words (unwords (as @ [[60]])) = map c_string (as @ [[60]])"
    by (rule command_words_unwords) (use good mark in \<open>simp add: ball_Un\<close>)
  have 2: "ProcessArguments_new (unwords (as @ [[60]])) = Inl IndexOutOfRange"
    by (simp only: ProcessArguments_new_def w2 take_redirect_some(2)[OF lt(1)] sum.case)
  have w3: "command_words (unwords (as @ redirection 60 inp @ bs @ [[62]])) = map c_string (as @ redirection 60 inp @ (bs @ [[62]]))"
    by (rule command_words_unwords) (use good red mark in \<open>simp add: ball_Un\<close>)
  have t3: "take_redirect 60 (map c_string (as @ redirection 60 inp @ (bs @ [[62]]))) = Inr (?i, map c_string ((as @ bs) @ [[62]]))"
    using take_redirect_redirection[OF lt(1), of inp "bs @ [[62]]"] lt(3) by (simp only: append_assoc)
  have 3: "ProcessArguments_new (unwords (as @ redirection 60 inp @ bs @ [[62]])) = Inl IndexOutOfRange"
    by (simp only: ProcessArguments_new_def w3 t3 take_redirect_some(2)[OF gt(1)] sum.case prod.case)
  show ?thesis using 1 2 3 by blast
qed

theorem ProcessArguments_round_trip_witness:
  "ProcessArguments_new (unwords [[99, 97, 116], [60], [97], [62], [98]]) =
     Inr \<lparr>pa_input = [97, 0], pa_output = [98, 0], pa_args_copy = [[99, 97, 116, 0]]\<rparr> \<and>
   ProcessArguments_new (unwords [[99, 97, 116], [60]]) = Inl IndexOutOfRange"
  using ProcessArguments_round_trip[of "[[99, 97, 116]]" "[]" "[]" "Some [97]" "Some [98]"]
  by (simp add: plain_word_def redirection_def c_string_def)

end
