(* ===== verification/Spec2Isabelle.thy ===== *)
theory Spec2Isabelle
  imports Fork_Copy Efs_Dir Inode_Clear Stacks Scheduler Descriptors Exit_Wait Sdcard_Device Sdcard_Init Virtio Packer User_Abi Shell_Parse
begin

text \<open>
  Verification of the rCore tutorial: the kernel (\<^verbatim>\<open>src/os/src\<close>), its file system (\<^verbatim>\<open>src/easy-fs/src\<close>), the builder of
  disk images (\<^verbatim>\<open>src/easy-fs-fuse\<close>), and the user library with its shell (\<^verbatim>\<open>src/user/src\<close>).

  \<^bold>\<open>The program.\<close> A program in user mode calls its library, which puts a system call number and arguments in registers and
  traps. The trap handler of the kernel dispatches on the number. A system call reads user memory through the page table of
  the caller, works on control blocks, descriptors, pipes and locks, may suspend the current task and let the scheduler resume
  another one, and reaches files through the inode layer, which works on 512-byte blocks behind a cache of 16 entries in
  front of a block device: virtio on qemu, an SD card on the k210, a host file in the image builder.

  \<^bold>\<open>How it is modelled.\<close> The code is built in release mode, so machine integers wrap: \<^verbatim>\<open>usize\<close>, \<^verbatim>\<open>u64\<close> and \<^verbatim>\<open>u32\<close> are words.
  A panic is a value of \<open>panic\<close> and a fallible function returns \<open>panic + 'a\<close>. Stateful code is a program
  \<open>'s \<Rightarrow> panic + 'a \<times> 's\<close> built with \<open>ret\<close>, \<open>andthen\<close>, \<open>throw\<close> and the like (\<open>Prelude\<close>), and \<open>wp\<close> states total
  correctness: the program returns without a panic and the result satisfies the claim. States are extensible records, so an
  operation on memory or on the cache runs unchanged on the state of the whole kernel. Shared objects (\<^verbatim>\<open>Arc\<close>) are indexes
  into lists of the kernel state. A task that is switched out keeps a \<open>kcont\<close>, a value that says which function goes on
  where. The contents of the console, the time register and the block device are fields of the state or of \<open>'d platform\<close>.

  \<^bold>\<open>Memory\<close> (\<^verbatim>\<open>os/src/mm\<close>).
  \<^item> \<open>Address\<close>: address and page number types, conversions, page ranges (\<^verbatim>\<open>address.rs\<close>). The range from the floor of the start
    to the ceiling of the end has exactly the pages of the byte range.
  \<^item> \<open>Phys_Mem\<close>, \<open>Frame_Allocator\<close> (\<^verbatim>\<open>frame_allocator.rs\<close>), \<open>Id_Alloc\<close> (\<open>RecycleAllocator\<close> of \<^verbatim>\<open>task/id.rs\<close>): both allocators
    interpret the locale \<open>id_allocator\<close>, which says that nothing is handed out twice. Ids are \<^verbatim>\<open>usize\<close> words whose counter
    wraps; the theorem on them counts the calls of \<^verbatim>\<open>alloc\<close> and holds below $2^{64} - 1$ of them.
  \<^item> \<open>Page_Table\<close>, \<open>Page_Table_Inv\<close>, \<open>Page_Table_Ops\<close> (\<^verbatim>\<open>page_table.rs\<close>): \<open>map\<close> and \<open>unmap\<close> update the abstract map from pages to
    entries at one place, on well-formed trees of table frames. \<^verbatim>\<open>translate\<close> sees the same, but for empty entries in new tables.
  \<^item> \<open>User_Memory\<close> (\<^verbatim>\<open>translated_byte_buffer\<close> and relatives): the slices are the byte-wise translation, for addresses below
    $2^{39}$; for ranges above whose pages (modulo $2^{39}$) have entries, the loop does not end.
  \<^item> \<open>Memory_Set\<close>, \<open>Memory_Set_Inv\<close>, \<open>Address_Space\<close>, \<open>Fork_Copy\<close> (\<^verbatim>\<open>memory_set.rs\<close>): new areas get zeroed frames of their own,
    the copy for \<^verbatim>\<open>fork\<close> has the contents of the parent in frames of its own. The ELF parser is an argument.

  \<^bold>\<open>File system\<close> (\<^verbatim>\<open>easy-fs/src\<close>).
  \<^item> \<open>Block_Cache\<close> (\<^verbatim>\<open>block_dev.rs\<close>, \<^verbatim>\<open>block_cache.rs\<close>) and \<open>Block_View\<close>: the locale \<open>block_device\<close> is the contract of a device.
    Inside it \<open>vspec\<close> speaks about the disk seen through the cache: hits, loads and evictions do not change it. Everything above
    is proved with its rules, for every device that keeps the contract. A block that is locked is in \<open>held\<close>; a second lock of it
    is the panic \<open>Deadlock\<close>, and an eviction that finds every block locked is the panic of the source.
  \<^item> \<open>Block_File\<close> (\<^verbatim>\<open>BlockFile\<close>) interprets \<open>block_device\<close>; \<open>Sdcard_Device\<close> shows it for the SD card driver on a card that follows
    the SPI protocol; the protocol, with its command frame \<open>sd_frame\<close>, is stated apart from the driver. \<open>Sdcard\<close> and \<open>Sdcard_Init\<close> model the commands, data tokens, registers and the initialisation
    (\<^verbatim>\<open>os/src/drivers/block/sdcard.rs\<close>); the controller is the record \<open>spi_bus\<close>. \<open>Virtio\<close> models the memory callbacks of the virtio
    driver, whose crate is a parameter.
  \<^item> \<open>Codec\<close>, \<open>Bitmap\<close> (\<^verbatim>\<open>bitmap.rs\<close>): allocation returns the lowest clear bit, release clears exactly one.
  \<^item> \<open>Layout\<close>, \<open>Layout_Inv\<close>, \<open>File_Data\<close>, \<open>Inode_Growth\<close>, \<open>Inode_Increase\<close>, \<open>Inode_Clear\<close> (\<^verbatim>\<open>layout.rs\<close>): byte encodings, the block
    list of a file through direct and indirect blocks, reading and writing as slices of the contents, growth and truncation.
  \<^item> \<open>Efs\<close> models \<^verbatim>\<open>efs.rs\<close> and \<^verbatim>\<open>vfs.rs\<close>. \<open>Efs_Format\<close>: formatting is durable and opening reads the same layout back.
    \<open>Efs_Files\<close>: writing through an inode, with growth, changes one file and keeps all others. \<open>Efs_Dir\<close>: a directory is a list of
    names and inode numbers; \<^verbatim>\<open>create\<close> appends to it, \<^verbatim>\<open>find\<close> and \<^verbatim>\<open>ls\<close> read it. \<open>Packer\<close> is \<^verbatim>\<open>easy_fs_pack\<close> of
    \<^verbatim>\<open>easy-fs-fuse/src/main.rs\<close>. The data bitmap may have more bits than the data area has blocks, so the theorems count the
    blocks \<open>c\<close> that exist and ask for room among them.

  \<^bold>\<open>Tasks\<close> (\<^verbatim>\<open>os/src/task\<close>, \<^verbatim>\<open>sync\<close>, \<^verbatim>\<open>fs\<close>, \<^verbatim>\<open>syscall\<close>, \<^verbatim>\<open>trap\<close>).
  \<^item> \<open>Pipe\<close> (\<^verbatim>\<open>fs/pipe.rs\<close>): the ring buffer interprets \<open>bounded_fifo\<close>. \<open>Sync\<close> (\<^verbatim>\<open>sync/*.rs\<close>): mutex and semaphore interpret
    \<open>admission\<close>, a step relation of tasks that keep to the discipline of a lock, with exclusion, no lost wakeup and bounded
    waiting. For semaphores \<open>sem_calls\<close> also says what arbitrary sequences of calls do. \<open>Timer\<close> (\<^verbatim>\<open>timer.rs\<close>).
  \<^item> \<open>Kernel_State\<close>, \<open>Process\<close>, \<open>Scheduling\<close>, \<open>Kernel_Files\<close>, \<open>Syscalls\<close>, \<open>Trap\<close>: control blocks, processes, switching and exit, files,
    every system call, and the trap handler, one definition per function of the source.
  \<^item> \<open>Stacks\<close>: kernel stacks and thread resources do not overlap. \<open>Scheduler\<close>: tasks are conserved by every scheduling operation,
    and the queues interpret \<open>waiting_line\<close>. \<open>Descriptors\<close>, \<open>Exit_Wait\<close>, \<open>Demo_Kernel\<close>: descriptors, trap contexts, exit and wait, with
    a concrete kernel on which the witnesses run.

  \<^bold>\<open>User programs\<close> (\<^verbatim>\<open>user/src\<close>).
  \<^item> \<open>User_Lib\<close> (\<^verbatim>\<open>syscall.rs\<close>, \<^verbatim>\<open>lib.rs\<close>) with the \<^verbatim>\<open>ecall\<close> instruction as an argument, and \<open>User_Abi\<close>: with the kernel's dispatcher
    in its place every call reaches the kernel function it is meant for.
  \<^item> \<open>Shell\<close>, \<open>Shell_Parse\<close> (\<^verbatim>\<open>bin/user_shell.rs\<close>, \<^verbatim>\<open>bin/initproc.rs\<close>): parsing inverts printing of commands with redirections.

  \<^bold>\<open>Loops and bounds.\<close> Loops over lists and ranges are recursive functions. Loops that the code itself bounds by a
  counter or an offset have a termination proof. Loops that need not end (user strings and buffers, pipe transfers, waiting for a
  card, polling, the shell) are \<open>partial_function (option)\<close>, where None means that the loop does not end; inside a program this is
  the value \<open>NeverReturns\<close>. The loop that fills doubly indirect blocks has fuel, one more than the blocks it is given: each round
  consumes one of them or panics. The drop of a process recurses over its children with fuel, one more than there are
  processes: a process is dropped only when nothing refers to it. The time-out of a card response is the 0x0FFF of the source.

  \<^bold>\<open>Not modelled.\<close> Assembly (\<^verbatim>\<open>entry.asm\<close>, \<^verbatim>\<open>switch.S\<close>, \<^verbatim>\<open>trap.S\<close>) and the writes of control registers: their effect is the switch of
  continuations and the trap context in memory. Console output and SBI calls (\<^verbatim>\<open>console.rs\<close>, \<^verbatim>\<open>sbi.rs\<close>, \<^verbatim>\<open>lang_items.rs\<close>): calls into
  firmware. The kernel and user heaps: an array given to an allocator crate; allocation of kernel objects does not fail. The
  selection of drivers: type aliases. \<^verbatim>\<open>clear_bss\<close>. The borrow flags of global cells other than control blocks: no function accesses
  one of them while it is borrowed. Test functions, \<^verbatim>\<open>Debug\<close> output, and the test programs of \<^verbatim>\<open>user/src/bin\<close>, which only call
  the library. Crates (\<^verbatim>\<open>xmas_elf\<close>, \<^verbatim>\<open>virtio_drivers\<close>, \<^verbatim>\<open>k210_hal\<close>, \<^verbatim>\<open>riscv\<close>) are parameters.
\<close>

end
